(* ===== verification/Prelude.thy ===== *)
theory Prelude
  imports Main "HOL-Library.Product_Lexorder" "HOL-Library.Sublist"
begin

text \<open>
  The shared vocabulary of the development.

  \<^item> Identifiers and instants. An id is a uuid; every layer compares ids and never takes them
    apart, so an id is its 128-bit value read as a \<open>nat\<close> (the byte order of Postgres's
    \<open>uuid\<close> type is the order of these numbers). An instant is a number of nanoseconds since
    Go's zero time (0001-01-01T00:00:00Z), so Go's \<open>IsZero\<close> is \<open>t = 0\<close>.
  \<^item> Errors. \<open>pg_error\<close> is what a statement can raise: the SQLSTATE classes the code tells
    apart, with the constraint's name. \<open>repo_error\<close> is the vocabulary of
    internal/domain/errors.go and internal/domain/session/errors.go; \<open>ErrOther\<close> is an error
    the code only wraps with \<open>fmt.Errorf\<close>.
  \<^item> Transactions. A statement is a function from the database to an error or a result with
    the new database; \<open>in_tx\<close> is pgx's Begin .. Commit with the deferred Rollback.
  \<^item> Tables. A table is the list of its rows; \<open>lookup_row\<close>, \<open>put_row\<close> and
    \<open>drop_row\<close> are the row-level effects of SELECT, UPDATE and DELETE on a primary key.
\<close>

named_theorems repo_defs \<open>definitions of the repository operations\<close>
named_theorems table_simps \<open>how row-level effects act on a table\<close>

section \<open>Identifiers, instants, errors\<close>

type_synonym uuid = nat
type_synonym time = int

text \<open>
  A \<open>timestamptz\<close> holds microseconds: pgx truncates a Go \<open>time.Time\<close> to them when it
  sends it. An \<open>integer\<close> column takes 32-bit numbers only.
\<close>

definition pg_time :: "time \<Rightarrow> time" where
  "pg_time t = t div 1000 * 1000"

definition int4 :: "int \<Rightarrow> bool" where
  "int4 i = (- 2147483648 \<le> i \<and> i \<le> 2147483647)"

definition int4_opt :: "int option \<Rightarrow> bool" where
  "int4_opt c = (case c of None \<Rightarrow> True | Some i \<Rightarrow> int4 i)"

datatype pg_error =
    UniqueViolation string
  | ForeignKeyViolation string
  | CheckViolation string
  | ExclusionViolation string
  | DataException string

datatype other_error = Pg pg_error | NoRows | KeyVanished | IndexPanic

datatype repo_error =
    ErrConflict
  | ErrVersionMismatch
  | ErrForbidden
  | ErrNotFound
  | ErrInvalidRoom
  | ErrInvalidSpeaker
  | ErrOther other_error

section \<open>Statements and transactions\<close>

type_synonym ('s, 'a) stmt = "'s \<Rightarrow> repo_error + ('a \<times> 's)"

definition in_tx :: "('s, 'a) stmt \<Rightarrow> 's \<Rightarrow> (repo_error + 'a) \<times> 's" where
  "in_tx f s = (case f s of Inl e \<Rightarrow> (Inl e, s) | Inr (a, s') \<Rightarrow> (Inr a, s'))"

definition and_then :: "('e + 'a) \<Rightarrow> ('a \<Rightarrow> 'e + 'b) \<Rightarrow> 'e + 'b" where
  "and_then r f = (case r of Inl e \<Rightarrow> Inl e | Inr a \<Rightarrow> f a)"

definition wrap_pg :: "(pg_error + 'a) \<Rightarrow> repo_error + 'a" where
  "wrap_pg r = (case r of Inl e \<Rightarrow> Inl (ErrOther (Pg e)) | Inr a \<Rightarrow> Inr a)"

text \<open>
  \<open>errors.As(err, &pgErr) && pgErr.Code == ..\<close>: the violations of one SQLSTATE become
  \<open>domain.ErrConflict\<close>, every other error is wrapped.
\<close>

definition wrap_conflict :: "(pg_error \<Rightarrow> bool) \<Rightarrow> (pg_error + 'a) \<Rightarrow> repo_error + 'a" where
  "wrap_conflict code r =
     (case r of Inl e \<Rightarrow> Inl (if code e then ErrConflict else ErrOther (Pg e)) | Inr a \<Rightarrow> Inr a)"

fun uniqueViolation :: "pg_error \<Rightarrow> bool" where
  "uniqueViolation (UniqueViolation c) = True"
| "uniqueViolation e = False"

fun foreignKeyViolation :: "pg_error \<Rightarrow> bool" where
  "foreignKeyViolation (ForeignKeyViolation c) = True"
| "foreignKeyViolation e = False"

fun exclusionViolation :: "pg_error \<Rightarrow> bool" where
  "exclusionViolation (ExclusionViolation c) = True"
| "exclusionViolation e = False"

lemma and_then_simps [simp]:
  "and_then (Inl e) f = Inl e"
  "and_then (Inr a) f = f a"
  by (simp_all add: and_then_def)

lemma and_then_Inr_iff: "and_then r f = Inr b \<longleftrightarrow> (\<exists>a. r = Inr a \<and> f a = Inr b)"
  by (cases r) simp_all

lemma wrap_pg_Inr_iff [simp]: "wrap_pg r = Inr a \<longleftrightarrow> r = Inr a"
  by (cases r) (simp_all add: wrap_pg_def)

lemma wrap_conflict_Inr_iff [simp]: "wrap_conflict code r = Inr a \<longleftrightarrow> r = Inr a"
  by (cases r) (simp_all add: wrap_conflict_def)

lemma wrap_conflict_Inl [simp]:
  "wrap_conflict code (Inl e) = Inl (if code e then ErrConflict else ErrOther (Pg e))"
  by (simp add: wrap_conflict_def)

lemma and_then_Inl_iff: "and_then r f = Inl e \<longleftrightarrow> r = Inl e \<or> (\<exists>a. r = Inr a \<and> f a = Inl e)"
  by (cases r) simp_all

lemma wrap_pg_Inl_iff: "wrap_pg r = Inl e \<longleftrightarrow> (\<exists>p. r = Inl p \<and> e = ErrOther (Pg p))"
  by (cases r) (auto simp: wrap_pg_def)

lemma in_tx_Inl [simp]: "in_tx f s = (Inl e, s') \<longleftrightarrow> f s = Inl e \<and> s' = s"
  by (auto simp: in_tx_def split: sum.splits)

lemma in_tx_Inr [simp]: "in_tx f s = (Inr a, s') \<longleftrightarrow> f s = Inr (a, s')"
  by (auto simp: in_tx_def split: sum.splits)

lemma in_tx_cases:
  obtains (rolled_back) e where "f s = Inl e" "in_tx f s = (Inl e, s)"
    | (committed) a s' where "f s = Inr (a, s')" "in_tx f s = (Inr a, s')"
  by (cases "f s") auto

lemma snd_in_tx: "snd (in_tx f s) = (case f s of Inl e \<Rightarrow> s | Inr (a, s') \<Rightarrow> s')"
  by (auto simp: in_tx_def split: sum.splits)

section \<open>Tables\<close>

definition lookup_row :: "('r \<Rightarrow> uuid) \<Rightarrow> uuid \<Rightarrow> 'r list \<Rightarrow> 'r option" where
  "lookup_row key k rs = find (\<lambda>r. key r = k) rs"

definition put_row :: "('r \<Rightarrow> uuid) \<Rightarrow> 'r \<Rightarrow> 'r list \<Rightarrow> 'r list" where
  "put_row key r' rs = map (\<lambda>r. if key r = key r' then r' else r) rs"

definition drop_row :: "('r \<Rightarrow> uuid) \<Rightarrow> uuid \<Rightarrow> 'r list \<Rightarrow> 'r list" where
  "drop_row key k rs = filter (\<lambda>r. key r \<noteq> k) rs"

lemma lookup_row_Nil [simp]: "lookup_row key k [] = None"
  by (simp add: lookup_row_def)

lemma lookup_row_Cons [simp]:
  "lookup_row key k (r # rs) = (if key r = k then Some r else lookup_row key k rs)"
  by (simp add: lookup_row_def)

lemma lookup_row_append [table_simps]:
  "lookup_row key k (xs @ ys) =
     (case lookup_row key k xs of Some r \<Rightarrow> Some r | None \<Rightarrow> lookup_row key k ys)"
  by (induction xs) auto

lemma lookup_row_Some: "lookup_row key k rs = Some r \<Longrightarrow> r \<in> set rs \<and> key r = k"
  by (induction rs) (auto split: if_splits)

lemma lookup_row_None: "lookup_row key k rs = None \<longleftrightarrow> k \<notin> key ` set rs"
  by (induction rs) auto

lemma lookup_row_in:
  "distinct (map key rs) \<Longrightarrow> r \<in> set rs \<Longrightarrow> lookup_row key (key r) rs = Some r"
  by (induction rs) (auto simp: rev_image_eqI)

lemma map_key_put_row [simp, table_simps]: "map key (put_row key r rs) = map key rs"
  by (induction rs) (auto simp: put_row_def)

lemma lookup_put_row [table_simps]:
  "lookup_row key k (put_row key r' rs) =
     (if k = key r' then map_option (\<lambda>_. r') (lookup_row key k rs) else lookup_row key k rs)"
  by (induction rs) (auto simp: put_row_def)

lemma lookup_drop_row [table_simps]:
  "lookup_row key k (drop_row key k' rs) = (if k = k' then None else lookup_row key k rs)"
  by (induction rs) (auto simp: drop_row_def)

lemma set_drop_row [simp, table_simps]: "set (drop_row key k rs) = {r \<in> set rs. key r \<noteq> k}"
  by (simp add: drop_row_def)

lemma distinct_drop_row: "distinct (map key rs) \<Longrightarrow> distinct (map key (drop_row key k rs))"
  by (simp add: drop_row_def distinct_map_filter)

lemma set_put_row:
  "distinct (map key rs) \<Longrightarrow> lookup_row key (key r') rs = Some r \<Longrightarrow>
     set (put_row key r' rs) = insert r' (set rs - {r})"
  by (induction rs)
    (auto simp: put_row_def rev_image_eqI split: if_splits dest: lookup_row_Some)

lemma set_put_row_subset: "set (put_row key r' rs) \<subseteq> insert r' (set rs)"
  by (auto simp: put_row_def)

lemma key_in_put_row: "x \<in> set (put_row key r' rs) \<Longrightarrow> key x = key r' \<Longrightarrow> x = r'"
  by (auto simp: put_row_def split: if_splits)

lemma put_row_keeps: "r \<in> set rs \<Longrightarrow> key r \<noteq> key r' \<Longrightarrow> r \<in> set (put_row key r' rs)"
  by (force simp: put_row_def)

lemma put_row_absent: "key r' \<notin> key ` set rs \<Longrightarrow> put_row key r' rs = rs"
  by (induction rs) (auto simp: put_row_def)

lemma drop_row_absent: "k \<notin> key ` set rs \<Longrightarrow> drop_row key k rs = rs"
  by (induction rs) (auto simp: drop_row_def)

lemma put_row_append [table_simps]: "put_row key r (xs @ ys) = put_row key r xs @ put_row key r ys"
  by (simp add: put_row_def)

lemma drop_row_append [table_simps]: "drop_row key k (xs @ ys) = drop_row key k xs @ drop_row key k ys"
  by (simp add: drop_row_def)

text \<open>A join on a key: each row on the left finds at most one partner, and a foreign key exactly one.\<close>

lemma concat_join:
  "distinct (map f us) \<Longrightarrow>
     concat (map (\<lambda>u. if f u = k \<and> b then [g u] else []) us) =
     (if b then (case lookup_row f k us of None \<Rightarrow> [] | Some u \<Rightarrow> [g u]) else [])"
proof (induction us)
  case (Cons u us)
  then show ?case
    using lookup_row_None [of f k us] by (cases "f u = k") auto
qed simp

lemma join_rows:
  assumes "distinct (map f us)" and "\<forall>m \<in> set ms. P m \<longrightarrow> k m \<in> f ` set us"
  shows "concat (map (\<lambda>m. concat (map (\<lambda>u. if f u = k m \<and> P m then [g m u] else []) us)) ms) =
     map (\<lambda>m. g m (the (lookup_row f (k m) us))) (filter P ms)"
  using assms(2)
proof (induction ms)
  case (Cons m ms)
  then show ?case
    using lookup_row_None [of f "k m" us] by (auto simp: concat_join [OF assms(1)] split: option.splits)
qed simp

section \<open>Presence of a PATCH field\<close>

text \<open>
  internal/domain/opt/optional.go: \<open>Set\<close> is false exactly when the JSON key never appeared;
  a present key, explicit null included, sets it. \<open>opt_of\<close> is \<open>opt.Of\<close>.
\<close>

record 'a optional =
  opt_value :: 'a
  opt_set :: bool

definition opt_of :: "'a \<Rightarrow> 'a optional" where
  "opt_of v = \<lparr>opt_value = v, opt_set = True\<rparr>"

definition apply_opt :: "'a optional \<Rightarrow> 'a \<Rightarrow> 'a" where
  "apply_opt p old = (if opt_set p then opt_value p else old)"

lemma apply_opt_simps [simp]:
  "opt_set p \<Longrightarrow> apply_opt p old = opt_value p"
  "\<not> opt_set p \<Longrightarrow> apply_opt p old = old"
  "opt_set (opt_of v)" "opt_value (opt_of v) = v"
  by (simp_all add: apply_opt_def opt_of_def)

end
