(* ===== verification/Paging.thy ===== *)
theory Paging
  imports Prelude
begin

text \<open>
  Keyset pagination. Every List of internal/adapter/postgres reads
  \<open>WHERE scope [AND (created_at, id) > cursor] ORDER BY created_at, id LIMIT limit + 1\<close> and
  trims the extra row. \<open>fetch_keyset\<close> is the query, \<open>trim_page\<close> the trimming and the
  next cursor. The locale \<open>keyset_list\<close> is the contract a List operation offers to a client
  that follows cursors; its lemmas describe a walk over pages that are read from changing
  snapshots of the table. The repository theories interpret it on their List operations.
\<close>

record cursor =
  cur_created_at :: time
  cur_id :: uuid

definition cursor_key :: "cursor \<Rightarrow> time \<times> uuid" where
  "cursor_key c = (cur_created_at c, cur_id c)"

definition key_cursor :: "time \<times> uuid \<Rightarrow> cursor" where
  "key_cursor k = \<lparr>cur_created_at = fst k, cur_id = snd k\<rparr>"

lemma cursor_key_inverse [simp]: "cursor_key (key_cursor k) = k" "key_cursor (cursor_key c) = c"
  by (simp_all add: cursor_key_def key_cursor_def)

fun past :: "cursor option \<Rightarrow> time \<times> uuid \<Rightarrow> bool" where
  "past None k = True"
| "past (Some c) k = (cursor_key c < k)"

definition keyset_rows :: "('r \<Rightarrow> time \<times> uuid) \<Rightarrow> cursor option \<Rightarrow> 'r list \<Rightarrow> 'r list" where
  "keyset_rows key after rs = sort_key key (filter (\<lambda>r. past after (key r)) rs)"

definition fetch_keyset ::
    "('r \<Rightarrow> time \<times> uuid) \<Rightarrow> nat \<Rightarrow> cursor option \<Rightarrow> 'r list \<Rightarrow> 'r list" where
  "fetch_keyset key lim after rs = take lim (keyset_rows key after rs)"

text \<open>
  \<open>rows[limit-1]\<close> panics for \<open>limit = 0\<close> once a row was fetched: that branch is the
  \<open>IndexPanic\<close> below. The handlers only pass limits between 1 and 100.
\<close>

definition trim_page ::
    "('r \<Rightarrow> time \<times> uuid) \<Rightarrow> nat \<Rightarrow> 'r list \<Rightarrow> repo_error + ('r list \<times> cursor option)" where
  "trim_page key limit fetched =
     (if limit < length fetched
      then if limit = 0 then Inl (ErrOther IndexPanic)
           else Inr (take limit fetched, Some (key_cursor (key (take limit fetched ! (limit - 1)))))
      else Inr (fetched, None))"

definition list_page ::
    "('r \<Rightarrow> time \<times> uuid) \<Rightarrow> nat \<Rightarrow> cursor option \<Rightarrow> 'r list \<Rightarrow>
     repo_error + ('r list \<times> cursor option)" where
  "list_page key limit after rs = trim_page key limit (fetch_keyset key (limit + 1) after rs)"

text \<open>A client that follows \<open>next_cursor\<close>, one snapshot of the database per request.\<close>

fun walk ::
    "(cursor option \<Rightarrow> 's \<Rightarrow> repo_error + ('r list \<times> cursor option)) \<Rightarrow> cursor option \<Rightarrow> 's list \<Rightarrow>
     'r list \<times> bool" where
  "walk f after [] = ([], False)"
| "walk f after (s # ss) =
     (case f after s of
        Inl e \<Rightarrow> ([], False)
      | Inr (rows, None) \<Rightarrow> (rows, True)
      | Inr (rows, Some c) \<Rightarrow> (rows @ fst (walk f (Some c) ss), snd (walk f (Some c) ss)))"

section \<open>One page\<close>

lemma set_keyset_rows: "set (keyset_rows key after rs) = {r \<in> set rs. past after (key r)}"
  by (simp add: keyset_rows_def)

lemma sorted_keyset_rows: "sorted (map key (keyset_rows key after rs))"
  by (simp add: keyset_rows_def)

lemma distinct_map_sort_key: "distinct (map f (sort_key key rs)) = distinct (map f rs)"
  by (simp add: distinct_map)

lemma strict_le_last:
  "sorted_wrt (<) (map key p) \<Longrightarrow> r \<in> set p \<Longrightarrow> key r \<le> (key (last p) :: 'k :: linorder)"
  by (induction p rule: rev_induct) (auto simp: sorted_wrt_append)

lemma strict_keyset_rows:
  assumes "distinct (map key rs)"
  shows "sorted_wrt (<) (map key (keyset_rows key after rs))"
proof -
  have "distinct (map key (filter (\<lambda>r. past after (key r)) rs))"
    using assms by (simp add: distinct_map_filter)
  then have "distinct (map key (keyset_rows key after rs))"
    by (simp add: keyset_rows_def distinct_map_sort_key)
  then show ?thesis
    by (simp add: strict_sorted_iff sorted_keyset_rows)
qed

lemma list_page_Inr:
  assumes "0 < limit"
  shows "list_page key limit after rs =
     (let R = keyset_rows key after rs in
      Inr (take limit R,
           if limit < length R then Some (key_cursor (key (R ! (limit - 1)))) else None))"
  using assms
  by (auto simp: list_page_def trim_page_def fetch_keyset_def Let_def min_def)

lemma list_page_last:
  assumes "list_page key limit after rs = Inr (p, None)" "0 < limit"
  shows "p = keyset_rows key after rs"
  using assms by (auto simp: list_page_Inr Let_def split: if_splits)

lemma list_page_more:
  assumes "list_page key limit after rs = Inr (p, Some c)" "0 < limit"
  obtains q where "keyset_rows key after rs = p @ q" "p \<noteq> []" "q \<noteq> []" "length p = limit"
    "cursor_key c = key (last p)"
proof
  let ?R = "keyset_rows key after rs"
  from assms have p: "p = take limit ?R" and l: "limit < length ?R"
    and c: "c = key_cursor (key (?R ! (limit - 1)))"
    by (auto simp: list_page_Inr Let_def split: if_splits)
  show "?R = p @ drop limit ?R" by (simp add: p)
  show "p \<noteq> []" "drop limit ?R \<noteq> []" "length p = limit" using p l assms(2) by auto
  have "take limit ?R \<noteq> []" using l assms(2) by auto
  then show "cursor_key c = key (last p)"
    using p l c by (simp add: last_conv_nth min_def)
qed

section \<open>The contract of a List operation, and walks over it\<close>

locale keyset_list =
  fixes list_op :: "nat \<Rightarrow> cursor option \<Rightarrow> 's \<Rightarrow> repo_error + ('r list \<times> cursor option)"
    and rows :: "'s \<Rightarrow> 'r list"
    and key :: "'r \<Rightarrow> time \<times> uuid"
    and ok :: "'s \<Rightarrow> bool"
  assumes list_op_page: "ok s \<Longrightarrow> list_op limit after s = list_page key limit after (rows s)"
    and keys_distinct: "ok s \<Longrightarrow> distinct (map key (rows s))"
begin

lemma walk_strict:
  assumes "0 < limit" and "\<forall>s \<in> set ss. ok s"
  shows "sorted_wrt (<) (map key (fst (walk (list_op limit) after ss))) \<and>
         (\<forall>r \<in> set (fst (walk (list_op limit) after ss)). past after (key r))"
  using assms(2)
proof (induction ss arbitrary: after)
  case Nil
  then show ?case by simp
next
  case (Cons s ss)
  let ?R = "keyset_rows key after (rows s)"
  from Cons.prems have d: "sorted_wrt (<) (map key ?R)" and ok: "ok s"
    using keys_distinct strict_keyset_rows by auto
  have m: "\<forall>r \<in> set ?R. past after (key r)" by (simp add: set_keyset_rows)
  show ?case
  proof (cases "list_op limit after s")
    case (Inl e)
    then show ?thesis by simp
  next
    case (Inr pn)
    obtain p nxt where pn: "pn = (p, nxt)" by (cases pn)
    show ?thesis
    proof (cases nxt)
      case None
      then have "p = ?R" using Inr pn assms(1) ok by (auto simp: list_op_page dest: list_page_last)
      then show ?thesis using None Inr pn d m by simp
    next
      case (Some c)
      then have lp: "list_page key limit after (rows s) = Inr (p, Some c)"
        using Inr pn ok by (simp add: list_op_page)
      then obtain q where q: "?R = p @ q" "p \<noteq> []" "cursor_key c = key (last p)"
        using assms(1) by (rule list_page_more)
      let ?W = "fst (walk (list_op limit) (Some c) ss)"
      have "sorted_wrt (<) (map key ?W) \<and> (\<forall>r \<in> set ?W. past (Some c) (key r))"
        using Cons.prems by (intro Cons.IH) simp
      then have w: "sorted_wrt (<) (map key ?W)" "\<forall>r \<in> set ?W. key (last p) < key r"
        using q(3) by simp_all
      have "key r \<le> key (last p)" if "r \<in> set p" for r
        using d q(1) that by (auto simp: sorted_wrt_append intro: strict_le_last)
      moreover have "past after (key (last p))" using m q(1,2) by auto
      ultimately have "\<forall>r \<in> set p. \<forall>r' \<in> set ?W. key r < key r'"
        and "\<forall>r' \<in> set ?W. past after (key r')"
        using w(2) by (force, cases after, auto dest: less_trans)
      then show ?thesis
        using Some Inr pn d q(1) w(1) m by (auto simp: sorted_wrt_append)
    qed
  qed
qed

lemma walk_complete:
  assumes "0 < limit" and "\<forall>s \<in> set ss. ok s \<and> k \<in> key ` set (rows s)" and "past after k"
    and "snd (walk (list_op limit) after ss)"
  shows "k \<in> key ` set (fst (walk (list_op limit) after ss))"
  using assms(2-)
proof (induction ss arbitrary: after)
  case Nil
  then show ?case by simp
next
  case (Cons s ss)
  let ?R = "keyset_rows key after (rows s)"
  from Cons.prems have ok: "ok s" and k: "k \<in> key ` set ?R"
    by (auto simp: set_keyset_rows)
  show ?case
  proof (cases "list_op limit after s")
    case (Inl e)
    then show ?thesis using Cons.prems by simp
  next
    case (Inr pn)
    obtain p nxt where pn: "pn = (p, nxt)" by (cases pn)
    show ?thesis
    proof (cases nxt)
      case None
      then have "p = ?R" using Inr pn assms(1) ok by (auto simp: list_op_page dest: list_page_last)
      then show ?thesis using None Inr pn k by simp
    next
      case (Some c)
      then have "list_page key limit after (rows s) = Inr (p, Some c)"
        using Inr pn ok by (simp add: list_op_page)
      then obtain q where q: "?R = p @ q" "p \<noteq> []" "cursor_key c = key (last p)"
        using assms(1) by (rule list_page_more)
      show ?thesis
      proof (cases "cursor_key c < k")
        case True
        then have "k \<in> key ` set (fst (walk (list_op limit) (Some c) ss))"
          using Cons.prems Some Inr pn by (intro Cons.IH) auto
        then show ?thesis using Some Inr pn by auto
      next
        case False
        then have "k \<notin> key ` set q \<or> k \<in> key ` set p"
          using sorted_keyset_rows [of key after "rows s"] q
          by (auto simp: sorted_append) (metis last_in_set leD order_le_imp_less_or_eq rev_image_eqI)
        then show ?thesis using k q(1) Some Inr pn by auto
      qed
    qed
  qed
qed

text \<open>On a table that does not change, enough requests finish the walk.\<close>

lemma walk_finishes:
  assumes "0 < limit" and "ok s" and "length (keyset_rows key after (rows s)) < limit * n"
  shows "snd (walk (list_op limit) after (replicate n s))"
  using assms(3)
proof (induction n arbitrary: after)
  case 0
  then show ?case by simp
next
  case (Suc n)
  let ?R = "keyset_rows key after (rows s)"
  show ?case
  proof (cases "limit < length ?R")
    case False
    then show ?thesis using assms by (simp add: list_op_page list_page_Inr Let_def)
  next
    case True
    then obtain p c where lp: "list_page key limit after (rows s) = Inr (p, Some c)"
      using assms by (simp add: list_page_Inr Let_def)
    then obtain q where q: "?R = p @ q" "p \<noteq> []" "length p = limit" "cursor_key c = key (last p)"
      using assms(1) by (rule list_page_more)
    have strict: "sorted_wrt (<) (map key (p @ q))"
      using assms(2) keys_distinct strict_keyset_rows q(1) by metis
    have "last p \<in> set ?R" using q(1,2) by simp
    then have "past after (key (last p))"
      by (simp only: set_keyset_rows mem_Collect_eq simp_thms)
    have "set (keyset_rows key (Some c) (rows s)) \<subseteq> set q"
    proof
      fix r assume "r \<in> set (keyset_rows key (Some c) (rows s))"
      then have r: "r \<in> set (rows s)" "key (last p) < key r"
        using q(4) by (auto simp: set_keyset_rows)
      then have "r \<in> set (p @ q)"
      proof -
        have "past after (key r)"
          using \<open>past after (key (last p))\<close> r(2) by (cases after) (simp, metis past.simps(2) less_trans)
        with r(1) have "r \<in> set ?R" by (simp only: set_keyset_rows mem_Collect_eq simp_thms)
        then show ?thesis by (simp only: q(1))
      qed
      moreover have "r \<notin> set p"
        using strict r(2) strict_le_last [of key p r] by (auto simp: sorted_wrt_append)
      ultimately show "r \<in> set q" by simp
    qed
    moreover have "distinct (map key (keyset_rows key (Some c) (rows s)))"
      using strict_keyset_rows [OF keys_distinct [OF assms(2)], of "Some c"]
      by (simp add: strict_sorted_iff)
    then have "distinct (keyset_rows key (Some c) (rows s))"
      by (simp add: distinct_map)
    ultimately have "length (keyset_rows key (Some c) (rows s)) \<le> card (set q)"
      by (metis card_mono distinct_card finite_set)
    also have "\<dots> \<le> length q" by (rule card_length)
    finally have "length (keyset_rows key (Some c) (rows s)) \<le> length q" .
    then have "length (keyset_rows key (Some c) (rows s)) < limit * n"
      using Suc.prems q by simp
    then show ?thesis using Suc.IH lp assms(2) by (simp add: list_op_page)
  qed
qed

end

end
