(* ===== verification/Entities.thy ===== *)
theory Entities
  imports Prelude Paging
begin

text \<open>
  The data of the program, with the source's fields: the aggregates of internal/domain
  (entity.go), the inputs, patches, pages and per-item results of their ports (port.go), and the
  row shapes of internal/adapter/postgres with their conversions to the aggregates. A row is what
  a table holds; where the Go row struct leaves out a column that the SQL still uses
  (\<open>deleted_at\<close> of sessions, the bounds of \<open>time_range\<close>), the record has it.
\<close>

section \<open>User\<close>

record user =
  usr_id :: uuid
  usr_subject :: string
  usr_email :: string
  usr_name :: string
  usr_created_at :: time
  usr_updated_at :: time

record claims =
  cl_subject :: string
  cl_email :: string
  cl_name :: string

section \<open>Event\<close>

record event =
  ev_id :: uuid
  ev_name :: string
  ev_description :: "string option"
  ev_timezone :: string
  ev_starts_at :: time
  ev_ends_at :: time
  ev_version :: int
  ev_created_at :: time
  ev_updated_at :: time

record event_create_input =
  eci_name :: string
  eci_description :: "string option"
  eci_timezone :: string
  eci_starts_at :: time
  eci_ends_at :: time

record event_patch =
  ep_name :: "string optional"
  ep_description :: "string option optional"
  ep_timezone :: "string optional"
  ep_starts_at :: "time optional"
  ep_ends_at :: "time optional"

record event_page =
  epg_events :: "event list"
  epg_next_cursor :: "cursor option"

record event_row =
  er_id :: uuid
  er_name :: string
  er_description :: "string option"
  er_timezone :: string
  er_starts_at :: time
  er_ends_at :: time
  er_version :: int
  er_deleted_at :: "time option"
  er_created_at :: time
  er_updated_at :: time

definition toEvent :: "event_row \<Rightarrow> event" where
  "toEvent r = \<lparr>ev_id = er_id r, ev_name = er_name r, ev_description = er_description r,
     ev_timezone = er_timezone r, ev_starts_at = er_starts_at r, ev_ends_at = er_ends_at r,
     ev_version = er_version r, ev_created_at = er_created_at r, ev_updated_at = er_updated_at r\<rparr>"

section \<open>Member\<close>

record member =
  mb_id :: uuid
  mb_event_id :: uuid
  mb_user_id :: uuid
  mb_user_email :: string
  mb_user_name :: string
  mb_role :: string
  mb_version :: int
  mb_created_at :: time
  mb_updated_at :: time

record member_create_input =
  mci_email :: string
  mci_role :: string

record member_page =
  mpg_members :: "member list"
  mpg_next_cursor :: "cursor option"

record event_member_row =
  mr_id :: uuid
  mr_event_id :: uuid
  mr_user_id :: uuid
  mr_role :: string
  mr_version :: int
  mr_created_at :: time
  mr_updated_at :: time

text \<open>\<open>memberRow\<close> of event_repo.go: the membership's JSON without its version.\<close>

record member_row =
  gr_id :: uuid
  gr_event_id :: uuid
  gr_user_id :: uuid
  gr_role :: string
  gr_created_at :: time
  gr_updated_at :: time

definition toMember :: "event_member_row \<Rightarrow> string \<Rightarrow> string \<Rightarrow> member" where
  "toMember r email name = \<lparr>mb_id = mr_id r, mb_event_id = mr_event_id r, mb_user_id = mr_user_id r,
     mb_user_email = email, mb_user_name = name, mb_role = mr_role r, mb_version = mr_version r,
     mb_created_at = mr_created_at r, mb_updated_at = mr_updated_at r\<rparr>"

section \<open>Room\<close>

record room =
  rm_id :: uuid
  rm_event_id :: uuid
  rm_name :: string
  rm_capacity :: "int option"
  rm_version :: int
  rm_created_at :: time
  rm_updated_at :: time

record room_create_input =
  rci_name :: string
  rci_capacity :: "int option"

record room_patch =
  rp_name :: "string optional"
  rp_capacity :: "int option optional"

record room_page =
  rpg_rooms :: "room list"
  rpg_next_cursor :: "cursor option"

record room_row =
  rr_id :: uuid
  rr_event_id :: uuid
  rr_name :: string
  rr_capacity :: "int option"
  rr_version :: int
  rr_created_at :: time
  rr_updated_at :: time

definition toRoom :: "room_row \<Rightarrow> room" where
  "toRoom r = \<lparr>rm_id = rr_id r, rm_event_id = rr_event_id r, rm_name = rr_name r,
     rm_capacity = rr_capacity r, rm_version = rr_version r, rm_created_at = rr_created_at r,
     rm_updated_at = rr_updated_at r\<rparr>"

section \<open>Session\<close>

record session =
  se_id :: uuid
  se_event_id :: uuid
  se_room_id :: uuid
  se_speaker_id :: uuid
  se_title :: string
  se_description :: "string option"
  se_starts_at :: time
  se_ends_at :: time
  se_version :: int
  se_created_at :: time
  se_updated_at :: time
  se_room_name :: string
  se_speaker_name :: string
  se_series_id :: "uuid option"

record session_create_input =
  sci_room_id :: uuid
  sci_speaker_id :: uuid
  sci_title :: string
  sci_description :: "string option"
  sci_starts_at :: time
  sci_ends_at :: time
  sci_series_id :: "uuid option"

record session_patch =
  sp_title :: "string optional"
  sp_description :: "string option optional"
  sp_starts_at :: "time optional"
  sp_ends_at :: "time optional"

record session_page =
  spg_sessions :: "session list"
  spg_next_cursor :: "cursor option"

record session_row =
  sr_id :: uuid
  sr_event_id :: uuid
  sr_room_id :: uuid
  sr_speaker_id :: uuid
  sr_title :: string
  sr_description :: "string option"
  sr_starts_at :: time
  sr_ends_at :: time
  sr_version :: int
  sr_deleted_at :: "time option"
  sr_created_at :: time
  sr_updated_at :: time
  sr_series_id :: "uuid option"

definition toSession :: "session_row \<Rightarrow> session" where
  "toSession r = \<lparr>se_id = sr_id r, se_event_id = sr_event_id r, se_room_id = sr_room_id r,
     se_speaker_id = sr_speaker_id r, se_title = sr_title r, se_description = sr_description r,
     se_starts_at = sr_starts_at r, se_ends_at = sr_ends_at r, se_version = sr_version r,
     se_created_at = sr_created_at r, se_updated_at = sr_updated_at r,
     se_room_name = [], se_speaker_name = [], se_series_id = sr_series_id r\<rparr>"

record series =
  sx_id :: uuid
  sx_event_id :: uuid
  sx_room_id :: uuid
  sx_speaker_id :: uuid
  sx_title :: string
  sx_description :: "string option"
  sx_freq :: string
  sx_interval_count :: int
  sx_occurrences :: int
  sx_created_at :: time

record series_create_input =
  sxi_room_id :: uuid
  sxi_speaker_id :: uuid
  sxi_title :: string
  sxi_description :: "string option"
  sxi_first_starts_at :: time
  sxi_first_ends_at :: time
  sxi_freq :: string
  sxi_interval_count :: int
  sxi_occurrences :: int

record series_occurrence_result =
  sor_starts_at :: time
  sor_status :: string
  sor_session_id :: "uuid option"

text \<open>The session_exceptions row that versionedWrite records for a series occurrence.\<close>

record exception_row =
  xc_id :: uuid
  xc_series_id :: uuid
  xc_session_id :: uuid
  xc_status :: string
  xc_original_starts_at :: time

section \<open>Invitation\<close>

record invitation =
  iv_id :: uuid
  iv_event_id :: uuid
  iv_user_id :: "uuid option"
  iv_email :: string
  iv_role :: string
  iv_created_at :: time
  iv_updated_at :: time

record invitation_create_input =
  ici_email :: string
  ici_role :: string

record invitation_page =
  ipg_invitations :: "invitation list"
  ipg_next_cursor :: "cursor option"

record bulk_item_result =
  bir_email :: string
  bir_status :: string
  bir_invitation_id :: "uuid option"

record bulk_result =
  br_items :: "bulk_item_result list"
  br_replayed :: bool

record invitation_row =
  ir_id :: uuid
  ir_event_id :: uuid
  ir_user_id :: "uuid option"
  ir_email :: string
  ir_role :: string
  ir_created_at :: time
  ir_updated_at :: time

definition toInvitation :: "invitation_row \<Rightarrow> invitation" where
  "toInvitation r = \<lparr>iv_id = ir_id r, iv_event_id = ir_event_id r, iv_user_id = ir_user_id r,
     iv_email = ir_email r, iv_role = ir_role r, iv_created_at = ir_created_at r,
     iv_updated_at = ir_updated_at r\<rparr>"

record idempotency_row =
  ik_id :: uuid
  ik_actor_id :: uuid
  ik_key :: string
  ik_endpoint :: string
  ik_request_hash :: string
  ik_response_status :: int
  ik_response_body :: "bulk_item_result list"

section \<open>Audit log\<close>

datatype snapshot =
    SEvent event_row
  | SGrant member_row
  | SMember event_member_row
  | SRoom room_row
  | SSession session_row
  | SInvitation invitation_row

record audit_row =
  au_id :: uuid
  au_actor_id :: uuid
  au_entity_type :: string
  au_entity_id :: uuid
  au_action :: string
  au_before :: "snapshot option"
  au_after :: "snapshot option"

end
