(* ===== verification/Schema.thy ===== *)
theory Schema
  imports Entities
begin

text \<open>
  The database the repositories write: its tables and what its constraints (migrations/*.up.sql)
  accept. \<open>insert_*\<close>, \<open>replace_*\<close> and \<open>delete_*\<close> are the effect of one SQL
  statement on one row, in the order Postgres checks it: the expressions (an inverted
  \<open>tstzrange\<close> raises), CHECK, UNIQUE and EXCLUDE, then the foreign keys at the end of the
  statement. \<open>db_ok\<close> says that every constraint holds; each statement keeps it.
  \<open>ci\<close> is the case folding of the \<open>citext\<close> extension, which is not part of this
  repository: two e-mail addresses are equal when their foldings are.
\<close>

record db =
  t_users :: "user list"
  t_events :: "event_row list"
  t_members :: "event_member_row list"
  t_rooms :: "room_row list"
  t_sessions :: "session_row list"
  t_series :: "series list"
  t_exceptions :: "exception_row list"
  t_invitations :: "invitation_row list"
  t_audit :: "audit_row list"
  t_idempotency :: "idempotency_row list"

text \<open>
  What Postgres supplies to one transaction: \<open>now()\<close>, constant within the transaction, and
  the values of the \<open>uuidv7()\<close> defaults for the rows it may insert.
\<close>

record txgen =
  g_now :: time
  g_id :: uuid
  g_id2 :: uuid
  g_audit_id :: uuid
  g_audit_id2 :: uuid
  g_exception_id :: uuid

text \<open>\<open>knownRoles\<close> of internal/adapter/authz/policy.go, the values of the role CHECKs.\<close>

definition knownRoles :: "string list" where
  "knownRoles = [''admin'', ''contributor'', ''attendee'']"

abbreviation user_ids :: "db \<Rightarrow> uuid set" where
  "user_ids s \<equiv> usr_id ` set (t_users s)"

abbreviation event_ids :: "db \<Rightarrow> uuid set" where
  "event_ids s \<equiv> er_id ` set (t_events s)"

abbreviation room_ids :: "db \<Rightarrow> uuid set" where
  "room_ids s \<equiv> rr_id ` set (t_rooms s)"

abbreviation session_ids :: "db \<Rightarrow> uuid set" where
  "session_ids s \<equiv> sr_id ` set (t_sessions s)"

abbreviation series_ids :: "db \<Rightarrow> uuid set" where
  "series_ids s \<equiv> sx_id ` set (t_series s)"

section \<open>Booking conflicts\<close>

text \<open>\<open>&&\<close> on two half-open, non-empty ranges.\<close>

definition ranges_overlap :: "time \<Rightarrow> time \<Rightarrow> time \<Rightarrow> time \<Rightarrow> bool" where
  "ranges_overlap a b c d = (a < d \<and> c < b)"

definition overlaps :: "session_row \<Rightarrow> session_row \<Rightarrow> bool" where
  "overlaps x y = ranges_overlap (sr_starts_at x) (sr_ends_at x) (sr_starts_at y) (sr_ends_at y)"

definition live :: "session_row \<Rightarrow> bool" where
  "live x = (sr_deleted_at x = None)"

definition excluded_by :: "(session_row \<Rightarrow> uuid) \<Rightarrow> session_row \<Rightarrow> session_row list \<Rightarrow> bool" where
  "excluded_by res r ss = (live r \<and>
     (\<exists>x \<in> set ss. sr_id x \<noteq> sr_id r \<and> live x \<and> res x = res r \<and> overlaps x r))"

definition no_double_booking :: "(session_row \<Rightarrow> uuid) \<Rightarrow> session_row list \<Rightarrow> bool" where
  "no_double_booking res ss = (\<forall>x \<in> set ss. \<forall>y \<in> set ss.
     live x \<and> live y \<and> sr_id x \<noteq> sr_id y \<and> res x = res y \<longrightarrow> \<not> overlaps x y)"

lemma overlaps_sym: "overlaps x y = overlaps y x"
  by (auto simp: overlaps_def ranges_overlap_def)

lemma no_double_booking_snoc:
  "no_double_booking res ss \<Longrightarrow> \<not> excluded_by res r ss \<Longrightarrow> no_double_booking res (ss @ [r])"
  unfolding no_double_booking_def excluded_by_def by (auto simp: overlaps_sym)

lemma no_double_booking_put:
  "no_double_booking res ss \<Longrightarrow> \<not> excluded_by res r ss \<Longrightarrow> no_double_booking res (put_row sr_id r ss)"
  unfolding no_double_booking_def excluded_by_def put_row_def
  by (auto simp: overlaps_sym split: if_splits)

section \<open>Statements\<close>

definition insert_user :: "(string \<Rightarrow> string) \<Rightarrow> user \<Rightarrow> db \<Rightarrow> pg_error + db" where
  "insert_user ci u s =
     (if usr_id u \<in> user_ids s then Inl (UniqueViolation ''users_pkey'')
      else if usr_subject u \<in> usr_subject ` set (t_users s) then Inl (UniqueViolation ''users_subject_key'')
      else if ci (usr_email u) \<in> (ci \<circ> usr_email) ` set (t_users s) then Inl (UniqueViolation ''users_email_key'')
      else Inr (s\<lparr>t_users := t_users s @ [u]\<rparr>))"

definition event_check :: "event_row \<Rightarrow> bool" where
  "event_check e = (er_starts_at e < er_ends_at e)"

definition insert_event :: "event_row \<Rightarrow> db \<Rightarrow> pg_error + db" where
  "insert_event e s =
     (if \<not> event_check e then Inl (CheckViolation ''events_ends_after_starts_check'')
      else if er_id e \<in> event_ids s then Inl (UniqueViolation ''events_pkey'')
      else Inr (s\<lparr>t_events := t_events s @ [e]\<rparr>))"

definition replace_event :: "event_row \<Rightarrow> db \<Rightarrow> pg_error + db" where
  "replace_event e s =
     (if \<not> event_check e then Inl (CheckViolation ''events_ends_after_starts_check'')
      else Inr (s\<lparr>t_events := put_row er_id e (t_events s)\<rparr>))"

definition insert_member :: "event_member_row \<Rightarrow> db \<Rightarrow> pg_error + db" where
  "insert_member m s =
     (if mr_role m \<notin> set knownRoles then Inl (CheckViolation ''event_members_role_check'')
      else if mr_id m \<in> mr_id ` set (t_members s) then Inl (UniqueViolation ''event_members_pkey'')
      else if (mr_event_id m, mr_user_id m) \<in> (\<lambda>x. (mr_event_id x, mr_user_id x)) ` set (t_members s)
        then Inl (UniqueViolation ''event_members_event_id_user_id_key'')
      else if mr_event_id m \<notin> event_ids s then Inl (ForeignKeyViolation ''event_members_event_id_fkey'')
      else if mr_user_id m \<notin> user_ids s then Inl (ForeignKeyViolation ''event_members_user_id_fkey'')
      else Inr (s\<lparr>t_members := t_members s @ [m]\<rparr>))"

definition replace_member :: "event_member_row \<Rightarrow> db \<Rightarrow> pg_error + db" where
  "replace_member m s =
     (if mr_role m \<notin> set knownRoles then Inl (CheckViolation ''event_members_role_check'')
      else Inr (s\<lparr>t_members := put_row mr_id m (t_members s)\<rparr>))"

definition delete_member :: "uuid \<Rightarrow> db \<Rightarrow> pg_error + db" where
  "delete_member k s = Inr (s\<lparr>t_members := drop_row mr_id k (t_members s)\<rparr>)"

definition room_check :: "room_row \<Rightarrow> bool" where
  "room_check r = (case rr_capacity r of None \<Rightarrow> True | Some c \<Rightarrow> 0 < c)"

definition room_name_taken :: "room_row \<Rightarrow> room_row list \<Rightarrow> bool" where
  "room_name_taken r rs = (\<exists>x \<in> set rs. rr_id x \<noteq> rr_id r \<and>
     rr_event_id x = rr_event_id r \<and> rr_name x = rr_name r)"

definition insert_room :: "room_row \<Rightarrow> db \<Rightarrow> pg_error + db" where
  "insert_room r s =
     (if \<not> int4_opt (rr_capacity r) then Inl (DataException ''integer out of range'')
      else if \<not> room_check r then Inl (CheckViolation ''rooms_capacity_check'')
      else if rr_id r \<in> room_ids s then Inl (UniqueViolation ''rooms_pkey'')
      else if room_name_taken r (t_rooms s) then Inl (UniqueViolation ''rooms_event_id_name_key'')
      else if rr_event_id r \<notin> event_ids s then Inl (ForeignKeyViolation ''rooms_event_id_fkey'')
      else Inr (s\<lparr>t_rooms := t_rooms s @ [r]\<rparr>))"

definition replace_room :: "room_row \<Rightarrow> db \<Rightarrow> pg_error + db" where
  "replace_room r s =
     (if \<not> int4_opt (rr_capacity r) then Inl (DataException ''integer out of range'')
      else if \<not> room_check r then Inl (CheckViolation ''rooms_capacity_check'')
      else if room_name_taken r (t_rooms s) then Inl (UniqueViolation ''rooms_event_id_name_key'')
      else Inr (s\<lparr>t_rooms := put_row rr_id r (t_rooms s)\<rparr>))"

definition delete_room :: "uuid \<Rightarrow> db \<Rightarrow> pg_error + db" where
  "delete_room k s =
     (if k \<in> sr_room_id ` set (t_sessions s) then Inl (ForeignKeyViolation ''sessions_room_id_fkey'')
      else if k \<in> sx_room_id ` set (t_series s) then Inl (ForeignKeyViolation ''session_series_room_id_fkey'')
      else Inr (s\<lparr>t_rooms := drop_row rr_id k (t_rooms s)\<rparr>))"

text \<open>\<open>tstzrange(starts, ends, '[)')\<close> and the bounded, non-empty CHECK on it.\<close>

definition range_error :: "session_row \<Rightarrow> pg_error option" where
  "range_error r =
     (if sr_ends_at r < sr_starts_at r then Some (DataException ''range lower bound must be less than or equal to range upper bound'')
      else if sr_starts_at r = sr_ends_at r then Some (CheckViolation ''sessions_time_range_bounded_check'')
      else None)"

definition insert_session :: "session_row \<Rightarrow> db \<Rightarrow> pg_error + db" where
  "insert_session r s =
     (case range_error r of
        Some e \<Rightarrow> Inl e
      | None \<Rightarrow>
          if sr_id r \<in> session_ids s then Inl (UniqueViolation ''sessions_pkey'')
          else if excluded_by sr_room_id r (t_sessions s) then Inl (ExclusionViolation ''sessions_room_no_overlap_excl'')
          else if excluded_by sr_speaker_id r (t_sessions s) then Inl (ExclusionViolation ''sessions_speaker_no_overlap_excl'')
          else if sr_event_id r \<notin> event_ids s then Inl (ForeignKeyViolation ''sessions_event_id_fkey'')
          else if sr_room_id r \<notin> room_ids s then Inl (ForeignKeyViolation ''sessions_room_id_fkey'')
          else if sr_speaker_id r \<notin> user_ids s then Inl (ForeignKeyViolation ''sessions_speaker_id_fkey'')
          else if \<not> set_option (sr_series_id r) \<subseteq> series_ids s then Inl (ForeignKeyViolation ''sessions_series_id_fkey'')
          else Inr (s\<lparr>t_sessions := t_sessions s @ [r]\<rparr>))"

definition replace_session :: "session_row \<Rightarrow> db \<Rightarrow> pg_error + db" where
  "replace_session r s =
     (case range_error r of
        Some e \<Rightarrow> Inl e
      | None \<Rightarrow>
          if excluded_by sr_room_id r (t_sessions s) then Inl (ExclusionViolation ''sessions_room_no_overlap_excl'')
          else if excluded_by sr_speaker_id r (t_sessions s) then Inl (ExclusionViolation ''sessions_speaker_no_overlap_excl'')
          else Inr (s\<lparr>t_sessions := put_row sr_id r (t_sessions s)\<rparr>))"

definition insert_series :: "series \<Rightarrow> db \<Rightarrow> pg_error + db" where
  "insert_series x s =
     (if \<not> int4 (sx_interval_count x) \<or> \<not> int4 (sx_occurrences x) then Inl (DataException ''integer out of range'')
      else if sx_freq x \<noteq> ''daily'' \<and> sx_freq x \<noteq> ''weekly'' then Inl (CheckViolation ''session_series_freq_check'')
      else if sx_interval_count x \<le> 0 then Inl (CheckViolation ''session_series_interval_check'')
      else if sx_occurrences x < 1 \<or> 52 < sx_occurrences x then Inl (CheckViolation ''session_series_occurrences_check'')
      else if sx_id x \<in> series_ids s then Inl (UniqueViolation ''session_series_pkey'')
      else if sx_event_id x \<notin> event_ids s then Inl (ForeignKeyViolation ''session_series_event_id_fkey'')
      else if sx_room_id x \<notin> room_ids s then Inl (ForeignKeyViolation ''session_series_room_id_fkey'')
      else if sx_speaker_id x \<notin> user_ids s then Inl (ForeignKeyViolation ''session_series_speaker_id_fkey'')
      else Inr (s\<lparr>t_series := t_series s @ [x]\<rparr>))"

definition insert_exception :: "exception_row \<Rightarrow> db \<Rightarrow> pg_error + db" where
  "insert_exception x s =
     (if xc_status x \<noteq> ''modified'' \<and> xc_status x \<noteq> ''cancelled'' then Inl (CheckViolation ''session_exceptions_status_check'')
      else if xc_id x \<in> xc_id ` set (t_exceptions s) then Inl (UniqueViolation ''session_exceptions_pkey'')
      else if xc_series_id x \<notin> series_ids s then Inl (ForeignKeyViolation ''session_exceptions_series_id_fkey'')
      else if xc_session_id x \<notin> session_ids s then Inl (ForeignKeyViolation ''session_exceptions_session_id_fkey'')
      else Inr (s\<lparr>t_exceptions := t_exceptions s @ [x]\<rparr>))"

definition insert_invitation :: "(string \<Rightarrow> string) \<Rightarrow> invitation_row \<Rightarrow> db \<Rightarrow> pg_error + db" where
  "insert_invitation ci i s =
     (if ir_role i \<notin> set knownRoles then Inl (CheckViolation ''invitations_role_check'')
      else if ir_id i \<in> ir_id ` set (t_invitations s) then Inl (UniqueViolation ''invitations_pkey'')
      else if (ir_event_id i, ci (ir_email i)) \<in> (\<lambda>x. (ir_event_id x, ci (ir_email x))) ` set (t_invitations s)
        then Inl (UniqueViolation ''invitations_event_id_email_key'')
      else if ir_event_id i \<notin> event_ids s then Inl (ForeignKeyViolation ''invitations_event_id_fkey'')
      else if \<not> set_option (ir_user_id i) \<subseteq> user_ids s then Inl (ForeignKeyViolation ''invitations_user_id_fkey'')
      else Inr (s\<lparr>t_invitations := t_invitations s @ [i]\<rparr>))"

definition insert_audit :: "audit_row \<Rightarrow> db \<Rightarrow> pg_error + db" where
  "insert_audit a s =
     (if au_id a \<in> au_id ` set (t_audit s) then Inl (UniqueViolation ''audit_log_pkey'')
      else if au_actor_id a \<notin> user_ids s then Inl (ForeignKeyViolation ''audit_log_actor_id_fkey'')
      else Inr (s\<lparr>t_audit := t_audit s @ [a]\<rparr>))"

text \<open>\<open>INSERT .. ON CONFLICT (actor_id, key) DO NOTHING RETURNING id\<close>: \<open>False\<close> when nothing was inserted.\<close>

definition insert_idempotency :: "idempotency_row \<Rightarrow> db \<Rightarrow> pg_error + (bool \<times> db)" where
  "insert_idempotency k s =
     (if (ik_actor_id k, ik_key k) \<in> (\<lambda>x. (ik_actor_id x, ik_key x)) ` set (t_idempotency s) then Inr (False, s)
      else if ik_id k \<in> ik_id ` set (t_idempotency s) then Inl (UniqueViolation ''idempotency_keys_pkey'')
      else if ik_actor_id k \<notin> user_ids s then Inl (ForeignKeyViolation ''idempotency_keys_actor_id_fkey'')
      else Inr (True, s\<lparr>t_idempotency := t_idempotency s @ [k]\<rparr>))"

end
