(* ===== verification/Db_Inv.thy ===== *)
theory Db_Inv
  imports Schema
begin

text \<open>
  \<open>db_ok\<close>: every constraint of the migrations holds of the tables. One inversion lemma per
  statement (what a success did and what it checked) and one preservation lemma. The repository
  theories chain these; they never unfold a statement themselves.
\<close>

section \<open>The invariant\<close>

text \<open>
  One predicate per table. \<open>U\<close>, \<open>E\<close>, \<open>R\<close>, \<open>X\<close> and \<open>S\<close> are the ids of the
  users, events, rooms, series and sessions that its foreign keys may name.
\<close>

definition users_ok :: "(string \<Rightarrow> string) \<Rightarrow> user list \<Rightarrow> bool" where
  "users_ok ci us = (distinct (map usr_id us) \<and> distinct (map usr_subject us) \<and>
     distinct (map (ci \<circ> usr_email) us))"

definition events_ok :: "event_row list \<Rightarrow> bool" where
  "events_ok es = (distinct (map er_id es) \<and> (\<forall>e \<in> set es. event_check e))"

definition members_ok :: "uuid set \<Rightarrow> uuid set \<Rightarrow> event_member_row list \<Rightarrow> bool" where
  "members_ok U E ms = (distinct (map mr_id ms) \<and> distinct (map (\<lambda>m. (mr_event_id m, mr_user_id m)) ms) \<and>
     (\<forall>m \<in> set ms. mr_role m \<in> set knownRoles \<and> mr_event_id m \<in> E \<and> mr_user_id m \<in> U))"

definition rooms_ok :: "uuid set \<Rightarrow> room_row list \<Rightarrow> bool" where
  "rooms_ok E rs = (distinct (map rr_id rs) \<and>
     (\<forall>r \<in> set rs. room_check r \<and> \<not> room_name_taken r rs \<and> rr_event_id r \<in> E))"

definition session_refs_ok :: "uuid set \<Rightarrow> uuid set \<Rightarrow> uuid set \<Rightarrow> uuid set \<Rightarrow> session_row \<Rightarrow> bool" where
  "session_refs_ok U E R X r = (sr_starts_at r < sr_ends_at r \<and> sr_event_id r \<in> E \<and> sr_room_id r \<in> R \<and>
     sr_speaker_id r \<in> U \<and> set_option (sr_series_id r) \<subseteq> X)"

definition sessions_ok :: "uuid set \<Rightarrow> uuid set \<Rightarrow> uuid set \<Rightarrow> uuid set \<Rightarrow> session_row list \<Rightarrow> bool" where
  "sessions_ok U E R X ss = (distinct (map sr_id ss) \<and>
     no_double_booking sr_room_id ss \<and> no_double_booking sr_speaker_id ss \<and>
     (\<forall>r \<in> set ss. session_refs_ok U E R X r))"

definition series_ok :: "uuid set \<Rightarrow> uuid set \<Rightarrow> uuid set \<Rightarrow> series list \<Rightarrow> bool" where
  "series_ok U E R xs = (distinct (map sx_id xs) \<and>
     (\<forall>x \<in> set xs. 0 < sx_interval_count x \<and> 1 \<le> sx_occurrences x \<and> sx_occurrences x \<le> 52 \<and>
        sx_event_id x \<in> E \<and> sx_room_id x \<in> R \<and> sx_speaker_id x \<in> U))"

definition exceptions_ok :: "uuid set \<Rightarrow> uuid set \<Rightarrow> exception_row list \<Rightarrow> bool" where
  "exceptions_ok X S cs = (distinct (map xc_id cs) \<and> (\<forall>c \<in> set cs. xc_series_id c \<in> X \<and> xc_session_id c \<in> S))"

definition invitations_ok :: "(string \<Rightarrow> string) \<Rightarrow> uuid set \<Rightarrow> uuid set \<Rightarrow> invitation_row list \<Rightarrow> bool" where
  "invitations_ok ci U E is = (distinct (map ir_id is) \<and>
     distinct (map (\<lambda>i. (ir_event_id i, ci (ir_email i))) is) \<and>
     (\<forall>i \<in> set is. ir_role i \<in> set knownRoles \<and> ir_event_id i \<in> E \<and> set_option (ir_user_id i) \<subseteq> U))"

definition audit_ok :: "uuid set \<Rightarrow> audit_row list \<Rightarrow> bool" where
  "audit_ok U as = (distinct (map au_id as) \<and> (\<forall>a \<in> set as. au_actor_id a \<in> U))"

definition idempotency_ok :: "uuid set \<Rightarrow> idempotency_row list \<Rightarrow> bool" where
  "idempotency_ok U ks = (distinct (map ik_id ks) \<and> distinct (map (\<lambda>k. (ik_actor_id k, ik_key k)) ks) \<and>
     (\<forall>k \<in> set ks. ik_actor_id k \<in> U))"

definition db_ok :: "(string \<Rightarrow> string) \<Rightarrow> db \<Rightarrow> bool" where
  "db_ok ci s = (users_ok ci (t_users s) \<and> events_ok (t_events s) \<and>
     members_ok (user_ids s) (event_ids s) (t_members s) \<and>
     rooms_ok (event_ids s) (t_rooms s) \<and>
     sessions_ok (user_ids s) (event_ids s) (room_ids s) (series_ids s) (t_sessions s) \<and>
     series_ok (user_ids s) (event_ids s) (room_ids s) (t_series s) \<and>
     exceptions_ok (series_ids s) (session_ids s) (t_exceptions s) \<and>
     invitations_ok ci (user_ids s) (event_ids s) (t_invitations s) \<and>
     audit_ok (user_ids s) (t_audit s) \<and> idempotency_ok (user_ids s) (t_idempotency s))"

lemmas ok_defs = users_ok_def events_ok_def members_ok_def rooms_ok_def sessions_ok_def
  session_refs_ok_def series_ok_def exceptions_ok_def invitations_ok_def audit_ok_def idempotency_ok_def

lemma db_okD:
  assumes "db_ok ci s"
  shows "users_ok ci (t_users s)" "events_ok (t_events s)"
    "members_ok (user_ids s) (event_ids s) (t_members s)" "rooms_ok (event_ids s) (t_rooms s)"
    "sessions_ok (user_ids s) (event_ids s) (room_ids s) (series_ids s) (t_sessions s)"
    "series_ok (user_ids s) (event_ids s) (room_ids s) (t_series s)"
    "exceptions_ok (series_ids s) (session_ids s) (t_exceptions s)"
    "invitations_ok ci (user_ids s) (event_ids s) (t_invitations s)"
    "audit_ok (user_ids s) (t_audit s)" "idempotency_ok (user_ids s) (t_idempotency s)"
  using assms by (simp_all add: db_ok_def)

definition empty_db :: db where
  "empty_db = \<lparr>t_users = [], t_events = [], t_members = [], t_rooms = [], t_sessions = [],
     t_series = [], t_exceptions = [], t_invitations = [], t_audit = [], t_idempotency = []\<rparr>"

lemma db_ok_empty: "db_ok ci empty_db"
  by (simp add: db_ok_def ok_defs empty_db_def no_double_booking_def)

section \<open>Inversion: what a successful statement did\<close>

lemma insert_user_Inr:
  "insert_user ci u s = Inr s' \<longleftrightarrow> s' = s\<lparr>t_users := t_users s @ [u]\<rparr> \<and> usr_id u \<notin> user_ids s \<and>
     usr_subject u \<notin> usr_subject ` set (t_users s) \<and> ci (usr_email u) \<notin> (ci \<circ> usr_email) ` set (t_users s)"
  by (auto simp: insert_user_def)

lemma insert_event_Inr:
  "insert_event e s = Inr s' \<longleftrightarrow> s' = s\<lparr>t_events := t_events s @ [e]\<rparr> \<and> event_check e \<and> er_id e \<notin> event_ids s"
  by (auto simp: insert_event_def)

lemma replace_event_Inr:
  "replace_event e s = Inr s' \<longleftrightarrow> s' = s\<lparr>t_events := put_row er_id e (t_events s)\<rparr> \<and> event_check e"
  by (auto simp: replace_event_def)

lemma insert_member_Inr:
  "insert_member m s = Inr s' \<longleftrightarrow> s' = s\<lparr>t_members := t_members s @ [m]\<rparr> \<and> mr_role m \<in> set knownRoles \<and>
     mr_id m \<notin> mr_id ` set (t_members s) \<and>
     (mr_event_id m, mr_user_id m) \<notin> (\<lambda>x. (mr_event_id x, mr_user_id x)) ` set (t_members s) \<and>
     mr_event_id m \<in> event_ids s \<and> mr_user_id m \<in> user_ids s"
  by (auto simp: insert_member_def)

lemma replace_member_Inr:
  "replace_member m s = Inr s' \<longleftrightarrow> s' = s\<lparr>t_members := put_row mr_id m (t_members s)\<rparr> \<and> mr_role m \<in> set knownRoles"
  by (auto simp: replace_member_def)

lemma insert_room_Inr:
  "insert_room r s = Inr s' \<longleftrightarrow> s' = s\<lparr>t_rooms := t_rooms s @ [r]\<rparr> \<and> int4_opt (rr_capacity r) \<and> room_check r \<and> rr_id r \<notin> room_ids s \<and>
     \<not> room_name_taken r (t_rooms s) \<and> rr_event_id r \<in> event_ids s"
  by (auto simp: insert_room_def)

lemma replace_room_Inr:
  "replace_room r s = Inr s' \<longleftrightarrow> s' = s\<lparr>t_rooms := put_row rr_id r (t_rooms s)\<rparr> \<and> int4_opt (rr_capacity r) \<and> room_check r \<and>
     \<not> room_name_taken r (t_rooms s)"
  by (auto simp: replace_room_def)

lemma delete_room_Inr:
  "delete_room k s = Inr s' \<longleftrightarrow> s' = s\<lparr>t_rooms := drop_row rr_id k (t_rooms s)\<rparr> \<and>
     k \<notin> sr_room_id ` set (t_sessions s) \<and> k \<notin> sx_room_id ` set (t_series s)"
  by (auto simp: delete_room_def)

lemma range_error_None [simp]: "range_error r = None \<longleftrightarrow> sr_starts_at r < sr_ends_at r"
  by (auto simp: range_error_def)

lemma insert_session_Inr:
  "insert_session r s = Inr s' \<longleftrightarrow> s' = s\<lparr>t_sessions := t_sessions s @ [r]\<rparr> \<and>
     sr_starts_at r < sr_ends_at r \<and> sr_id r \<notin> session_ids s \<and>
     \<not> excluded_by sr_room_id r (t_sessions s) \<and> \<not> excluded_by sr_speaker_id r (t_sessions s) \<and>
     sr_event_id r \<in> event_ids s \<and> sr_room_id r \<in> room_ids s \<and> sr_speaker_id r \<in> user_ids s \<and>
     set_option (sr_series_id r) \<subseteq> series_ids s"
  unfolding insert_session_def
  by (cases "range_error r") (auto simp flip: range_error_None)

lemma replace_session_Inr:
  "replace_session r s = Inr s' \<longleftrightarrow> s' = s\<lparr>t_sessions := put_row sr_id r (t_sessions s)\<rparr> \<and>
     sr_starts_at r < sr_ends_at r \<and>
     \<not> excluded_by sr_room_id r (t_sessions s) \<and> \<not> excluded_by sr_speaker_id r (t_sessions s)"
  unfolding replace_session_def
  by (cases "range_error r") (auto simp flip: range_error_None)

lemma insert_series_Inr:
  "insert_series x s = Inr s' \<longleftrightarrow> s' = s\<lparr>t_series := t_series s @ [x]\<rparr> \<and> int4 (sx_interval_count x) \<and> int4 (sx_occurrences x) \<and>
     sx_freq x \<in> {''daily'', ''weekly''} \<and> 0 < sx_interval_count x \<and> 1 \<le> sx_occurrences x \<and>
     sx_occurrences x \<le> 52 \<and> sx_id x \<notin> series_ids s \<and> sx_event_id x \<in> event_ids s \<and>
     sx_room_id x \<in> room_ids s \<and> sx_speaker_id x \<in> user_ids s"
  by (auto simp: insert_series_def)

lemma insert_exception_Inr:
  "insert_exception x s = Inr s' \<longleftrightarrow> s' = s\<lparr>t_exceptions := t_exceptions s @ [x]\<rparr> \<and>
     xc_status x \<in> {''modified'', ''cancelled''} \<and> xc_id x \<notin> xc_id ` set (t_exceptions s) \<and>
     xc_series_id x \<in> series_ids s \<and> xc_session_id x \<in> session_ids s"
  by (auto simp: insert_exception_def)

lemma insert_invitation_Inr:
  "insert_invitation ci i s = Inr s' \<longleftrightarrow> s' = s\<lparr>t_invitations := t_invitations s @ [i]\<rparr> \<and>
     ir_role i \<in> set knownRoles \<and> ir_id i \<notin> ir_id ` set (t_invitations s) \<and>
     (ir_event_id i, ci (ir_email i)) \<notin> (\<lambda>x. (ir_event_id x, ci (ir_email x))) ` set (t_invitations s) \<and>
     ir_event_id i \<in> event_ids s \<and> set_option (ir_user_id i) \<subseteq> user_ids s"
  by (auto simp: insert_invitation_def)

lemma insert_audit_Inr:
  "insert_audit a s = Inr s' \<longleftrightarrow> s' = s\<lparr>t_audit := t_audit s @ [a]\<rparr> \<and> au_id a \<notin> au_id ` set (t_audit s) \<and>
     au_actor_id a \<in> user_ids s"
  by (auto simp: insert_audit_def)

lemma insert_idempotency_Inr:
  "insert_idempotency k s = Inr (b, s') \<longleftrightarrow>
     (if (ik_actor_id k, ik_key k) \<in> (\<lambda>x. (ik_actor_id x, ik_key x)) ` set (t_idempotency s)
      then \<not> b \<and> s' = s
      else b \<and> s' = s\<lparr>t_idempotency := t_idempotency s @ [k]\<rparr> \<and>
        ik_id k \<notin> ik_id ` set (t_idempotency s) \<and> ik_actor_id k \<in> user_ids s)"
  by (auto simp: insert_idempotency_def)

lemmas stmt_Inr = insert_user_Inr insert_event_Inr replace_event_Inr insert_member_Inr
  replace_member_Inr insert_room_Inr replace_room_Inr delete_room_Inr insert_session_Inr
  replace_session_Inr insert_series_Inr insert_exception_Inr insert_invitation_Inr insert_audit_Inr

section \<open>Preservation\<close>

text \<open>More rows to refer to never break a table.\<close>

lemma members_ok_mono: "members_ok U E ms \<Longrightarrow> U \<subseteq> U' \<Longrightarrow> E \<subseteq> E' \<Longrightarrow> members_ok U' E' ms"
  by (auto simp: members_ok_def)

lemma rooms_ok_mono: "rooms_ok E rs \<Longrightarrow> E \<subseteq> E' \<Longrightarrow> rooms_ok E' rs"
  by (auto simp: rooms_ok_def)

lemma session_refs_ok_mono:
  "session_refs_ok U E R X r \<Longrightarrow> U \<subseteq> U' \<Longrightarrow> E \<subseteq> E' \<Longrightarrow> R \<subseteq> R' \<Longrightarrow> X \<subseteq> X' \<Longrightarrow> session_refs_ok U' E' R' X' r"
  by (auto simp: session_refs_ok_def)

lemma sessions_ok_mono:
  "sessions_ok U E R X ss \<Longrightarrow> U \<subseteq> U' \<Longrightarrow> E \<subseteq> E' \<Longrightarrow> R \<subseteq> R' \<Longrightarrow> X \<subseteq> X' \<Longrightarrow> sessions_ok U' E' R' X' ss"
  by (auto simp: sessions_ok_def intro: session_refs_ok_mono)

lemma series_ok_mono:
  "series_ok U E R xs \<Longrightarrow> U \<subseteq> U' \<Longrightarrow> E \<subseteq> E' \<Longrightarrow> R \<subseteq> R' \<Longrightarrow> series_ok U' E' R' xs"
  by (auto simp: series_ok_def)

lemma exceptions_ok_mono: "exceptions_ok X S cs \<Longrightarrow> X \<subseteq> X' \<Longrightarrow> S \<subseteq> S' \<Longrightarrow> exceptions_ok X' S' cs"
  by (auto simp: exceptions_ok_def)

lemma invitations_ok_mono:
  "invitations_ok ci U E is \<Longrightarrow> U \<subseteq> U' \<Longrightarrow> E \<subseteq> E' \<Longrightarrow> invitations_ok ci U' E' is"
  by (auto simp: invitations_ok_def)

lemma audit_ok_mono: "audit_ok U as \<Longrightarrow> U \<subseteq> U' \<Longrightarrow> audit_ok U' as"
  by (auto simp: audit_ok_def)

lemma idempotency_ok_mono: "idempotency_ok U ks \<Longrightarrow> U \<subseteq> U' \<Longrightarrow> idempotency_ok U' ks"
  by (auto simp: idempotency_ok_def)

lemmas ok_insert =
  members_ok_mono [OF _ subset_insertI subset_refl]
  members_ok_mono [OF _ subset_refl subset_insertI]
  rooms_ok_mono [OF _ subset_insertI]
  sessions_ok_mono [OF _ subset_insertI subset_refl subset_refl subset_refl]
  sessions_ok_mono [OF _ subset_refl subset_insertI subset_refl subset_refl]
  sessions_ok_mono [OF _ subset_refl subset_refl subset_insertI subset_refl]
  sessions_ok_mono [OF _ subset_refl subset_refl subset_refl subset_insertI]
  series_ok_mono [OF _ subset_insertI subset_refl subset_refl]
  series_ok_mono [OF _ subset_refl subset_insertI subset_refl]
  series_ok_mono [OF _ subset_refl subset_refl subset_insertI]
  exceptions_ok_mono [OF _ subset_insertI subset_refl]
  exceptions_ok_mono [OF _ subset_refl subset_insertI]
  invitations_ok_mono [OF _ subset_insertI subset_refl]
  invitations_ok_mono [OF _ subset_refl subset_insertI]
  audit_ok_mono [OF _ subset_insertI]
  idempotency_ok_mono [OF _ subset_insertI]

lemma key_put_row: "key ` set (put_row key r rs) = key ` set rs"
  by (metis list.set_map map_key_put_row)

lemma put_row_all: "\<forall>x \<in> set rs. P x \<Longrightarrow> P r \<Longrightarrow> \<forall>x \<in> set (put_row key r rs). P x"
  by (auto simp: put_row_def)

lemma insert_user_ok: "db_ok ci s \<Longrightarrow> insert_user ci u s = Inr s' \<Longrightarrow> db_ok ci s'"
  unfolding insert_user_Inr db_ok_def users_ok_def by (auto intro: ok_insert)

lemma insert_event_ok: "db_ok ci s \<Longrightarrow> insert_event e s = Inr s' \<Longrightarrow> db_ok ci s'"
  unfolding insert_event_Inr db_ok_def events_ok_def by (auto intro: ok_insert)

lemma replace_event_ok: "db_ok ci s \<Longrightarrow> replace_event e s = Inr s' \<Longrightarrow> db_ok ci s'"
  unfolding replace_event_Inr db_ok_def events_ok_def
  by (auto simp: key_put_row dest: subsetD [OF set_put_row_subset])

lemma insert_member_ok: "db_ok ci s \<Longrightarrow> insert_member m s = Inr s' \<Longrightarrow> db_ok ci s'"
  unfolding insert_member_Inr db_ok_def members_ok_def by simp

lemma replace_member_ok:
  assumes ok: "db_ok ci s" and r: "replace_member m s = Inr s'"
    and old: "lookup_row mr_id (mr_id m) (t_members s) = Some m0"
    and same: "mr_event_id m = mr_event_id m0" "mr_user_id m = mr_user_id m0"
  shows "db_ok ci s'"
proof -
  let ?k = "\<lambda>x. (mr_event_id x, mr_user_id x)"
  have m0: "m0 \<in> set (t_members s)" using lookup_row_Some [OF old] by simp
  have "x = m0" if "x \<in> set (t_members s)" "mr_id x = mr_id m" for x
    using lookup_row_in [of mr_id "t_members s" x] that old db_okD(3) [OF ok] by (simp add: members_ok_def)
  then have "map ?k (put_row mr_id m (t_members s)) = map ?k (t_members s)"
    using same by (auto simp: put_row_def)
  moreover have "\<forall>x \<in> set (put_row mr_id m (t_members s)). mr_role x \<in> set knownRoles \<and>
      mr_event_id x \<in> event_ids s \<and> mr_user_id x \<in> user_ids s"
    using db_okD(3) [OF ok] r m0 same
    by (intro put_row_all) (simp_all add: members_ok_def replace_member_Inr)
  ultimately have "members_ok (user_ids s) (event_ids s) (put_row mr_id m (t_members s))"
    using db_okD(3) [OF ok] by (simp add: members_ok_def)
  then show ?thesis using ok r by (simp add: replace_member_Inr db_ok_def)
qed

lemma delete_member_ok: "db_ok ci s \<Longrightarrow> delete_member k s = Inr s' \<Longrightarrow> db_ok ci s'"
  unfolding delete_member_def db_ok_def members_ok_def
  by (auto simp: drop_row_def distinct_map_filter)

lemma insert_room_ok: "db_ok ci s \<Longrightarrow> insert_room r s = Inr s' \<Longrightarrow> db_ok ci s'"
  unfolding insert_room_Inr db_ok_def rooms_ok_def
  by (auto simp: room_name_taken_def intro: ok_insert)

lemma replace_room_ok:
  assumes ok: "db_ok ci s" and r: "replace_room r s = Inr s'" and ev: "rr_event_id r \<in> event_ids s"
  shows "db_ok ci s'"
proof -
  have "\<not> room_name_taken x (put_row rr_id r (t_rooms s))"
    if "x \<in> set (put_row rr_id r (t_rooms s))" for x
    using that db_okD(4) [OF ok] r
    unfolding replace_room_Inr rooms_ok_def room_name_taken_def put_row_def
    by (auto split: if_splits)
  then have "rooms_ok (event_ids s) (put_row rr_id r (t_rooms s))"
    using db_okD(4) [OF ok] r ev unfolding rooms_ok_def replace_room_Inr
    by (auto dest: subsetD [OF set_put_row_subset])
  then show ?thesis using ok r by (simp add: replace_room_Inr db_ok_def key_put_row)
qed

lemma delete_room_ok:
  assumes ok: "db_ok ci s" and d: "delete_room k s = Inr s'"
  shows "db_ok ci s'"
proof -
  let ?rs = "drop_row rr_id k (t_rooms s)"
  have s': "s' = s\<lparr>t_rooms := ?rs\<rparr>"
    and free: "k \<notin> sr_room_id ` set (t_sessions s)" "k \<notin> sx_room_id ` set (t_series s)"
    using d by (simp_all add: delete_room_Inr)
  have ids: "rr_id ` set ?rs = room_ids s - {k}" by auto
  have "rooms_ok (event_ids s) ?rs"
    using db_okD(4) [OF ok] by (simp add: rooms_ok_def distinct_drop_row room_name_taken_def)
  moreover have "sessions_ok (user_ids s) (event_ids s) (rr_id ` set ?rs) (series_ids s) (t_sessions s)"
    using db_okD(5) [OF ok] free(1) unfolding ids sessions_ok_def session_refs_ok_def by auto
  moreover have "series_ok (user_ids s) (event_ids s) (rr_id ` set ?rs) (t_series s)"
    using db_okD(6) [OF ok] free(2) unfolding ids series_ok_def by auto
  ultimately show ?thesis using ok by (simp add: db_ok_def s' del: set_drop_row)
qed

lemma insert_session_ok: "db_ok ci s \<Longrightarrow> insert_session r s = Inr s' \<Longrightarrow> db_ok ci s'"
  unfolding insert_session_Inr db_ok_def sessions_ok_def
  by (auto simp: no_double_booking_snoc session_refs_ok_def intro: ok_insert)

lemma replace_session_ok:
  assumes "db_ok ci s" and "replace_session r s = Inr s'"
    and "session_refs_ok (user_ids s) (event_ids s) (room_ids s) (series_ids s) r"
  shows "db_ok ci s'"
  using assms unfolding replace_session_Inr db_ok_def sessions_ok_def
  by (auto simp: key_put_row no_double_booking_put dest: subsetD [OF set_put_row_subset])

lemma insert_series_ok: "db_ok ci s \<Longrightarrow> insert_series x s = Inr s' \<Longrightarrow> db_ok ci s'"
  unfolding insert_series_Inr db_ok_def series_ok_def by (auto intro: ok_insert)

lemma insert_exception_ok: "db_ok ci s \<Longrightarrow> insert_exception x s = Inr s' \<Longrightarrow> db_ok ci s'"
  unfolding insert_exception_Inr db_ok_def exceptions_ok_def by simp

lemma insert_invitation_ok: "db_ok ci s \<Longrightarrow> insert_invitation ci i s = Inr s' \<Longrightarrow> db_ok ci s'"
  unfolding insert_invitation_Inr db_ok_def invitations_ok_def by simp

lemma insert_audit_ok: "db_ok ci s \<Longrightarrow> insert_audit a s = Inr s' \<Longrightarrow> db_ok ci s'"
  unfolding insert_audit_Inr db_ok_def audit_ok_def by simp

lemma insert_idempotency_ok: "db_ok ci s \<Longrightarrow> insert_idempotency k s = Inr (b, s') \<Longrightarrow> db_ok ci s'"
  unfolding insert_idempotency_Inr db_ok_def idempotency_ok_def by (simp split: if_splits)

lemmas stmt_ok = insert_user_ok insert_event_ok replace_event_ok insert_member_ok delete_member_ok
  insert_room_ok delete_room_ok insert_session_ok insert_series_ok insert_exception_ok
  insert_invitation_ok insert_audit_ok insert_idempotency_ok

text \<open>The same, to be chained backwards along the statements of a transaction.\<close>

lemmas stmt_ok_back = stmt_ok [rotated]

end
