(* ===== verification/Versioned.thy ===== *)
theory Versioned
  imports Prelude
begin

text \<open>
  Optimistic locking. The locale \<open>versioned_write\<close> is the contract that the version-gated
  writes of the repositories share (Update and Delete of events, rooms and sessions, AssignRole
  and Delete of members): a write names a key and the version the caller last read, it succeeds
  only on exactly that version, it moves the version on or removes the row, and every other
  outcome leaves the database as it was. From the contract alone: a history of such writes never
  has two successes with the same key and version, so no update is lost.
\<close>

text \<open>A history: requests (operation, key, version), each run on the state the one before left.\<close>

fun run_writes ::
    "('op \<Rightarrow> 'k \<Rightarrow> int \<Rightarrow> 's \<Rightarrow> (repo_error + 'r) \<times> 's) \<Rightarrow> ('op \<times> 'k \<times> int) list \<Rightarrow> 's \<Rightarrow> (repo_error + 'r) list" where
  "run_writes write [] s = []"
| "run_writes write ((a, k, v) # reqs) s =
     fst (write a k v s) # run_writes write reqs (snd (write a k v s))"

definition wins :: "('op \<times> 'k \<times> int) list \<Rightarrow> (repo_error + 'r) list \<Rightarrow> ('k \<times> int) list" where
  "wins reqs rs = [snd q. (q, r) \<leftarrow> zip reqs rs, \<not> isl r]"

lemma wins_simps [simp]:
  "wins [] rs = []"
  "wins ((a, k, v) # reqs) (r # rs) = (if isl r then wins reqs rs else (k, v) # wins reqs rs)"
  by (simp_all add: wins_def)

locale versioned_write =
  fixes version_of :: "'s \<Rightarrow> 'k \<Rightarrow> int option"
    and "write" :: "'op \<Rightarrow> 'k \<Rightarrow> int \<Rightarrow> 's \<Rightarrow> (repo_error + 'r) \<times> 's"
    and ok :: "'s \<Rightarrow> bool"
  assumes write_missing: "ok s \<Longrightarrow> version_of s k = None \<Longrightarrow> write a k v s = (Inl ErrNotFound, s)"
    and write_stale: "ok s \<Longrightarrow> version_of s k = Some v' \<Longrightarrow> v' \<noteq> v \<Longrightarrow> write a k v s = (Inl ErrVersionMismatch, s)"
    and write_fail: "write a k v s = (Inl e, s') \<Longrightarrow> s' = s"
    and write_moves: "ok s \<Longrightarrow> write a k v s = (Inr r, s') \<Longrightarrow> version_of s' k = None \<or> version_of s' k = Some (v + 1)"
    and write_frame: "ok s \<Longrightarrow> write a k v s = (Inr r, s') \<Longrightarrow> k' \<noteq> k \<Longrightarrow> version_of s' k' = version_of s k'"
    and write_ok: "ok s \<Longrightarrow> write a k v s = (Inr r, s') \<Longrightarrow> ok s'"
begin

lemma write_gate:
  assumes "ok s" "write a k v s = (Inr r, s')"
  shows "version_of s k = Some v"
proof (cases "version_of s k")
  case None
  then show ?thesis using assms write_missing by simp
next
  case (Some v')
  then show ?thesis using assms write_stale [of s k v' v a] by (cases "v' = v") auto
qed

text \<open>The second of two writes from the same version is refused and changes nothing.\<close>

lemma second_write_refused:
  assumes "ok s" "write a k v s = (Inr r, s1)"
  shows "write b k v s1 = (Inl ErrNotFound, s1) \<or> write b k v s1 = (Inl ErrVersionMismatch, s1)"
  using write_moves [OF assms] write_missing write_stale write_ok [OF assms] by force

lemma wins_above:
  assumes "ok s" and "(k, v) \<in> set (wins reqs (run_writes write reqs s))"
  shows "\<exists>u \<le> v. version_of s k = Some u"
  using assms
proof (induction reqs arbitrary: s)
  case Nil
  then show ?case by simp
next
  case (Cons q reqs)
  obtain a k0 v0 where q: "q = (a, k0, v0)" by (cases q)
  obtain r s' where w: "write a k0 v0 s = (r, s')" by fastforce
  show ?case
  proof (cases r)
    case (Inl e)
    then show ?thesis using Cons q w write_fail by fastforce
  next
    case (Inr x)
    then have w': "write a k0 v0 s = (Inr x, s')" using w by simp
    have gate: "version_of s k0 = Some v0" and "ok s'"
      using write_gate write_ok w' Cons.prems(1) by auto
    show ?thesis
    proof (cases "(k, v) = (k0, v0)")
      case True
      then show ?thesis using gate by auto
    next
      case False
      then have "(k, v) \<in> set (wins reqs (run_writes write reqs s'))"
        using Cons.prems q w Inr by auto
      then obtain u where u: "u \<le> v" "version_of s' k = Some u"
        using Cons.IH [OF \<open>ok s'\<close>] by blast
      show ?thesis
      proof (cases "k = k0")
        case True
        then show ?thesis using write_moves [OF Cons.prems(1) w'] u gate by auto
      next
        case False
        then show ?thesis using write_frame [OF Cons.prems(1) w'] u by auto
      qed
    qed
  qed
qed

lemma no_lost_update:
  assumes "ok s"
  shows "distinct (wins reqs (run_writes write reqs s))"
  using assms
proof (induction reqs arbitrary: s)
  case Nil
  then show ?case by simp
next
  case (Cons q reqs)
  obtain a k v where q: "q = (a, k, v)" by (cases q)
  obtain r s' where w: "write a k v s = (r, s')" by fastforce
  show ?case
  proof (cases r)
    case (Inl e)
    then show ?thesis using Cons q w write_fail by fastforce
  next
    case (Inr x)
    then have w': "write a k v s = (Inr x, s')" using w by simp
    have "ok s'" using write_ok [OF Cons.prems w'] .
    moreover have "(k, v) \<notin> set (wins reqs (run_writes write reqs s'))"
      using wins_above [OF \<open>ok s'\<close>] write_moves [OF Cons.prems w'] by fastforce
    ultimately show ?thesis using Cons.IH q w Inr by simp
  qed
qed

end

end
