(* ===== verification/Event_Repo.thy ===== *)
theory Event_Repo
  imports Db_Inv Paging Versioned
begin

text \<open>
  internal/adapter/postgres/event_repo.go: the events table. Create also grants the creator an
  admin membership; Update and Delete share \<open>versionedWrite\<close>. A soft-deleted row is invisible
  to every operation. The diagnostic read after a write that matched no row sees the same rows.
\<close>

section \<open>Operations\<close>

definition audit ::
    "uuid \<Rightarrow> uuid \<Rightarrow> string \<Rightarrow> uuid \<Rightarrow> string \<Rightarrow> snapshot option \<Rightarrow> snapshot option \<Rightarrow> audit_row" where
  "audit aid actorID entity_type entity_id action before after =
     \<lparr>au_id = aid, au_actor_id = actorID, au_entity_type = entity_type, au_entity_id = entity_id,
      au_action = action, au_before = before, au_after = after\<rparr>"

definition new_event_row :: "txgen \<Rightarrow> event_create_input \<Rightarrow> event_row" where
  "new_event_row g inp =
     \<lparr>er_id = g_id g, er_name = eci_name inp, er_description = eci_description inp,
      er_timezone = eci_timezone inp, er_starts_at = pg_time (eci_starts_at inp), er_ends_at = pg_time (eci_ends_at inp),
      er_version = 1, er_deleted_at = None, er_created_at = g_now g, er_updated_at = g_now g\<rparr>"

definition new_admin_row :: "txgen \<Rightarrow> uuid \<Rightarrow> event_member_row" where
  "new_admin_row g actorID =
     \<lparr>mr_id = g_id2 g, mr_event_id = g_id g, mr_user_id = actorID, mr_role = ''admin'',
      mr_version = 1, mr_created_at = g_now g, mr_updated_at = g_now g\<rparr>"

definition grant_json :: "event_member_row \<Rightarrow> member_row" where
  "grant_json m = \<lparr>gr_id = mr_id m, gr_event_id = mr_event_id m, gr_user_id = mr_user_id m,
     gr_role = mr_role m, gr_created_at = mr_created_at m, gr_updated_at = mr_updated_at m\<rparr>"

definition event_create :: "txgen \<Rightarrow> uuid \<Rightarrow> event_create_input \<Rightarrow> db \<Rightarrow> (repo_error + event) \<times> db" where
  "event_create g actorID inp = in_tx (\<lambda>s.
     let row = new_event_row g inp; member = new_admin_row g actorID in
     and_then (wrap_pg (insert_event row s)) (\<lambda>s1.
     and_then (wrap_pg (insert_member member s1)) (\<lambda>s2.
     and_then (wrap_pg (insert_audit (audit (g_audit_id g) actorID ''event'' (er_id row) ''create''
                 None (Some (SEvent row))) s2)) (\<lambda>s3.
     and_then (wrap_pg (insert_audit (audit (g_audit_id2 g) actorID ''event_member'' (mr_id member) ''create''
                 None (Some (SGrant (grant_json member)))) s3)) (\<lambda>s4.
     Inr (toEvent row, s4))))))"

definition find_live_event :: "uuid \<Rightarrow> db \<Rightarrow> event_row option" where
  "find_live_event k s =
     (case lookup_row er_id k (t_events s) of
        None \<Rightarrow> None
      | Some e \<Rightarrow> if er_deleted_at e = None then Some e else None)"

definition event_get :: "uuid \<Rightarrow> db \<Rightarrow> repo_error + event" where
  "event_get k s = (case find_live_event k s of None \<Rightarrow> Inl ErrNotFound | Some e \<Rightarrow> Inr (toEvent e))"

definition event_key :: "event \<Rightarrow> time \<times> uuid" where
  "event_key e = (ev_created_at e, ev_id e)"

text \<open>\<open>events e JOIN event_members em ON em.event_id = e.id WHERE em.user_id = $1 AND e.deleted_at IS NULL\<close>\<close>

definition event_list_rows :: "uuid \<Rightarrow> db \<Rightarrow> event list" where
  "event_list_rows userID s =
     [toEvent e. e \<leftarrow> t_events s, em \<leftarrow> t_members s,
        mr_event_id em = er_id e \<and> mr_user_id em = userID \<and> er_deleted_at e = None]"

definition event_list :: "uuid \<Rightarrow> nat \<Rightarrow> cursor option \<Rightarrow> db \<Rightarrow> repo_error + event_page" where
  "event_list userID limit after s =
     and_then (list_page event_key limit after (event_list_rows userID s)) (\<lambda>(evs, next).
       Inr \<lparr>epg_events = evs, epg_next_cursor = next\<rparr>)"

definition event_versioned_write ::
    "txgen \<Rightarrow> uuid \<Rightarrow> uuid \<Rightarrow> int \<Rightarrow> string \<Rightarrow> (event_row \<Rightarrow> event_row) \<Rightarrow> db \<Rightarrow> (repo_error + event) \<times> db" where
  "event_versioned_write g actorID k version action upd = in_tx (\<lambda>s.
     case find_live_event k s of
       None \<Rightarrow> Inl ErrNotFound
     | Some old \<Rightarrow>
         if er_version old \<noteq> version then Inl ErrVersionMismatch
         else let new = upd old in
           and_then (wrap_pg (replace_event new s)) (\<lambda>s1.
           and_then (wrap_pg (insert_audit (audit (g_audit_id g) actorID ''event'' k action
                       (Some (SEvent old)) (Some (SEvent new))) s1)) (\<lambda>s2.
           Inr (toEvent new, s2))))"

definition event_set :: "txgen \<Rightarrow> event_patch \<Rightarrow> event_row \<Rightarrow> event_row" where
  "event_set g patch e = e
     \<lparr>er_name := apply_opt (ep_name patch) (er_name e),
      er_description := apply_opt (ep_description patch) (er_description e),
      er_timezone := apply_opt (ep_timezone patch) (er_timezone e),
      er_starts_at := (if opt_set (ep_starts_at patch) then pg_time (opt_value (ep_starts_at patch)) else er_starts_at e),
      er_ends_at := (if opt_set (ep_ends_at patch) then pg_time (opt_value (ep_ends_at patch)) else er_ends_at e),
      er_version := er_version e + 1,
      er_updated_at := g_now g\<rparr>"

definition event_update ::
    "txgen \<Rightarrow> uuid \<Rightarrow> uuid \<Rightarrow> int \<Rightarrow> event_patch \<Rightarrow> db \<Rightarrow> (repo_error + event) \<times> db" where
  "event_update g actorID k version patch =
     event_versioned_write g actorID k version ''update'' (event_set g patch)"

definition event_delete :: "txgen \<Rightarrow> uuid \<Rightarrow> uuid \<Rightarrow> int \<Rightarrow> db \<Rightarrow> (repo_error + event) \<times> db" where
  "event_delete g actorID k version =
     event_versioned_write g actorID k version ''delete''
       (\<lambda>e. e\<lparr>er_deleted_at := Some (g_now g), er_updated_at := g_now g, er_version := er_version e + 1\<rparr>)"

text \<open>internal/domain/event/service.go passes every call through.\<close>

definition service_create_event :: "txgen \<Rightarrow> uuid \<Rightarrow> event_create_input \<Rightarrow> db \<Rightarrow> (repo_error + event) \<times> db" where
  "service_create_event = event_create"
definition service_get_event :: "uuid \<Rightarrow> db \<Rightarrow> repo_error + event" where
  "service_get_event = event_get"
definition service_list_events :: "uuid \<Rightarrow> nat \<Rightarrow> cursor option \<Rightarrow> db \<Rightarrow> repo_error + event_page" where
  "service_list_events = event_list"
definition service_update_event ::
    "txgen \<Rightarrow> uuid \<Rightarrow> uuid \<Rightarrow> int \<Rightarrow> event_patch \<Rightarrow> db \<Rightarrow> (repo_error + event) \<times> db" where
  "service_update_event = event_update"
definition service_delete_event :: "txgen \<Rightarrow> uuid \<Rightarrow> uuid \<Rightarrow> int \<Rightarrow> db \<Rightarrow> (repo_error + event) \<times> db" where
  "service_delete_event = event_delete"

section \<open>What a success did\<close>

lemma find_live_event_Some:
  "find_live_event k s = Some e \<longleftrightarrow> lookup_row er_id k (t_events s) = Some e \<and> er_deleted_at e = None"
  by (auto simp: find_live_event_def split: option.splits if_splits)

lemma event_create_Inr:
  "event_create g actorID inp s = (Inr e, s') \<longleftrightarrow>
     (\<exists>s1 s2 s3. e = toEvent (new_event_row g inp) \<and>
        insert_event (new_event_row g inp) s = Inr s1 \<and>
        insert_member (new_admin_row g actorID) s1 = Inr s2 \<and>
        insert_audit (audit (g_audit_id g) actorID ''event'' (g_id g) ''create'' None
          (Some (SEvent (new_event_row g inp)))) s2 = Inr s3 \<and>
        insert_audit (audit (g_audit_id2 g) actorID ''event_member'' (g_id2 g) ''create'' None
          (Some (SGrant (grant_json (new_admin_row g actorID))))) s3 = Inr s')"
  by (auto simp: event_create_def Let_def and_then_Inr_iff new_event_row_def new_admin_row_def)

lemma event_versioned_write_Inr:
  "event_versioned_write g actorID k version action upd s = (Inr e, s') \<longleftrightarrow>
     (\<exists>old s1. find_live_event k s = Some old \<and> er_version old = version \<and> e = toEvent (upd old) \<and>
        replace_event (upd old) s = Inr s1 \<and>
        insert_audit (audit (g_audit_id g) actorID ''event'' k action (Some (SEvent old))
          (Some (SEvent (upd old)))) s1 = Inr s')"
  by (auto simp: event_versioned_write_def Let_def and_then_Inr_iff split: option.splits if_splits)

lemma event_versioned_write_fail:
  "event_versioned_write g actorID k version action upd s = (Inl e, s') \<Longrightarrow> s' = s"
  by (simp add: event_versioned_write_def)

lemma event_create_fail: "event_create g actorID inp s = (Inl e, s') \<Longrightarrow> s' = s"
  by (simp add: event_create_def)

lemma event_create_ok:
  assumes "db_ok ci s" "event_create g a inp s = (r, s')"
  shows "db_ok ci s'"
proof (cases r)
  case (Inl e)
  then show ?thesis using assms event_create_fail by blast
next
  case (Inr e)
  then show ?thesis
    using assms unfolding Inr event_create_Inr
    by (elim exE conjE) ((erule stmt_ok_back)+, assumption)
qed

lemma event_versioned_write_ok:
  assumes "db_ok ci s" "event_versioned_write g a k v act upd s = (r, s')"
  shows "db_ok ci s'"
proof (cases r)
  case (Inl e)
  then show ?thesis using assms event_versioned_write_fail by blast
next
  case (Inr e)
  then show ?thesis
    using assms unfolding Inr event_versioned_write_Inr
    by (elim exE conjE) ((erule stmt_ok_back)+, assumption)
qed

section \<open>The versioned-write contract\<close>

datatype event_write_op = EUpdate txgen uuid event_patch | EDelete txgen uuid

fun event_write :: "event_write_op \<Rightarrow> uuid \<Rightarrow> int \<Rightarrow> db \<Rightarrow> (repo_error + event) \<times> db" where
  "event_write (EUpdate g actorID patch) k v s = event_update g actorID k v patch s"
| "event_write (EDelete g actorID) k v s = event_delete g actorID k v s"

definition event_version :: "db \<Rightarrow> uuid \<Rightarrow> int option" where
  "event_version s k = map_option er_version (find_live_event k s)"

lemma event_write_cases:
  obtains g actorID action upd where
    "\<And>s. event_write a k v s = event_versioned_write g actorID k v action upd s"
    "\<And>e. er_id (upd e) = er_id e" "\<And>e. er_version (upd e) = er_version e + 1"
proof (cases a)
  case (EUpdate g actorID patch)
  show ?thesis
    by (rule that [of g actorID "''update''" "event_set g patch"])
      (simp_all add: EUpdate event_update_def event_set_def)
next
  case (EDelete g actorID)
  show ?thesis
    by (rule that [of g actorID "''delete''"
          "\<lambda>e. e\<lparr>er_deleted_at := Some (g_now g), er_updated_at := g_now g, er_version := er_version e + 1\<rparr>"])
      (simp_all add: EDelete event_delete_def)
qed

lemma event_versioned_write_lookup:
  assumes "event_versioned_write g actorID k v action upd s = (Inr r, s')"
    and "\<And>e. er_id (upd e) = er_id e"
  obtains old where "find_live_event k s = Some old" "er_version old = v" "er_id old = k"
    "t_events s' = put_row er_id (upd old) (t_events s)"
    "\<And>j. lookup_row er_id j (t_events s') = (if j = k then Some (upd old) else lookup_row er_id j (t_events s))"
proof -
  obtain old where old: "find_live_event k s = Some old" "er_version old = v"
    and ev: "t_events s' = put_row er_id (upd old) (t_events s)"
    using assms(1) by (auto simp: event_versioned_write_Inr stmt_Inr)
  have l: "lookup_row er_id k (t_events s) = Some old" "er_id old = k"
    using old(1) lookup_row_Some by (fastforce simp: find_live_event_Some)+
  then show ?thesis using that old ev assms(2) by (simp add: lookup_put_row)
qed

lemma event_write_moves:
  assumes "event_versioned_write g actorID k v action upd s = (Inr r, s')"
    and "\<And>e. er_id (upd e) = er_id e" "\<And>e. er_version (upd e) = er_version e + 1"
  shows "(event_version s' k = None \<or> event_version s' k = Some (v + 1)) \<and>
         (k' \<noteq> k \<longrightarrow> event_version s' k' = event_version s k')"
  by (rule event_versioned_write_lookup [OF assms(1,2)])
    (auto simp: event_version_def find_live_event_def assms(3))

interpretation event_versioned: versioned_write event_version event_write "db_ok ci"
proof
  fix s k a v and v' :: int and e :: repo_error and r :: event and s' k'
  obtain g actorID action upd where w:
    "\<And>s. event_write a k v s = event_versioned_write g actorID k v action upd s"
    "\<And>e. er_id (upd e) = er_id e" "\<And>e. er_version (upd e) = er_version e + 1"
    using event_write_cases [of a k v] by blast
  show "event_version s k = None \<Longrightarrow> event_write a k v s = (Inl ErrNotFound, s)"
    by (auto simp: w event_version_def event_versioned_write_def)
  show "event_version s k = Some v' \<Longrightarrow> v' \<noteq> v \<Longrightarrow> event_write a k v s = (Inl ErrVersionMismatch, s)"
    by (auto simp: w event_version_def event_versioned_write_def)
  show "event_write a k v s = (Inl e, s') \<Longrightarrow> s' = s"
    unfolding w(1) by (rule event_versioned_write_fail)
  have "(event_version s' k = None \<or> event_version s' k = Some (v + 1)) \<and>
      (k' \<noteq> k \<longrightarrow> event_version s' k' = event_version s k')" if "event_write a k v s = (Inr r, s')"
    using event_write_moves [OF that [unfolded w(1)] w(2,3)] .
  then show "event_write a k v s = (Inr r, s') \<Longrightarrow> event_version s' k = None \<or> event_version s' k = Some (v + 1)"
    and "event_write a k v s = (Inr r, s') \<Longrightarrow> k' \<noteq> k \<Longrightarrow> event_version s' k' = event_version s k'"
    by simp_all
  show "db_ok ci s \<Longrightarrow> event_write a k v s = (Inr r, s') \<Longrightarrow> db_ok ci s'"
    unfolding w(1) by (rule event_versioned_write_ok)
qed

section \<open>The List contract\<close>

lemma concat_if_unique:
  "distinct (map f ms) \<Longrightarrow>
     concat (map (\<lambda>m. if f m = k \<and> b then [x] else []) ms) = (if b \<and> k \<in> f ` set ms then [x] else [])"
  by (induction ms) auto

text \<open>A user has at most one membership per event, so the join repeats no event.\<close>

lemma event_list_rows_eq:
  assumes "members_ok U E (t_members s)"
  shows "event_list_rows userID s =
     map toEvent (filter (\<lambda>e. er_deleted_at e = None \<and> (er_id e, userID) \<in> (\<lambda>m. (mr_event_id m, mr_user_id m)) ` set (t_members s)) (t_events s))"
proof -
  let ?f = "\<lambda>m. (mr_event_id m, mr_user_id m)"
  have d: "distinct (map ?f (t_members s))" using assms by (simp add: members_ok_def)
  have one: "concat (map (\<lambda>em. if mr_event_id em = er_id e \<and> mr_user_id em = userID \<and> er_deleted_at e = None
                           then [toEvent e] else []) (t_members s)) =
             (if er_deleted_at e = None \<and> (er_id e, userID) \<in> ?f ` set (t_members s) then [toEvent e] else [])" for e
    using concat_if_unique [OF d, of "(er_id e, userID)" "er_deleted_at e = None" "toEvent e"]
    by (simp only: prod.inject conj_assoc)
  have "concat (map (\<lambda>e. if P e then [toEvent e] else []) es) = map toEvent (filter P es)" for P es
    by (induction es) auto
  then show ?thesis unfolding event_list_rows_def one by simp
qed

definition event_page_pair :: "event_page \<Rightarrow> event list \<times> cursor option" where
  "event_page_pair p = (epg_events p, epg_next_cursor p)"

definition event_list_pairs :: "uuid \<Rightarrow> nat \<Rightarrow> cursor option \<Rightarrow> db \<Rightarrow> repo_error + (event list \<times> cursor option)" where
  "event_list_pairs userID limit after s = map_sum id event_page_pair (event_list userID limit after s)"

interpretation event_listing: keyset_list "event_list_pairs userID" "event_list_rows userID" event_key "db_ok ci"
proof
  fix s limit after
  assume ok: "db_ok ci s"
  show "event_list_pairs userID limit after s = list_page event_key limit after (event_list_rows userID s)"
    by (cases "list_page event_key limit after (event_list_rows userID s)")
      (auto simp: event_list_pairs_def event_list_def event_page_pair_def)
  have "distinct (map er_id (filter P (t_events s)))" for P
    using db_okD(2) [OF ok] by (simp add: events_ok_def distinct_map_filter)
  then have "distinct (map ev_id (event_list_rows userID s))"
    by (simp add: event_list_rows_eq [OF db_okD(3) [OF ok]] toEvent_def comp_def)
  then show "distinct (map event_key (event_list_rows userID s))"
    by (auto simp: event_key_def distinct_map inj_on_def)
qed

end
