(* ===== verification/Room_Repo.thy ===== *)
theory Room_Repo
  imports Event_Repo
begin

text \<open>
  internal/adapter/postgres/room_repo.go and internal/domain/room/service.go: the rooms of an event.
  A room is addressed by its event and its id; a room of another event is a missing one.
\<close>

section \<open>Operations\<close>

definition new_room_row :: "txgen \<Rightarrow> uuid \<Rightarrow> room_create_input \<Rightarrow> room_row" where
  "new_room_row g eventID inp =
     \<lparr>rr_id = g_id g, rr_event_id = eventID, rr_name = rci_name inp, rr_capacity = rci_capacity inp,
      rr_version = 1, rr_created_at = g_now g, rr_updated_at = g_now g\<rparr>"

definition room_create :: "txgen \<Rightarrow> uuid \<Rightarrow> uuid \<Rightarrow> room_create_input \<Rightarrow> db \<Rightarrow> (repo_error + room) \<times> db" where
  "room_create g actorID eventID inp = in_tx (\<lambda>s.
     let row = new_room_row g eventID inp in
     and_then (wrap_conflict uniqueViolation (insert_room row s)) (\<lambda>s1.
     and_then (wrap_pg (insert_audit (audit (g_audit_id g) actorID ''room'' (rr_id row) ''create''
                 None (Some (SRoom row))) s1)) (\<lambda>s2.
     Inr (toRoom row, s2))))"

definition find_room :: "uuid \<Rightarrow> uuid \<Rightarrow> db \<Rightarrow> room_row option" where
  "find_room eventID roomID s =
     (case lookup_row rr_id roomID (t_rooms s) of
        None \<Rightarrow> None
      | Some r \<Rightarrow> if rr_event_id r = eventID then Some r else None)"

definition room_get :: "uuid \<Rightarrow> uuid \<Rightarrow> db \<Rightarrow> repo_error + room" where
  "room_get eventID roomID s =
     (case find_room eventID roomID s of None \<Rightarrow> Inl ErrNotFound | Some r \<Rightarrow> Inr (toRoom r))"

definition room_key :: "room \<Rightarrow> time \<times> uuid" where
  "room_key r = (rm_created_at r, rm_id r)"

definition room_list_rows :: "uuid \<Rightarrow> db \<Rightarrow> room list" where
  "room_list_rows eventID s = [toRoom r. r \<leftarrow> t_rooms s, rr_event_id r = eventID]"

definition room_list :: "uuid \<Rightarrow> nat \<Rightarrow> cursor option \<Rightarrow> db \<Rightarrow> repo_error + room_page" where
  "room_list eventID limit after s =
     and_then (list_page room_key limit after (room_list_rows eventID s)) (\<lambda>(rs, next).
       Inr \<lparr>rpg_rooms = rs, rpg_next_cursor = next\<rparr>)"

definition room_set :: "txgen \<Rightarrow> room_patch \<Rightarrow> room_row \<Rightarrow> room_row" where
  "room_set g patch r = r
     \<lparr>rr_name := apply_opt (rp_name patch) (rr_name r),
      rr_capacity := apply_opt (rp_capacity patch) (rr_capacity r),
      rr_version := rr_version r + 1,
      rr_updated_at := g_now g\<rparr>"

definition room_update ::
    "txgen \<Rightarrow> uuid \<Rightarrow> uuid \<Rightarrow> uuid \<Rightarrow> int \<Rightarrow> room_patch \<Rightarrow> db \<Rightarrow> (repo_error + room) \<times> db" where
  "room_update g actorID eventID roomID version patch = in_tx (\<lambda>s.
     case find_room eventID roomID s of
       None \<Rightarrow> Inl ErrNotFound
     | Some old \<Rightarrow>
         if rr_version old \<noteq> version then Inl ErrVersionMismatch
         else let new = room_set g patch old in
           and_then (wrap_conflict uniqueViolation (replace_room new s)) (\<lambda>s1.
           and_then (wrap_pg (insert_audit (audit (g_audit_id g) actorID ''room'' roomID ''update''
                       (Some (SRoom old)) (Some (SRoom new))) s1)) (\<lambda>s2.
           Inr (toRoom new, s2))))"

definition room_delete :: "txgen \<Rightarrow> uuid \<Rightarrow> uuid \<Rightarrow> uuid \<Rightarrow> int \<Rightarrow> db \<Rightarrow> (repo_error + unit) \<times> db" where
  "room_delete g actorID eventID roomID version = in_tx (\<lambda>s.
     case find_room eventID roomID s of
       None \<Rightarrow> Inl ErrNotFound
     | Some old \<Rightarrow>
         if rr_version old \<noteq> version then Inl ErrVersionMismatch
         else
           and_then (wrap_conflict foreignKeyViolation (delete_room roomID s)) (\<lambda>s1.
           and_then (wrap_pg (insert_audit (audit (g_audit_id g) actorID ''room'' roomID ''delete''
                       (Some (SRoom old)) None) s1)) (\<lambda>s2.
           Inr ((), s2))))"

text \<open>internal/domain/room/service.go.\<close>

definition service_create_room :: "txgen \<Rightarrow> uuid \<Rightarrow> uuid \<Rightarrow> room_create_input \<Rightarrow> db \<Rightarrow> (repo_error + room) \<times> db" where
  "service_create_room = room_create"
definition service_get_room :: "uuid \<Rightarrow> uuid \<Rightarrow> db \<Rightarrow> repo_error + room" where
  "service_get_room = room_get"
definition service_list_rooms :: "uuid \<Rightarrow> nat \<Rightarrow> cursor option \<Rightarrow> db \<Rightarrow> repo_error + room_page" where
  "service_list_rooms = room_list"
definition service_update_room ::
    "txgen \<Rightarrow> uuid \<Rightarrow> uuid \<Rightarrow> uuid \<Rightarrow> int \<Rightarrow> room_patch \<Rightarrow> db \<Rightarrow> (repo_error + room) \<times> db" where
  "service_update_room = room_update"
definition service_delete_room :: "txgen \<Rightarrow> uuid \<Rightarrow> uuid \<Rightarrow> uuid \<Rightarrow> int \<Rightarrow> db \<Rightarrow> (repo_error + unit) \<times> db" where
  "service_delete_room = room_delete"

section \<open>What a success did\<close>

lemma find_room_Some:
  "find_room ev k s = Some r \<longleftrightarrow> lookup_row rr_id k (t_rooms s) = Some r \<and> rr_event_id r = ev"
  by (auto simp: find_room_def split: option.splits if_splits)

lemma find_room_in: "find_room ev k s = Some r \<Longrightarrow> r \<in> set (t_rooms s) \<and> rr_id r = k \<and> rr_event_id r = ev"
  using lookup_row_Some by (fastforce simp: find_room_Some)

lemma room_create_Inr:
  "room_create g actorID ev inp s = (Inr r, s') \<longleftrightarrow>
     (\<exists>s1. r = toRoom (new_room_row g ev inp) \<and> insert_room (new_room_row g ev inp) s = Inr s1 \<and>
        insert_audit (audit (g_audit_id g) actorID ''room'' (g_id g) ''create'' None
          (Some (SRoom (new_room_row g ev inp)))) s1 = Inr s')"
  by (auto simp: room_create_def Let_def and_then_Inr_iff new_room_row_def)

lemma room_update_Inr:
  "room_update g actorID ev k v patch s = (Inr r, s') \<longleftrightarrow>
     (\<exists>old s1. find_room ev k s = Some old \<and> rr_version old = v \<and> r = toRoom (room_set g patch old) \<and>
        replace_room (room_set g patch old) s = Inr s1 \<and>
        insert_audit (audit (g_audit_id g) actorID ''room'' k ''update'' (Some (SRoom old))
          (Some (SRoom (room_set g patch old)))) s1 = Inr s')"
  by (auto simp: room_update_def Let_def and_then_Inr_iff split: option.splits if_splits)

lemma room_delete_Inr:
  "room_delete g actorID ev k v s = (Inr r, s') \<longleftrightarrow>
     (\<exists>old s1. find_room ev k s = Some old \<and> rr_version old = v \<and> delete_room k s = Inr s1 \<and>
        insert_audit (audit (g_audit_id g) actorID ''room'' k ''delete'' (Some (SRoom old)) None) s1 = Inr s')"
  by (auto simp: room_delete_def Let_def and_then_Inr_iff split: option.splits if_splits)

lemma room_create_fail: "room_create g actorID ev inp s = (Inl e, s') \<Longrightarrow> s' = s"
  by (simp add: room_create_def)

lemma room_update_fail: "room_update g actorID ev k v patch s = (Inl e, s') \<Longrightarrow> s' = s"
  by (simp add: room_update_def)

lemma room_delete_fail: "room_delete g actorID ev k v s = (Inl e, s') \<Longrightarrow> s' = s"
  by (simp add: room_delete_def)

lemma room_create_ok:
  assumes "db_ok ci s" "room_create g a ev inp s = (r, s')"
  shows "db_ok ci s'"
proof (cases r)
  case (Inl e)
  then show ?thesis using assms room_create_fail by blast
next
  case (Inr e)
  then show ?thesis
    using assms unfolding Inr room_create_Inr
    by (elim exE conjE) ((erule stmt_ok_back)+, assumption)
qed

lemma room_update_ok:
  assumes "db_ok ci s" "room_update g a ev k v patch s = (r, s')"
  shows "db_ok ci s'"
proof (cases r)
  case (Inl e)
  then show ?thesis using assms room_update_fail by blast
next
  case (Inr e)
  then obtain old s1 where old: "find_room ev k s = Some old"
    and r: "replace_room (room_set g patch old) s = Inr s1"
    and au: "insert_audit (audit (g_audit_id g) a ''room'' k ''update'' (Some (SRoom old))
          (Some (SRoom (room_set g patch old)))) s1 = Inr s'"
    using assms(2) room_update_Inr by blast
  have "rr_event_id (room_set g patch old) \<in> event_ids s"
    using find_room_in [OF old] db_okD(4) [OF assms(1)] by (auto simp: rooms_ok_def room_set_def)
  then have "db_ok ci s1" using replace_room_ok [OF assms(1) r] by simp
  then show ?thesis using au insert_audit_ok by blast
qed

lemma room_delete_ok:
  assumes "db_ok ci s" "room_delete g a ev k v s = (r, s')"
  shows "db_ok ci s'"
proof (cases r)
  case (Inl e)
  then show ?thesis using assms room_delete_fail by blast
next
  case (Inr e)
  then show ?thesis
    using assms unfolding Inr room_delete_Inr
    by (elim exE conjE) ((erule stmt_ok_back)+, assumption)
qed

text \<open>A room is deletable exactly when nothing, not even a cancelled session, refers to it.\<close>

lemma room_delete_referenced:
  assumes "find_room ev k s = Some r" "rr_version r = v"
    and "x \<in> set (t_sessions s)" "sr_room_id x = k"
  shows "room_delete g actorID ev k v s = (Inl ErrConflict, s)"
proof -
  have "delete_room k s = Inl (ForeignKeyViolation ''sessions_room_id_fkey'')"
    using assms(3,4) by (auto simp: delete_room_def)
  then show ?thesis using assms(1,2) by (simp add: room_delete_def in_tx_def)
qed

section \<open>The versioned-write contract\<close>

datatype room_write_op = RUpdate txgen uuid room_patch | RDelete txgen uuid

fun room_write :: "room_write_op \<Rightarrow> uuid \<times> uuid \<Rightarrow> int \<Rightarrow> db \<Rightarrow> (repo_error + unit) \<times> db" where
  "room_write (RUpdate g actorID patch) (ev, k) v s =
     (let (r, s') = room_update g actorID ev k v patch s in (map_sum id (\<lambda>_. ()) r, s'))"
| "room_write (RDelete g actorID) (ev, k) v s = room_delete g actorID ev k v s"

definition room_version :: "db \<Rightarrow> uuid \<times> uuid \<Rightarrow> int option" where
  "room_version s k = map_option rr_version (find_room (fst k) (snd k) s)"

lemma room_write_fail: "room_write a k v s = (Inl e, s') \<Longrightarrow> s' = s"
  by (cases "(a, k, v, s)" rule: room_write.cases)
    (auto split: prod.splits sum.splits dest: room_update_fail room_delete_fail simp: map_sum_def)

lemma room_write_Inr:
  assumes "room_write a (ev, k) v s = (Inr r, s')"
  obtains (update) g actorID patch m where "a = RUpdate g actorID patch" "room_update g actorID ev k v patch s = (Inr m, s')"
    | (delete) g actorID where "a = RDelete g actorID" "room_delete g actorID ev k v s = (Inr (), s')"
  using assms by (cases a) (auto simp: map_sum_def split: prod.splits sum.splits)

lemma room_write_ok: "db_ok ci s \<Longrightarrow> room_write a k v s = (Inr r, s') \<Longrightarrow> db_ok ci s'"
  by (cases k) (auto elim!: room_write_Inr intro: room_update_ok room_delete_ok)

lemma room_write_lookup:
  assumes "room_write a (ev, k) v s = (Inr r, s')"
  obtains "\<And>j. j \<noteq> k \<Longrightarrow> lookup_row rr_id j (t_rooms s') = lookup_row rr_id j (t_rooms s)"
    "case lookup_row rr_id k (t_rooms s') of None \<Rightarrow> True
     | Some new \<Rightarrow> rr_event_id new = ev \<and> rr_version new = v + 1"
    "\<exists>old. lookup_row rr_id k (t_rooms s) = Some old \<and> rr_event_id old = ev"
  using assms
proof (cases rule: room_write_Inr)
  case (update g actorID patch m)
  then obtain old where old: "find_room ev k s = Some old" "rr_version old = v"
    and rs: "t_rooms s' = put_row rr_id (room_set g patch old) (t_rooms s)"
    by (auto simp: room_update_Inr stmt_Inr)
  have k: "rr_id (room_set g patch old) = k" "rr_event_id old = ev" "lookup_row rr_id k (t_rooms s) = Some old"
    using find_room_in [OF old(1)] old(1) by (simp_all add: room_set_def find_room_Some)
  show ?thesis
    by (rule that) (use old k in \<open>auto simp: rs lookup_put_row room_set_def\<close>)
next
  case (delete g actorID)
  then obtain old where old: "find_room ev k s = Some old"
    and rs: "t_rooms s' = drop_row rr_id k (t_rooms s)"
    by (auto simp: room_delete_Inr stmt_Inr)
  show ?thesis
    by (rule that) (use old in \<open>auto simp: rs lookup_drop_row find_room_Some\<close>)
qed

interpretation room_versioned: versioned_write room_version room_write "db_ok ci"
proof
  fix s k a v and v' :: int and e :: repo_error and r :: unit and s' and k' :: "uuid \<times> uuid"
  show "room_version s k = None \<Longrightarrow> room_write a k v s = (Inl ErrNotFound, s)"
    by (cases a; cases k) (auto simp: room_version_def room_update_def room_delete_def in_tx_def)
  show "room_version s k = Some v' \<Longrightarrow> v' \<noteq> v \<Longrightarrow> room_write a k v s = (Inl ErrVersionMismatch, s)"
    by (cases a; cases k) (auto simp: room_version_def room_update_def room_delete_def in_tx_def)
  show "room_write a k v s = (Inl e, s') \<Longrightarrow> s' = s"
    by (rule room_write_fail)
  obtain ev j where k: "k = (ev, j)" by (cases k)
  obtain ev' j' where k': "k' = (ev', j')" by (cases k')
  show "room_write a k v s = (Inr r, s') \<Longrightarrow> room_version s' k = None \<or> room_version s' k = Some (v + 1)"
    unfolding k by (erule room_write_lookup)
      (auto simp: room_version_def find_room_def split: option.splits)
  show "room_write a k v s = (Inr r, s') \<Longrightarrow> k' \<noteq> k \<Longrightarrow> room_version s' k' = room_version s k'"
    unfolding k k' by (erule room_write_lookup, cases "j' = j")
      (auto simp: room_version_def find_room_def split: option.splits if_splits)
  show "db_ok ci s \<Longrightarrow> room_write a k v s = (Inr r, s') \<Longrightarrow> db_ok ci s'"
    by (rule room_write_ok)
qed

section \<open>The List contract\<close>

lemma room_list_rows_eq:
  "room_list_rows eventID s = map toRoom (filter (\<lambda>r. rr_event_id r = eventID) (t_rooms s))"
proof -
  have "concat (map (\<lambda>r. if rr_event_id r = eventID then [toRoom r] else []) rs) =
      map toRoom (filter (\<lambda>r. rr_event_id r = eventID) rs)" for rs
    by (induction rs) auto
  then show ?thesis by (simp add: room_list_rows_def)
qed

definition room_list_pairs :: "uuid \<Rightarrow> nat \<Rightarrow> cursor option \<Rightarrow> db \<Rightarrow> repo_error + (room list \<times> cursor option)" where
  "room_list_pairs eventID limit after s =
     map_sum id (\<lambda>p. (rpg_rooms p, rpg_next_cursor p)) (room_list eventID limit after s)"

interpretation room_listing: keyset_list "room_list_pairs eventID" "room_list_rows eventID" room_key "db_ok ci"
proof
  fix s limit after
  assume ok: "db_ok ci s"
  show "room_list_pairs eventID limit after s = list_page room_key limit after (room_list_rows eventID s)"
    by (cases "list_page room_key limit after (room_list_rows eventID s)")
      (auto simp: room_list_pairs_def room_list_def)
  have "distinct (map rr_id (filter P (t_rooms s)))" for P
    using db_okD(4) [OF ok] by (simp add: rooms_ok_def distinct_map_filter)
  then have "distinct (map rm_id (room_list_rows eventID s))"
    by (simp add: room_list_rows_eq toRoom_def comp_def)
  then show "distinct (map room_key (room_list_rows eventID s))"
    by (auto simp: room_key_def distinct_map inj_on_def)
qed

end
