(* ===== verification/Session_Repo.thy ===== *)
theory Session_Repo
  imports Room_Repo "HOL-Library.Word"
begin

text \<open>
  internal/adapter/postgres/session_repo.go, internal/domain/session/service.go and errors.go: the
  sessions of an event. The room is looked up by event and id inside the INSERT, the EXCLUDE
  constraints refuse a slot whose room or speaker is taken, and a cancelled session no longer
  occupies it. CreateSeries books its occurrences one transaction each.
\<close>

section \<open>Operations\<close>

definition new_session_row :: "txgen \<Rightarrow> uuid \<Rightarrow> session_create_input \<Rightarrow> session_row" where
  "new_session_row g eventID inp =
     \<lparr>sr_id = g_id g, sr_event_id = eventID, sr_room_id = sci_room_id inp, sr_speaker_id = sci_speaker_id inp,
      sr_title = sci_title inp, sr_description = sci_description inp,
      sr_starts_at = pg_time (sci_starts_at inp), sr_ends_at = pg_time (sci_ends_at inp),
      sr_version = 1, sr_deleted_at = None, sr_created_at = g_now g, sr_updated_at = g_now g,
      sr_series_id = sci_series_id inp\<rparr>"

fun session_create_error :: "pg_error \<Rightarrow> repo_error" where
  "session_create_error (ForeignKeyViolation c) =
     (if c = ''sessions_speaker_id_fkey'' then ErrInvalidSpeaker else ErrOther (Pg (ForeignKeyViolation c)))"
| "session_create_error (ExclusionViolation c) = ErrConflict"
| "session_create_error e = ErrOther (Pg e)"

definition session_create ::
    "txgen \<Rightarrow> uuid \<Rightarrow> uuid \<Rightarrow> session_create_input \<Rightarrow> db \<Rightarrow> (repo_error + session) \<times> db" where
  "session_create g actorID eventID inp = in_tx (\<lambda>s.
     case find_room eventID (sci_room_id inp) s of
       None \<Rightarrow> Inl ErrInvalidRoom
     | Some rm \<Rightarrow>
         let row = new_session_row g eventID inp in
           (case insert_session row s of
              Inl e \<Rightarrow> Inl (session_create_error e)
            | Inr s1 \<Rightarrow>
                and_then (wrap_pg (insert_audit (audit (g_audit_id g) actorID ''session'' (sr_id row) ''create''
                            None (Some (SSession row))) s1)) (\<lambda>s2.
                Inr (toSession row, s2))))"

definition find_session :: "uuid \<Rightarrow> uuid \<Rightarrow> db \<Rightarrow> session_row option" where
  "find_session eventID sessionID s =
     (case lookup_row sr_id sessionID (t_sessions s) of
        None \<Rightarrow> None
      | Some x \<Rightarrow> if sr_event_id x = eventID \<and> live x then Some x else None)"

definition session_get :: "uuid \<Rightarrow> uuid \<Rightarrow> db \<Rightarrow> repo_error + session" where
  "session_get eventID sessionID s =
     (case find_session eventID sessionID s of None \<Rightarrow> Inl ErrNotFound | Some x \<Rightarrow> Inr (toSession x))"

definition session_key :: "session \<Rightarrow> time \<times> uuid" where
  "session_key x = (se_created_at x, se_id x)"

text \<open>List joins the room's and the speaker's name and does not select \<open>series_id\<close>.\<close>

definition listed_session :: "session_row \<Rightarrow> room_row \<Rightarrow> user \<Rightarrow> session" where
  "listed_session x rm spk = (toSession x)
     \<lparr>se_room_name := rr_name rm, se_speaker_name := usr_name spk, se_series_id := None\<rparr>"

definition session_list_rows :: "uuid \<Rightarrow> db \<Rightarrow> session list" where
  "session_list_rows eventID s =
     [listed_session x rm spk.
        (x, rm) \<leftarrow> [(x, rm). x \<leftarrow> t_sessions s, rm \<leftarrow> t_rooms s, rr_id rm = sr_room_id x \<and> (sr_event_id x = eventID \<and> live x)],
        spk \<leftarrow> t_users s, usr_id spk = sr_speaker_id x]"

definition session_list :: "uuid \<Rightarrow> nat \<Rightarrow> cursor option \<Rightarrow> db \<Rightarrow> repo_error + session_page" where
  "session_list eventID limit after s =
     and_then (list_page session_key limit after (session_list_rows eventID s)) (\<lambda>(xs, next).
       Inr \<lparr>spg_sessions = xs, spg_next_cursor = next\<rparr>)"

definition session_exception :: "txgen \<Rightarrow> string \<Rightarrow> session_row \<Rightarrow> uuid \<Rightarrow> exception_row" where
  "session_exception g action old series =
     \<lparr>xc_id = g_exception_id g, xc_series_id = series, xc_session_id = sr_id old,
      xc_status = (if action = ''delete'' then ''cancelled'' else ''modified''),
      xc_original_starts_at = sr_starts_at old\<rparr>"

definition session_versioned_write ::
    "txgen \<Rightarrow> uuid \<Rightarrow> uuid \<Rightarrow> uuid \<Rightarrow> int \<Rightarrow> string \<Rightarrow> (session_row \<Rightarrow> session_row) \<Rightarrow> db \<Rightarrow>
     (repo_error + session) \<times> db" where
  "session_versioned_write g actorID eventID sessionID version action upd = in_tx (\<lambda>s.
     case find_session eventID sessionID s of
       None \<Rightarrow> Inl ErrNotFound
     | Some old \<Rightarrow>
         if sr_version old \<noteq> version then Inl ErrVersionMismatch
         else let new = upd old in
           and_then (wrap_pg (replace_session new s)) (\<lambda>s1.
           and_then (wrap_pg (insert_audit (audit (g_audit_id g) actorID ''session'' sessionID action
                       (Some (SSession old)) (Some (SSession new))) s1)) (\<lambda>s2.
           case sr_series_id new of
             None \<Rightarrow> Inr (toSession new, s2)
           | Some series \<Rightarrow>
               and_then (wrap_pg (insert_exception (session_exception g action old series) s2)) (\<lambda>s3.
               Inr (toSession new, s3)))))"

definition session_set :: "txgen \<Rightarrow> session_patch \<Rightarrow> session_row \<Rightarrow> session_row" where
  "session_set g patch x =
     (let both = opt_set (sp_starts_at patch) \<and> opt_set (sp_ends_at patch) in x
       \<lparr>sr_title := apply_opt (sp_title patch) (sr_title x),
        sr_description := apply_opt (sp_description patch) (sr_description x),
        sr_starts_at := (if both then pg_time (opt_value (sp_starts_at patch)) else sr_starts_at x),
        sr_ends_at := (if both then pg_time (opt_value (sp_ends_at patch)) else sr_ends_at x),
        sr_version := sr_version x + 1,
        sr_updated_at := g_now g\<rparr>)"

definition session_update ::
    "txgen \<Rightarrow> uuid \<Rightarrow> uuid \<Rightarrow> uuid \<Rightarrow> int \<Rightarrow> session_patch \<Rightarrow> db \<Rightarrow> (repo_error + session) \<times> db" where
  "session_update g actorID eventID sessionID version patch =
     session_versioned_write g actorID eventID sessionID version ''update'' (session_set g patch)"

definition session_cancel :: "txgen \<Rightarrow> session_row \<Rightarrow> session_row" where
  "session_cancel g x =
     x\<lparr>sr_deleted_at := Some (g_now g), sr_updated_at := g_now g, sr_version := sr_version x + 1\<rparr>"

definition session_delete ::
    "txgen \<Rightarrow> uuid \<Rightarrow> uuid \<Rightarrow> uuid \<Rightarrow> int \<Rightarrow> db \<Rightarrow> (repo_error + session) \<times> db" where
  "session_delete g actorID eventID sessionID version =
     session_versioned_write g actorID eventID sessionID version ''delete'' (session_cancel g)"

section \<open>Series\<close>

text \<open>
  \<open>time.Duration\<close> is an \<open>int64\<close>: \<open>time.Duration(in.IntervalCount) * 24 * time.Hour\<close>
  wraps, and \<open>Time.Sub\<close> saturates.
\<close>

definition series_step :: "series_create_input \<Rightarrow> 64 word" where
  "series_step inp =
     (let step = word_of_int (sxi_interval_count inp) * 24 * 3600000000000 in
      if sxi_freq inp = ''weekly'' then step * 7 else step)"

definition time_sub :: "time \<Rightarrow> time \<Rightarrow> int" where
  "time_sub t u = max (- (2 ^ 63)) (min (2 ^ 63 - 1) (t - u))"

definition occurrence_start :: "series_create_input \<Rightarrow> nat \<Rightarrow> time" where
  "occurrence_start inp i = sxi_first_starts_at inp + sint (of_nat i * series_step inp)"

definition occurrence_input :: "series_create_input \<Rightarrow> uuid \<Rightarrow> nat \<Rightarrow> session_create_input" where
  "occurrence_input inp series i =
     \<lparr>sci_room_id = sxi_room_id inp, sci_speaker_id = sxi_speaker_id inp, sci_title = sxi_title inp,
      sci_description = sxi_description inp, sci_starts_at = occurrence_start inp i,
      sci_ends_at = occurrence_start inp i + time_sub (sxi_first_ends_at inp) (sxi_first_starts_at inp),
      sci_series_id = Some series\<rparr>"

text \<open>The loop over the occurrences; \<open>gs i\<close> is what the i-th transaction draws.\<close>

fun materialize ::
    "uuid \<Rightarrow> uuid \<Rightarrow> (txgen \<times> session_create_input) list \<Rightarrow> db \<Rightarrow>
     (repo_error + series_occurrence_result list) \<times> db" where
  "materialize actorID eventID [] s = (Inr [], s)"
| "materialize actorID eventID ((g, inp) # rest) s =
     (let (r, s1) = session_create g actorID eventID inp s;
          continue = (\<lambda>res. let (rs, s2) = materialize actorID eventID rest s1
                            in (and_then rs (\<lambda>l. Inr (res # l)), s2))
      in case r of
           Inr created \<Rightarrow> continue \<lparr>sor_starts_at = sci_starts_at inp, sor_status = ''created'', sor_session_id = Some (se_id created)\<rparr>
         | Inl ErrConflict \<Rightarrow> continue \<lparr>sor_starts_at = sci_starts_at inp, sor_status = ''conflict'', sor_session_id = None\<rparr>
         | Inl e \<Rightarrow> (Inl e, s1))"

definition new_series :: "txgen \<Rightarrow> uuid \<Rightarrow> series_create_input \<Rightarrow> series" where
  "new_series g eventID inp =
     \<lparr>sx_id = g_id g, sx_event_id = eventID, sx_room_id = sxi_room_id inp, sx_speaker_id = sxi_speaker_id inp,
      sx_title = sxi_title inp, sx_description = sxi_description inp, sx_freq = sxi_freq inp,
      sx_interval_count = sxi_interval_count inp, sx_occurrences = sxi_occurrences inp, sx_created_at = g_now g\<rparr>"

definition session_create_series ::
    "txgen \<Rightarrow> (nat \<Rightarrow> txgen) \<Rightarrow> uuid \<Rightarrow> uuid \<Rightarrow> series_create_input \<Rightarrow> db \<Rightarrow>
     (repo_error + (series \<times> series_occurrence_result list)) \<times> db" where
  "session_create_series g gs actorID eventID inp s =
     (let series = new_series g eventID inp in
      case insert_series series s of
        Inl e \<Rightarrow> (Inl (ErrOther (Pg e)), s)
      | Inr s1 \<Rightarrow>
          let (r, s2) = materialize actorID eventID
                (map (\<lambda>i. (gs i, occurrence_input inp (sx_id series) i)) [0..<nat (sxi_occurrences inp)]) s1
          in (and_then r (\<lambda>results. Inr (series, results)), s2))"

text \<open>internal/domain/session/service.go.\<close>

definition service_create_session ::
    "txgen \<Rightarrow> uuid \<Rightarrow> uuid \<Rightarrow> session_create_input \<Rightarrow> db \<Rightarrow> (repo_error + session) \<times> db" where
  "service_create_session = session_create"
definition service_get_session :: "uuid \<Rightarrow> uuid \<Rightarrow> db \<Rightarrow> repo_error + session" where
  "service_get_session = session_get"
definition service_list_sessions :: "uuid \<Rightarrow> nat \<Rightarrow> cursor option \<Rightarrow> db \<Rightarrow> repo_error + session_page" where
  "service_list_sessions = session_list"
definition service_update_session ::
    "txgen \<Rightarrow> uuid \<Rightarrow> uuid \<Rightarrow> uuid \<Rightarrow> int \<Rightarrow> session_patch \<Rightarrow> db \<Rightarrow> (repo_error + session) \<times> db" where
  "service_update_session = session_update"
definition service_delete_session ::
    "txgen \<Rightarrow> uuid \<Rightarrow> uuid \<Rightarrow> uuid \<Rightarrow> int \<Rightarrow> db \<Rightarrow> (repo_error + session) \<times> db" where
  "service_delete_session = session_delete"
definition service_create_series ::
    "txgen \<Rightarrow> (nat \<Rightarrow> txgen) \<Rightarrow> uuid \<Rightarrow> uuid \<Rightarrow> series_create_input \<Rightarrow> db \<Rightarrow>
     (repo_error + (series \<times> series_occurrence_result list)) \<times> db" where
  "service_create_series = session_create_series"

section \<open>What a success did\<close>

lemma find_session_Some:
  "find_session ev k s = Some x \<longleftrightarrow> lookup_row sr_id k (t_sessions s) = Some x \<and> sr_event_id x = ev \<and> live x"
  by (auto simp: find_session_def split: option.splits if_splits)

lemma find_session_in:
  "find_session ev k s = Some x \<Longrightarrow> x \<in> set (t_sessions s) \<and> sr_id x = k \<and> sr_event_id x = ev \<and> live x"
  using lookup_row_Some by (fastforce simp: find_session_Some)

lemma session_create_Inr:
  "session_create g actorID ev inp s = (Inr r, s') \<longleftrightarrow>
     (\<exists>rm s1. find_room ev (sci_room_id inp) s = Some rm \<and> r = toSession (new_session_row g ev inp) \<and>
        insert_session (new_session_row g ev inp) s = Inr s1 \<and>
        insert_audit (audit (g_audit_id g) actorID ''session'' (g_id g) ''create'' None
          (Some (SSession (new_session_row g ev inp)))) s1 = Inr s')"
  by (auto simp: session_create_def Let_def and_then_Inr_iff new_session_row_def split: option.splits sum.splits)

lemma session_versioned_write_Inr:
  "session_versioned_write g actorID ev k v action upd s = (Inr r, s') \<longleftrightarrow>
     (\<exists>old s1 s2. find_session ev k s = Some old \<and> sr_version old = v \<and> r = toSession (upd old) \<and>
        replace_session (upd old) s = Inr s1 \<and>
        insert_audit (audit (g_audit_id g) actorID ''session'' k action (Some (SSession old))
          (Some (SSession (upd old)))) s1 = Inr s2 \<and>
        (case sr_series_id (upd old) of None \<Rightarrow> s' = s2
         | Some series \<Rightarrow> insert_exception (session_exception g action old series) s2 = Inr s'))"
  by (auto simp: session_versioned_write_def Let_def and_then_Inr_iff split: option.splits if_splits)

lemma session_create_fail: "session_create g actorID ev inp s = (Inl e, s') \<Longrightarrow> s' = s"
  by (simp add: session_create_def)

lemma session_versioned_write_fail:
  "session_versioned_write g actorID ev k v action upd s = (Inl e, s') \<Longrightarrow> s' = s"
  by (simp add: session_versioned_write_def)

lemma session_create_ok:
  assumes "db_ok ci s" "session_create g a ev inp s = (r, s')"
  shows "db_ok ci s'"
proof (cases r)
  case (Inl e)
  then show ?thesis using assms session_create_fail by blast
next
  case (Inr e)
  then show ?thesis
    using assms unfolding Inr session_create_Inr
    by (elim exE conjE) ((erule stmt_ok_back)+, assumption)
qed

text \<open>The two updates keep a session's id, its event, room, speaker and series, and count versions.\<close>

definition session_kept :: "(session_row \<Rightarrow> session_row) \<Rightarrow> bool" where
  "session_kept upd = (\<forall>x. sr_id (upd x) = sr_id x \<and> sr_event_id (upd x) = sr_event_id x \<and>
     sr_room_id (upd x) = sr_room_id x \<and> sr_speaker_id (upd x) = sr_speaker_id x \<and>
     sr_series_id (upd x) = sr_series_id x \<and> sr_version (upd x) = sr_version x + 1)"

lemma session_kept_set: "session_kept (session_set g patch)"
  by (simp add: session_kept_def session_set_def Let_def)

lemma session_kept_cancel: "session_kept (session_cancel g)"
  by (simp add: session_kept_def session_cancel_def)

lemma session_versioned_write_ok:
  assumes "db_ok ci s" "session_versioned_write g a ev k v action upd s = (r, s')" "session_kept upd"
  shows "db_ok ci s'"
proof (cases r)
  case (Inl e)
  then show ?thesis using assms session_versioned_write_fail by blast
next
  case (Inr e)
  then obtain old s1 s2 where old: "find_session ev k s = Some old"
    and r: "replace_session (upd old) s = Inr s1"
    and au: "insert_audit (audit (g_audit_id g) a ''session'' k action (Some (SSession old))
          (Some (SSession (upd old)))) s1 = Inr s2"
    and ex: "case sr_series_id (upd old) of None \<Rightarrow> s' = s2
         | Some series \<Rightarrow> insert_exception (session_exception g action old series) s2 = Inr s'"
    using assms(2) session_versioned_write_Inr by blast
  have "session_refs_ok (user_ids s) (event_ids s) (room_ids s) (series_ids s) old"
    using find_session_in [OF old] db_okD(5) [OF assms(1)] by (simp add: sessions_ok_def)
  then have "session_refs_ok (user_ids s) (event_ids s) (room_ids s) (series_ids s) (upd old)"
    using assms(3) r by (simp add: session_refs_ok_def session_kept_def replace_session_Inr)
  then have "db_ok ci s1" using replace_session_ok [OF assms(1) r] by simp
  then have "db_ok ci s2" using au insert_audit_ok by blast
  then show ?thesis using ex insert_exception_ok by (cases "sr_series_id (upd old)") auto
qed

lemma session_update_ok: "db_ok ci s \<Longrightarrow> session_update g a ev k v patch s = (r, s') \<Longrightarrow> db_ok ci s'"
  unfolding session_update_def by (rule session_versioned_write_ok [OF _ _ session_kept_set])

lemma session_delete_ok: "db_ok ci s \<Longrightarrow> session_delete g a ev k v s = (r, s') \<Longrightarrow> db_ok ci s'"
  unfolding session_delete_def by (rule session_versioned_write_ok [OF _ _ session_kept_cancel])

section \<open>The versioned-write contract\<close>

datatype session_write_op = SUpdate txgen uuid session_patch | SDelete txgen uuid

fun session_write :: "session_write_op \<Rightarrow> uuid \<times> uuid \<Rightarrow> int \<Rightarrow> db \<Rightarrow> (repo_error + session) \<times> db" where
  "session_write (SUpdate g actorID patch) (ev, k) v s = session_update g actorID ev k v patch s"
| "session_write (SDelete g actorID) (ev, k) v s = session_delete g actorID ev k v s"

definition session_version :: "db \<Rightarrow> uuid \<times> uuid \<Rightarrow> int option" where
  "session_version s k = map_option sr_version (find_session (fst k) (snd k) s)"

lemma session_write_cases:
  obtains g actorID action upd where
    "\<And>s. session_write a (ev, k) v s = session_versioned_write g actorID ev k v action upd s" "session_kept upd"
proof (cases a)
  case (SUpdate g actorID patch)
  show ?thesis
    by (rule that [of g actorID "''update''" "session_set g patch"])
      (simp_all add: SUpdate session_update_def session_kept_set)
next
  case (SDelete g actorID)
  show ?thesis
    by (rule that [of g actorID "''delete''" "session_cancel g"])
      (simp_all add: SDelete session_delete_def session_kept_cancel)
qed

lemma session_write_rows:
  assumes "session_versioned_write g actorID ev k v action upd s = (Inr r, s')" "session_kept upd"
  obtains old where "find_session ev k s = Some old" "sr_version old = v" "sr_id old = k" "sr_event_id old = ev"
    "t_sessions s' = put_row sr_id (upd old) (t_sessions s)" "t_rooms s' = t_rooms s"
    "\<And>j. lookup_row sr_id j (t_sessions s') = (if j = k then Some (upd old) else lookup_row sr_id j (t_sessions s))"
proof -
  obtain old where old: "find_session ev k s = Some old" "sr_version old = v"
    and xs: "t_sessions s' = put_row sr_id (upd old) (t_sessions s)" "t_rooms s' = t_rooms s"
    using assms(1) by (auto simp: session_versioned_write_Inr stmt_Inr split: option.splits)
  have "lookup_row sr_id k (t_sessions s) = Some old" "sr_id old = k" "sr_event_id old = ev"
    using old(1) find_session_in [OF old(1)] by (simp_all add: find_session_Some)
  then show ?thesis using that [of old] old xs assms(2) by (simp add: lookup_put_row session_kept_def)
qed

interpretation session_versioned: versioned_write session_version session_write "db_ok ci"
proof
  fix s a v and v' :: int and e :: repo_error and r :: session and s' and k k' :: "uuid \<times> uuid"
  obtain ev j where k: "k = (ev, j)" by (cases k)
  obtain ev' j' where k': "k' = (ev', j')" by (cases k')
  obtain g actorID action upd where w:
    "\<And>s. session_write a k v s = session_versioned_write g actorID ev j v action upd s" "session_kept upd"
    using session_write_cases [of a ev j v] k by blast
  show "session_version s k = None \<Longrightarrow> session_write a k v s = (Inl ErrNotFound, s)"
    unfolding w(1) by (auto simp: k session_version_def session_versioned_write_def)
  show "session_version s k = Some v' \<Longrightarrow> v' \<noteq> v \<Longrightarrow> session_write a k v s = (Inl ErrVersionMismatch, s)"
    unfolding w(1) by (auto simp: k session_version_def session_versioned_write_def)
  show "session_write a k v s = (Inl e, s') \<Longrightarrow> s' = s"
    unfolding w(1) by (rule session_versioned_write_fail)
  show "session_write a k v s = (Inr r, s') \<Longrightarrow> session_version s' k = None \<or> session_version s' k = Some (v + 1)"
    unfolding w(1) by (erule session_write_rows [OF _ w(2)])
      (use w(2) in \<open>auto simp: k session_version_def find_session_def session_kept_def\<close>)
  show "session_write a k v s = (Inr r, s') \<Longrightarrow> k' \<noteq> k \<Longrightarrow> session_version s' k' = session_version s k'"
    unfolding w(1) by (erule session_write_rows [OF _ w(2)], cases "j' = j")
      (use w(2) in \<open>auto simp: k k' session_version_def find_session_def session_kept_def find_session_Some split: option.splits\<close>)
  show "db_ok ci s \<Longrightarrow> session_write a k v s = (Inr r, s') \<Longrightarrow> db_ok ci s'"
    unfolding w(1) by (rule session_versioned_write_ok [OF _ _ w(2)])
qed

section \<open>The List contract\<close>

lemma session_list_rows_eq:
  assumes "db_ok ci s"
  shows "session_list_rows eventID s =
     map (\<lambda>x. listed_session x (the (lookup_row rr_id (sr_room_id x) (t_rooms s)))
                (the (lookup_row usr_id (sr_speaker_id x) (t_users s))))
       (filter (\<lambda>x. sr_event_id x = eventID \<and> live x) (t_sessions s))"
proof -
  let ?P = "\<lambda>x. sr_event_id x = eventID \<and> live x"
  let ?xs = "map (\<lambda>x. (x, the (lookup_row rr_id (sr_room_id x) (t_rooms s)))) (filter ?P (t_sessions s))"
  have "distinct (map rr_id (t_rooms s))" "\<forall>x \<in> set (t_sessions s). ?P x \<longrightarrow> sr_room_id x \<in> room_ids s"
    using db_okD(4,5) [OF assms] by (auto simp: rooms_ok_def sessions_ok_def session_refs_ok_def)
  note 1 = join_rows [OF this, of Pair]
  have "distinct (map usr_id (t_users s))" "\<forall>p \<in> set ?xs. True \<longrightarrow> sr_speaker_id (fst p) \<in> user_ids s"
    using db_okD(1,5) [OF assms] by (auto simp: users_ok_def sessions_ok_def session_refs_ok_def)
  note 2 = join_rows [OF this, of "\<lambda>p u. listed_session (fst p) (snd p) u"]
  show ?thesis unfolding session_list_rows_def 1
    using 2 by (simp add: split_def comp_def)
qed

definition session_list_pairs :: "uuid \<Rightarrow> nat \<Rightarrow> cursor option \<Rightarrow> db \<Rightarrow> repo_error + (session list \<times> cursor option)" where
  "session_list_pairs eventID limit after s =
     map_sum id (\<lambda>p. (spg_sessions p, spg_next_cursor p)) (session_list eventID limit after s)"

interpretation session_listing: keyset_list "session_list_pairs eventID" "session_list_rows eventID" session_key "db_ok ci"
proof
  fix s limit after
  assume ok: "db_ok ci s"
  show "session_list_pairs eventID limit after s = list_page session_key limit after (session_list_rows eventID s)"
    by (cases "list_page session_key limit after (session_list_rows eventID s)")
      (auto simp: session_list_pairs_def session_list_def)
  have "distinct (map sr_id (filter P (t_sessions s)))" for P
    using db_okD(5) [OF ok] by (simp add: sessions_ok_def distinct_map_filter)
  then have "distinct (map se_id (session_list_rows eventID s))"
    by (simp add: session_list_rows_eq [OF ok] listed_session_def toSession_def comp_def)
  then show "distinct (map session_key (session_list_rows eventID s))"
    by (auto simp: session_key_def distinct_map inj_on_def)
qed

section \<open>Booking\<close>

text \<open>Which errors Create reports, in the order it checks.\<close>

lemma session_create_invalid_room:
  "find_room ev (sci_room_id inp) s = None \<Longrightarrow> session_create g a ev inp s = (Inl ErrInvalidRoom, s)"
  by (simp add: session_create_def in_tx_def)

lemma session_create_ErrInvalidRoom:
  "session_create g a ev inp s = (Inl ErrInvalidRoom, s') \<Longrightarrow> find_room ev (sci_room_id inp) s = None"
proof -
  have "session_create_error e \<noteq> ErrInvalidRoom" for e by (cases e) auto
  moreover assume "session_create g a ev inp s = (Inl ErrInvalidRoom, s')"
  ultimately show ?thesis
    by (auto simp: session_create_def Let_def and_then_Inl_iff wrap_pg_Inl_iff split: option.splits sum.splits)
qed

lemma session_create_ErrConflict:
  assumes "session_create g a ev inp s = (Inl ErrConflict, s')"
  shows "excluded_by sr_room_id (new_session_row g ev inp) (t_sessions s) \<or>
         excluded_by sr_speaker_id (new_session_row g ev inp) (t_sessions s)"
proof -
  have "session_create_error e = ErrConflict \<Longrightarrow> \<exists>c. e = ExclusionViolation c" for e
    by (cases e) (auto split: if_splits)
  then obtain c where "insert_session (new_session_row g ev inp) s = Inl (ExclusionViolation c)"
    using assms
    by (auto simp: session_create_def Let_def and_then_Inl_iff wrap_pg_Inl_iff split: option.splits sum.splits)
  then show ?thesis
    by (auto simp: insert_session_def range_error_def split: if_splits)
qed

text \<open>A request that names existing things and a proper slot is booked unless the slot is taken.\<close>

lemma session_create_books:
  assumes "find_room ev (sci_room_id inp) s = Some rm"
    and "pg_time (sci_starts_at inp) < pg_time (sci_ends_at inp)"
    and "g_id g \<notin> session_ids s" "g_audit_id g \<notin> au_id ` set (t_audit s)"
    and "ev \<in> event_ids s" "sci_speaker_id inp \<in> user_ids s" "a \<in> user_ids s" "set_option (sci_series_id inp) \<subseteq> series_ids s"
    and "\<not> excluded_by sr_room_id (new_session_row g ev inp) (t_sessions s)"
    and "\<not> excluded_by sr_speaker_id (new_session_row g ev inp) (t_sessions s)"
  shows "\<exists>s'. session_create g a ev inp s = (Inr (toSession (new_session_row g ev inp)), s')"
proof -
  let ?r = "new_session_row g ev inp"
  have "sci_room_id inp \<in> room_ids s" using find_room_in [OF assms(1)] imageI [of rm "set (t_rooms s)" rr_id] by simp
  then have 1: "insert_session ?r s = Inr (s\<lparr>t_sessions := t_sessions s @ [?r]\<rparr>)"
    using assms by (simp add: insert_session_Inr new_session_row_def)
  have "\<exists>s'. insert_audit (audit (g_audit_id g) a ''session'' (g_id g) ''create'' None (Some (SSession ?r)))
      (s\<lparr>t_sessions := t_sessions s @ [?r]\<rparr>) = Inr s'"
    using assms(4,7) by (simp add: insert_audit_Inr audit_def)
  then show ?thesis using 1 assms(1) by (simp add: session_create_Inr)
qed

text \<open>versionedWrite has no case for \<open>exclusionViolation\<close>: a taken slot is a wrapped error there.\<close>

lemma session_update_taken:
  assumes "find_session ev k s = Some old" "sr_version old = v"
    and "sr_starts_at (session_set g patch old) < sr_ends_at (session_set g patch old)"
    and "excluded_by sr_room_id (session_set g patch old) (t_sessions s)"
  shows "session_update g a ev k v patch s = (Inl (ErrOther (Pg (ExclusionViolation ''sessions_room_no_overlap_excl''))), s)"
proof -
  have "replace_session (session_set g patch old) s = Inl (ExclusionViolation ''sessions_room_no_overlap_excl'')"
    using assms(3,4) by (simp add: replace_session_def flip: range_error_None)
  then show ?thesis
    using assms(1,2) by (simp add: session_update_def session_versioned_write_def in_tx_def wrap_pg_def)
qed

lemma session_update_no_conflict: "session_update g a ev k v patch s \<noteq> (Inl ErrConflict, s')"
  by (auto simp: session_update_def session_versioned_write_def Let_def and_then_Inl_iff wrap_pg_Inl_iff
      split: option.splits if_splits)

text \<open>A cancelled session never excludes a slot.\<close>

lemma session_delete_frees:
  assumes "db_ok ci s" "session_delete g a ev k v s = (Inr r, s')" "excluded_by res x (t_sessions s')"
  shows "\<exists>y \<in> set (t_sessions s). live y \<and> sr_id y \<noteq> k \<and> res y = res x \<and> overlaps y x"
proof -
  have w: "session_versioned_write g a ev k v ''delete'' (session_cancel g) s = (Inr r, s')"
    using assms(2) by (simp add: session_delete_def)
  show ?thesis
  proof (rule session_write_rows [OF w session_kept_cancel])
    fix old
    assume xs: "t_sessions s' = put_row sr_id (session_cancel g old) (t_sessions s)" and k: "sr_id old = k"
    obtain y where y: "y \<in> set (t_sessions s')" "live y" "res y = res x" "overlaps y x"
      using assms(3) by (auto simp: excluded_by_def)
    then have "y \<noteq> session_cancel g old" by (auto simp: live_def session_cancel_def)
    moreover have "sr_id (session_cancel g old) = k" using k by (simp add: session_cancel_def)
    moreover note y(1) [unfolded xs]
    ultimately have "y \<in> set (t_sessions s)" "sr_id y \<noteq> k"
      using key_in_put_row [of y sr_id "session_cancel g old" "t_sessions s"]
        set_put_row_subset [of sr_id "session_cancel g old" "t_sessions s"]
      by (auto simp add: subset_iff)
    then show ?thesis using y by blast
  qed
qed

section \<open>Series\<close>

lemma materialize_ok:
  "db_ok ci s \<Longrightarrow> materialize a ev items s = (r, s') \<Longrightarrow> db_ok ci s'"
proof (induction items arbitrary: s r s')
  case (Cons item items)
  obtain g inp where item: "item = (g, inp)" by (cases item)
  obtain r1 s1 where 1: "session_create g a ev inp s = (r1, s1)" by fastforce
  obtain r2 s2 where 2: "materialize a ev items s1 = (r2, s2)" by fastforce
  have "db_ok ci s1" using session_create_ok [OF Cons.prems(1) 1] .
  moreover have "db_ok ci s2" using Cons.IH [OF \<open>db_ok ci s1\<close> 2] .
  moreover have "s' = s1 \<or> s' = s2"
    using Cons.prems(2) 1 2 by (auto simp: item Let_def split: sum.splits repo_error.splits)
  ultimately show ?case by auto
qed simp

lemma session_create_series_ok:
  assumes "db_ok ci s" "session_create_series g gs a ev inp s = (r, s')"
  shows "db_ok ci s'"
proof (cases "insert_series (new_series g ev inp) s")
  case (Inl e)
  then show ?thesis using assms by (simp add: session_create_series_def Let_def)
next
  case (Inr s1)
  then have "db_ok ci s1" using assms(1) insert_series_ok by blast
  then show ?thesis
    using assms(2) Inr materialize_ok
    by (auto simp: session_create_series_def Let_def split: prod.splits)
qed

text \<open>
  What a finished loop did: one result per occurrence, in order; the sessions of the occurrences
  reported \<open>created\<close>, and nothing else, were appended; the slot of one reported
  \<open>conflict\<close> is taken by a session of the final table.
\<close>

definition booked :: "uuid \<Rightarrow> (txgen \<times> session_create_input) \<times> series_occurrence_result \<Rightarrow> session_row list" where
  "booked ev p = (case p of ((g, inp), res) \<Rightarrow>
     if sor_status res = ''created'' then [new_session_row g ev inp] else [])"

definition slot_taken :: "session_row \<Rightarrow> session_row list \<Rightarrow> bool" where
  "slot_taken x ss = (\<exists>y \<in> set ss. live y \<and> overlaps y x \<and>
     (sr_room_id y = sr_room_id x \<or> sr_speaker_id y = sr_speaker_id x))"

definition occurrence_reported :: "uuid \<Rightarrow> session_row list \<Rightarrow> txgen \<times> session_create_input \<Rightarrow> series_occurrence_result \<Rightarrow> bool" where
  "occurrence_reported ev ss item res = (sor_starts_at res = sci_starts_at (snd item) \<and>
     (sor_status res = ''created'' \<and> sor_session_id res = Some (g_id (fst item)) \<or>
      sor_status res = ''conflict'' \<and> sor_session_id res = None \<and>
      slot_taken (new_session_row (fst item) ev (snd item)) ss))"

lemma occurrence_reported_mono:
  "occurrence_reported ev ss item res \<Longrightarrow> set ss \<subseteq> set ss' \<Longrightarrow> occurrence_reported ev ss' item res"
  by (auto simp: occurrence_reported_def slot_taken_def)

lemma booked_simps [simp]:
  "booked ev ((g, inp), res) = (if sor_status res = ''created'' then [new_session_row g ev inp] else [])"
  by (simp add: booked_def)

lemma session_create_appends:
  "session_create g a ev inp s = (Inr r, s') \<Longrightarrow>
     t_sessions s' = t_sessions s @ [new_session_row g ev inp] \<and> se_id r = g_id g"
  by (auto simp: session_create_Inr stmt_Inr toSession_def new_session_row_def)

lemma session_create_conflict_taken:
  assumes "session_create g a ev inp s = (Inl ErrConflict, s')"
  shows "slot_taken (new_session_row g ev inp) (t_sessions s)"
  using session_create_ErrConflict [OF assms] unfolding excluded_by_def slot_taken_def by blast

lemma materialize_reports:
  assumes "materialize a ev items s = (Inr rs, s')"
  shows "t_sessions s' = t_sessions s @ concat (map (booked ev) (zip items rs)) \<and>
         list_all2 (occurrence_reported ev (t_sessions s')) items rs"
  using assms
proof (induction items arbitrary: s rs)
  case (Cons item items)
  obtain g inp where item: "item = (g, inp)" by (cases item)
  obtain r1 s1 where 1: "session_create g a ev inp s = (r1, s1)" by fastforce
  obtain r2 s2 where 2: "materialize a ev items s1 = (r2, s2)" by fastforce
  from Cons.prems 1 2 obtain res rest where rs: "rs = res # rest" and r2: "r2 = Inr rest" and s': "s' = s2"
    and res: "(\<exists>c. r1 = Inr c \<and> res = \<lparr>sor_starts_at = sci_starts_at inp, sor_status = ''created'', sor_session_id = Some (se_id c)\<rparr>) \<or>
       r1 = Inl ErrConflict \<and> res = \<lparr>sor_starts_at = sci_starts_at inp, sor_status = ''conflict'', sor_session_id = None\<rparr>"
    by (auto simp: item Let_def and_then_Inr_iff split: sum.splits repo_error.splits)
  have IH: "t_sessions s' = t_sessions s1 @ concat (map (booked ev) (zip items rest))"
    "list_all2 (occurrence_reported ev (t_sessions s')) items rest"
    using Cons.IH [of s1 rest] 2 r2 s' by auto
  from res show ?case
  proof
    assume "\<exists>c. r1 = Inr c \<and> res = \<lparr>sor_starts_at = sci_starts_at inp, sor_status = ''created'', sor_session_id = Some (se_id c)\<rparr>"
    then obtain c where c: "r1 = Inr c" and res: "res = \<lparr>sor_starts_at = sci_starts_at inp, sor_status = ''created'', sor_session_id = Some (se_id c)\<rparr>"
      by blast
    then have "t_sessions s1 = t_sessions s @ [new_session_row g ev inp]" and se: "se_id c = g_id g"
      using session_create_appends 1 by blast+
    moreover have "occurrence_reported ev (t_sessions s') item res"
      using se by (simp add: occurrence_reported_def item res)
    ultimately show ?thesis using IH by (simp add: rs item res)
  next
    assume c: "r1 = Inl ErrConflict \<and> res = \<lparr>sor_starts_at = sci_starts_at inp, sor_status = ''conflict'', sor_session_id = None\<rparr>"
    then have "s1 = s" "slot_taken (new_session_row g ev inp) (t_sessions s)"
      using 1 session_create_fail session_create_conflict_taken by blast+
    then have "occurrence_reported ev (t_sessions s) item res"
      using c by (simp add: item occurrence_reported_def)
    then have "occurrence_reported ev (t_sessions s') item res"
      by (rule occurrence_reported_mono) (simp add: IH(1) \<open>s1 = s\<close>)
    then show ?thesis using IH c by (simp add: rs item \<open>s1 = s\<close>)
  qed
qed simp

text \<open>The occurrences are evenly spaced as long as the offset fits an \<open>int64\<close>.\<close>

definition day_ns :: int where
  "day_ns = 86400000000000"

definition step_days :: "series_create_input \<Rightarrow> int" where
  "step_days inp = (if sxi_freq inp = ''weekly'' then 7 * sxi_interval_count inp else sxi_interval_count inp)"

lemma series_step_days: "series_step inp = word_of_int (step_days inp * day_ns)"
  by (simp add: series_step_def Let_def step_days_def day_ns_def algebra_simps flip: wi_hom_mult)

lemma sint_word_of_int_small:
  "- (2 ^ 63) \<le> x \<Longrightarrow> x < 2 ^ 63 \<Longrightarrow> sint (word_of_int x :: 64 word) = x"
  by (simp add: sint_sbintrunc' signed_take_bit_int_eq_self)

lemma occurrence_start_even:
  assumes "0 \<le> step_days inp" "int i * step_days inp \<le> 106751"
  shows "occurrence_start inp i = sxi_first_starts_at inp + int i * step_days inp * day_ns"
proof -
  have "of_nat i * series_step inp = (word_of_int (int i * step_days inp * day_ns) :: 64 word)"
    unfolding series_step_days by (simp add: mult.assoc flip: wi_hom_mult)
  moreover have "sint (word_of_int (int i * step_days inp * day_ns) :: 64 word) = int i * step_days inp * day_ns"
  proof -
    have "- (2 ^ 63) \<le> n * day_ns \<and> n * day_ns < 2 ^ 63" if "0 \<le> n" "n \<le> 106751" for n
      using that by (simp add: day_ns_def)
    from this [OF _ assms(2)] show ?thesis using assms(1) by (intro sint_word_of_int_small) simp_all
  qed
  ultimately show ?thesis by (simp add: occurrence_start_def)
qed

text \<open>
  The series row is written before and outside the loop: when the loop stops on an error, the row
  and the occurrences booked so far stay.
\<close>

lemma session_create_series_keeps_row:
  assumes "insert_series (new_series g ev inp) s = Inr s1"
  shows "g_id g \<in> series_ids (snd (session_create_series g gs a ev inp s))"
proof -
  have keep: "t_series s3 = t_series s2" if "materialize a ev items s2 = (r, s3)" for items s2 r s3
    using that
  proof (induction items arbitrary: s2 r s3)
    case (Cons item items)
    obtain h inp where item: "item = (h, inp)" by (cases item)
    obtain r1 t1 where 1: "session_create h a ev inp s2 = (r1, t1)" by fastforce
    obtain r2 t2 where 2: "materialize a ev items t1 = (r2, t2)" by fastforce
    have "t_series t1 = t_series s2"
      using 1 session_create_fail [of h a ev inp s2 _ t1]
      by (cases r1) (auto simp: session_create_Inr stmt_Inr)
    moreover have "t_series t2 = t_series t1" using Cons.IH [OF 2] .
    moreover have "s3 = t1 \<or> s3 = t2"
      using Cons.prems 1 2 by (auto simp: item Let_def split: sum.splits repo_error.splits)
    ultimately show ?case by auto
  qed simp
  have "g_id g \<in> series_ids s1" using assms by (auto simp: insert_series_Inr new_series_def)
  then show ?thesis
    using assms keep by (auto simp: session_create_series_def Let_def split: prod.splits)
qed

end
