(* ===== verification/Civil.thy ===== *)
theory Civil
  imports Prelude
begin

text \<open>
  The proleptic Gregorian calendar as Go's package time computes it: days are counted from
  0001-01-01. \<open>civil\<close> inverts \<open>days_of\<close> by 400-, 100-, 4- and 1-year cycles. Local_Time
  and Cursor_Text print and parse instants with it.
\<close>

definition is_leap :: "int \<Rightarrow> bool" where
  "is_leap y = (y mod 4 = 0 \<and> (y mod 100 \<noteq> 0 \<or> y mod 400 = 0))"

definition days_in :: "int \<Rightarrow> int \<Rightarrow> int" where
  "days_in m y = (if m = 2 then (if is_leap y then 29 else 28)
     else if m \<in> {4, 6, 9, 11} then 30 else 31)"

text \<open>The days of the year that precede month \<open>m\<close>.\<close>

definition days_before :: "int \<Rightarrow> int \<Rightarrow> int" where
  "days_before m y =
     (let l = (if is_leap y then 1 else 0) in
      if m \<le> 1 then 0 else if m = 2 then 31 else if m = 3 then 59 + l else if m = 4 then 90 + l
      else if m = 5 then 120 + l else if m = 6 then 151 + l else if m = 7 then 181 + l
      else if m = 8 then 212 + l else if m = 9 then 243 + l else if m = 10 then 273 + l
      else if m = 11 then 304 + l else 334 + l)"

definition year_days :: "int \<Rightarrow> int" where
  "year_days y = 365 * (y - 1) + (y - 1) div 4 - (y - 1) div 100 + (y - 1) div 400"

definition days_of :: "int \<Rightarrow> int \<Rightarrow> int \<Rightarrow> int" where
  "days_of y m d = year_days y + days_before m y + (d - 1)"

definition year_split :: "int \<Rightarrow> int \<times> int" where
  "year_split n =
     (let c = n div 146097; r = n mod 146097;
          h = min 3 (r div 36524); r = r - 36524 * h;
          q = r div 1461; r = r mod 1461;
          y = min 3 (r div 365)
      in (400 * c + 100 * h + 4 * q + y + 1, r - 365 * y))"

definition month_split :: "int \<Rightarrow> int \<Rightarrow> int \<times> int" where
  "month_split y n =
     (let m = (if n < days_before 2 y then 1 else if n < days_before 3 y then 2
               else if n < days_before 4 y then 3 else if n < days_before 5 y then 4
               else if n < days_before 6 y then 5 else if n < days_before 7 y then 6
               else if n < days_before 8 y then 7 else if n < days_before 9 y then 8
               else if n < days_before 10 y then 9 else if n < days_before 11 y then 10
               else if n < days_before 12 y then 11 else 12)
      in (m, n - days_before m y + 1))"

definition civil :: "int \<Rightarrow> int \<times> int \<times> int" where
  "civil n = (let (y, r) = year_split n in (y, month_split y r))"

definition valid_date :: "int \<Rightarrow> int \<Rightarrow> int \<Rightarrow> bool" where
  "valid_date y m d = (1 \<le> m \<and> m \<le> 12 \<and> 1 \<le> d \<and> d \<le> days_in m y)"

lemma months: "1 \<le> m \<Longrightarrow> m \<le> 12 \<Longrightarrow> m \<in> {1, 2, 3, 4, 5, 6, 7, 8, 9, 10, 11, 12 :: int}"
  by (simp, presburger)

lemma div_mod_eq: "z = k * x + r \<Longrightarrow> 0 \<le> r \<Longrightarrow> r < k \<Longrightarrow> z div k = x \<and> z mod k = (r :: int)"
  by auto

lemma days_before_step:
  "1 \<le> m \<Longrightarrow> m \<le> 12 \<Longrightarrow>
     days_before m y + days_in m y = (if m = 12 then 365 + (if is_leap y then 1 else 0) else days_before (m + 1) y)"
proof -
  assume "1 \<le> m" "m \<le> 12"
  then have "m \<in> {1, 2, 3, 4, 5, 6, 7, 8, 9, 10, 11, 12}" by (rule months)
  then show ?thesis by (auto simp: days_before_def days_in_def Let_def)
qed

lemma days_before_leap:
  assumes "is_leap y"
  shows "days_before 1 y = 0" "days_before 2 y = 31" "days_before 3 y = 60"
    "days_before 4 y = 91" "days_before 5 y = 121" "days_before 6 y = 152"
    "days_before 7 y = 182" "days_before 8 y = 213" "days_before 9 y = 244"
    "days_before 10 y = 274" "days_before 11 y = 305" "days_before 12 y = 335"
  using assms by (simp_all add: days_before_def)

lemma days_before_common:
  assumes "\<not> is_leap y"
  shows "days_before 1 y = 0" "days_before 2 y = 31" "days_before 3 y = 59"
    "days_before 4 y = 90" "days_before 5 y = 120" "days_before 6 y = 151"
    "days_before 7 y = 181" "days_before 8 y = 212" "days_before 9 y = 243"
    "days_before 10 y = 273" "days_before 11 y = 304" "days_before 12 y = 334"
  using assms by (simp_all add: days_before_def)

lemma month_split_days:
  assumes "valid_date y m d"
  shows "month_split y (days_before m y + (d - 1)) = (m, d)"
proof -
  have "m \<in> {1, 2, 3, 4, 5, 6, 7, 8, 9, 10, 11, 12}" using assms by (intro months) (simp_all add: valid_date_def)
  moreover have "1 \<le> d" "d \<le> days_in m y" using assms by (simp_all add: valid_date_def)
  ultimately show ?thesis
    by (cases "is_leap y"; elim insertE emptyE)
      (simp_all add: month_split_def Let_def days_before_leap days_before_common days_in_def)
qed

lemma month_split_valid:
  assumes "0 \<le> n" "n < 365 + (if is_leap y then 1 else 0)" "month_split y n = (m, d)"
  shows "valid_date y m d \<and> days_before m y + (d - 1) = n"
proof (cases "is_leap y")
  case True
  note v = days_before_leap [OF this]
  have "n < 31 \<or> 31 \<le> n \<and> n < 60 \<or> 60 \<le> n \<and> n < 91 \<or> 91 \<le> n \<and> n < 121 \<or> 121 \<le> n \<and> n < 152 \<or> 152 \<le> n \<and> n < 182 \<or> 182 \<le> n \<and> n < 213 \<or> 213 \<le> n \<and> n < 244 \<or> 244 \<le> n \<and> n < 274 \<or> 274 \<le> n \<and> n < 305 \<or> 305 \<le> n \<and> n < 335 \<or> 335 \<le> n"
    by linarith
  then show ?thesis using assms True
    by (elim disjE) (auto simp: month_split_def Let_def v valid_date_def days_in_def)
next
  case False
  note v = days_before_common [OF this]
  have "n < 31 \<or> 31 \<le> n \<and> n < 59 \<or> 59 \<le> n \<and> n < 90 \<or> 90 \<le> n \<and> n < 120 \<or> 120 \<le> n \<and> n < 151 \<or> 151 \<le> n \<and> n < 181 \<or> 181 \<le> n \<and> n < 212 \<or> 212 \<le> n \<and> n < 243 \<or> 243 \<le> n \<and> n < 273 \<or> 273 \<le> n \<and> n < 304 \<or> 304 \<le> n \<and> n < 334 \<or> 334 \<le> n"
    by linarith
  then show ?thesis using assms False
    by (elim disjE) (auto simp: month_split_def Let_def v valid_date_def days_in_def)
qed

lemma day_of_year_range:
  assumes "valid_date y m d"
  shows "0 \<le> days_before m y + (d - 1) \<and> days_before m y + (d - 1) < 365 + (if is_leap y then 1 else 0)"
proof -
  have "m \<in> {1, 2, 3, 4, 5, 6, 7, 8, 9, 10, 11, 12}" using assms by (intro months) (simp_all add: valid_date_def)
  then show ?thesis using assms
    by (auto simp: days_before_def valid_date_def days_in_def Let_def)
qed

text \<open>
  A year and the day in it, by the position of the year in the four cycles: \<open>c\<close> cycles of 400
  years, \<open>h\<close> centuries, \<open>q\<close> cycles of four years and \<open>e\<close> years.
\<close>

lemma year_cycles:
  assumes "0 \<le> h" "h \<le> 3" "0 \<le> q" "q \<le> 24" "0 \<le> e" "e \<le> 3"
  shows "year_days (400 * c + 100 * h + 4 * q + e + 1) = 146097 * c + 36524 * h + 1461 * q + 365 * e"
    and "is_leap (400 * c + 100 * h + 4 * q + e + 1) \<longleftrightarrow> e = 3 \<and> (q \<noteq> 24 \<or> h = 3)"
proof -
  let ?z = "400 * c + 100 * h + 4 * q + e"
  have "?z = 4 * (100 * c + 25 * h + q) + e" "?z = 100 * (4 * c + h) + (4 * q + e)" "?z = 400 * c + (100 * h + 4 * q + e)"
    by simp_all
  note d = div_mod_eq [OF this(1)] div_mod_eq [OF this(2)] div_mod_eq [OF this(3)]
  have "?z div 4 = 100 * c + 25 * h + q" "?z div 100 = 4 * c + h" "?z div 400 = c"
    using d assms by auto
  then show "year_days (?z + 1) = 146097 * c + 36524 * h + 1461 * q + 365 * e"
    by (simp add: year_days_def)
  have "(?z + 1) mod 4 = (if e = 3 then 0 else e + 1)"
  proof (cases "e = 3")
    case True
    then have "?z + 1 = 4 * (100 * c + 25 * h + q + 1) + 0" by simp
    from div_mod_eq [OF this] True show ?thesis by simp
  next
    case False
    have "?z + 1 = 4 * (100 * c + 25 * h + q) + (e + 1)" by simp
    from div_mod_eq [OF this] False assms show ?thesis by simp
  qed
  moreover have "(?z + 1) mod 100 = (if e = 3 \<and> q = 24 then 0 else 4 * q + e + 1)"
  proof (cases "e = 3 \<and> q = 24")
    case True
    then have "?z + 1 = 100 * (4 * c + h + 1) + 0" by simp
    from div_mod_eq [OF this] True show ?thesis by simp
  next
    case False
    have "?z + 1 = 100 * (4 * c + h) + (4 * q + e + 1)" by simp
    from div_mod_eq [OF this] False assms show ?thesis by auto
  qed
  moreover have "(?z + 1) mod 400 = (if e = 3 \<and> q = 24 \<and> h = 3 then 0 else 100 * h + 4 * q + e + 1)"
  proof (cases "e = 3 \<and> q = 24 \<and> h = 3")
    case True
    then have "?z + 1 = 400 * (c + 1) + 0" by simp
    from div_mod_eq [OF this] True show ?thesis by simp
  next
    case False
    have "?z + 1 = 400 * c + (100 * h + 4 * q + e + 1)" by simp
    from div_mod_eq [OF this] False assms show ?thesis by auto
  qed
  ultimately show "is_leap (?z + 1) \<longleftrightarrow> e = 3 \<and> (q \<noteq> 24 \<or> h = 3)"
    using assms by (auto simp: is_leap_def)
qed

lemma year_split_cycles:
  assumes c: "0 \<le> h" "h \<le> 3" "0 \<le> q" "q \<le> 24" "0 \<le> e" "e \<le> 3"
    and n: "0 \<le> n" "n \<le> 365" "n = 365 \<Longrightarrow> e = 3 \<and> (q \<noteq> 24 \<or> h = 3)"
  shows "year_split (146097 * c + 36524 * h + 1461 * q + 365 * e + n) = (400 * c + 100 * h + 4 * q + e + 1, n)"
proof -
  let ?e = "365 * e + n" and ?q = "1461 * q + 365 * e + n"
  have e: "0 \<le> ?e" "?e \<le> 1460" "q = 24 \<Longrightarrow> h \<noteq> 3 \<Longrightarrow> ?e < 1460"
    using c n by (cases "n = 365"; simp)+
  have q: "0 \<le> ?q" "?q \<le> 36524" "h \<noteq> 3 \<Longrightarrow> ?q < 36524"
    using c e by (cases "q = 24"; simp)+
  have "146097 * c + 36524 * h + 1461 * q + 365 * e + n = 146097 * c + (36524 * h + ?q)" by simp
  from div_mod_eq [OF this] have 1: "(146097 * c + 36524 * h + 1461 * q + 365 * e + n) div 146097 = c"
      "(146097 * c + 36524 * h + 1461 * q + 365 * e + n) mod 146097 = 36524 * h + ?q"
    using q c by auto
  have 2: "min 3 ((36524 * h + ?q) div 36524) = h"
  proof (cases "?q = 36524")
    case True
    then have "h = 3" using q by auto
    then show ?thesis using True by simp
  next
    case False
    then show ?thesis using div_mod_eq [OF refl, of ?q 36524 h] q c by simp
  qed
  have 3: "?q div 1461 = q" "?q mod 1461 = ?e"
    using div_mod_eq [of ?q 1461 q ?e] e by simp_all
  have 4: "min 3 (?e div 365) = e"
  proof (cases "n = 365")
    case True
    then show ?thesis using n(3) by simp
  next
    case False
    then have "n div 365 = 0" using n by simp
    then show ?thesis using c by simp
  qed
  show ?thesis unfolding year_split_def Let_def 1 2 by (simp add: 3 4 4 [simplified])
qed

lemma cycles_of_year:
  obtains c h q e where "0 \<le> h" "h \<le> 3" "0 \<le> q" "q \<le> 24" "0 \<le> e" "e \<le> 3" "y = 400 * c + 100 * h + 4 * q + e + (1 :: int)"
proof
  let ?z = "y - 1"
  show "0 \<le> ?z mod 400 div 100" "?z mod 400 div 100 \<le> 3" "0 \<le> ?z mod 400 mod 100 div 4"
    "?z mod 400 mod 100 div 4 \<le> 24" "0 \<le> ?z mod 400 mod 100 mod 4" "?z mod 400 mod 100 mod 4 \<le> 3"
    using pos_mod_bound [of 400 ?z] pos_mod_sign [of 400 ?z] pos_mod_bound [of 100 "?z mod 400"] pos_mod_sign [of 100 "?z mod 400"]
      pos_mod_bound [of 4 "?z mod 400 mod 100"] by (auto simp: pos_imp_zdiv_nonneg_iff)
  have "?z = 400 * (?z div 400) + (100 * (?z mod 400 div 100) + (4 * (?z mod 400 mod 100 div 4) + ?z mod 400 mod 100 mod 4))"
    by simp
  then show "y = 400 * (?z div 400) + 100 * (?z mod 400 div 100) + 4 * (?z mod 400 mod 100 div 4) + ?z mod 400 mod 100 mod 4 + 1"
    by simp
qed

lemma year_split_days:
  assumes "0 \<le> n" "n < 365 + (if is_leap y then 1 else 0)"
  shows "year_split (year_days y + n) = (y, n)"
proof -
  obtain c h q e where r: "0 \<le> h" "h \<le> 3" "0 \<le> q" "q \<le> 24" "0 \<le> e" "e \<le> 3"
    and y: "y = 400 * c + 100 * h + 4 * q + e + 1" by (rule cycles_of_year)
  have "n \<le> 365" "n = 365 \<Longrightarrow> e = 3 \<and> (q \<noteq> 24 \<or> h = 3)"
    using assms year_cycles(2) [OF r, of c] y by (auto split: if_splits)
  from year_split_cycles [OF r assms(1) this, of c] show ?thesis
    using year_cycles(1) [OF r, of c] y by simp
qed

lemma civil_days_of: "valid_date y m d \<Longrightarrow> civil (days_of y m d) = (y, m, d)"
  using year_split_days [of "days_before m y + (d - 1)" y] day_of_year_range [of y m d] month_split_days [of y m d]
  by (simp add: civil_def days_of_def Let_def algebra_simps)

text \<open>Every day has a date.\<close>

lemma year_split_range:
  assumes "year_split k = (y, n)"
  shows "0 \<le> n \<and> n < 365 + (if is_leap y then 1 else 0) \<and> year_days y + n = k"
proof -
  define c r where "c = k div 146097" and "r = k mod 146097"
  define h where "h = min 3 (r div 36524)"
  define q where "q = (r - 36524 * h) div 1461"
  define e where "e = min 3 ((r - 36524 * h) mod 1461 div 365)"
  have k: "k = 146097 * c + r" and r: "0 \<le> r" "r < 146097" by (simp_all add: c_def r_def)
  have rd: "0 \<le> r div 36524" "r = 36524 * (r div 36524) + r mod 36524" "0 \<le> r mod 36524" "r mod 36524 < 36524"
    using r by (auto simp add: pos_imp_zdiv_nonneg_iff)
  have h: "0 \<le> h" "h \<le> 3" and r1: "0 \<le> r - 36524 * h" "r - 36524 * h \<le> 36524" "h \<noteq> 3 \<Longrightarrow> r - 36524 * h < 36524"
    using rd r unfolding h_def by (auto simp: min_def split: if_splits)
  have q': "r - 36524 * h = 1461 * q + (r - 36524 * h) mod 1461" unfolding q_def by simp
  have m: "0 \<le> (r - 36524 * h) mod 1461" "(r - 36524 * h) mod 1461 < 1461" by simp_all
  have q: "0 \<le> q" "q \<le> 24" using r1 q' m by linarith+
  define r2 where "r2 = (r - 36524 * h) mod 1461"
  have r2: "0 \<le> r2" "r2 < 1461" "q = 24 \<Longrightarrow> h \<noteq> 3 \<Longrightarrow> r2 < 1460"
    using m r1 q' unfolding r2_def by auto
  have ed: "0 \<le> r2 div 365" "r2 = 365 * (r2 div 365) + r2 mod 365" "0 \<le> r2 mod 365" "r2 mod 365 < 365"
    using r2 by (simp_all add: pos_imp_zdiv_nonneg_iff)
  have e: "0 \<le> e" "e \<le> 3" "0 \<le> r2 - 365 * e" "r2 - 365 * e \<le> 365" "r2 - 365 * e = 365 \<Longrightarrow> e = 3 \<and> r2 = 1460"
    using ed r2 unfolding e_def r2_def [symmetric] by (auto simp: min_def split: if_splits)
  have y: "y = 400 * c + 100 * h + 4 * q + e + 1" and n: "n = r2 - 365 * e"
    using assms unfolding year_split_def Let_def
    by (simp_all add: c_def [symmetric] r_def [symmetric] h_def [symmetric] q_def [symmetric] e_def [symmetric] r2_def)
  have "year_days y = 146097 * c + 36524 * h + 1461 * q + 365 * e" "is_leap y \<longleftrightarrow> e = 3 \<and> (q \<noteq> 24 \<or> h = 3)"
    unfolding y using year_cycles [OF h q e(1,2)] by blast+
  moreover from this(1) have "year_days y + n = k" using k q' n unfolding r2_def by linarith
  moreover have "e = 3 \<and> (q \<noteq> 24 \<or> h = 3)" if "n = 365"
    using e(5) r2(3) that unfolding n by linarith
  moreover have "0 \<le> n" "n \<le> 365" using e unfolding n by simp_all
  ultimately show ?thesis by (cases "n = 365") simp_all
qed

lemma days_of_civil:
  assumes "civil k = (y, m, d)"
  shows "valid_date y m d \<and> days_of y m d = k"
proof -
  obtain z n where s: "year_split k = (z, n)" by fastforce
  then have "y = z" "month_split y n = (m, d)" using assms by (auto simp: civil_def)
  then show ?thesis
    using year_split_range [OF s] month_split_valid [of n y m d] by (auto simp: days_of_def)
qed

end
