(* ===== verification/Local_Time.thy ===== *)
theory Local_Time
  imports Civil
begin

text \<open>
  internal/utils/localtime.go: wall-clock strings in an event's time zone. What it takes from Go's
  package time is modelled with it: \<open>Format\<close> and \<open>ParseInLocation\<close> for the one layout
  used, and \<open>time.Date\<close> with its two zone lookups. A \<open>*time.Location\<close> is its lookup
  function (the zone data is not part of the repository): the offset in seconds east of UTC at an
  instant and the bounds of the interval around it in which that offset applies. Instants for the
  lookup are seconds since 0001-01-01T00:00:00Z.
\<close>

type_synonym location = "int \<Rightarrow> int \<times> int \<times> int"

section \<open>Digits\<close>

definition digit :: "int \<Rightarrow> char" where
  "digit n = char_of (48 + nat n)"

definition is_digit :: "char \<Rightarrow> bool" where
  "is_digit c = (48 \<le> (of_char c :: nat) \<and> (of_char c :: nat) \<le> 57)"

definition digit_val :: "char \<Rightarrow> int" where
  "digit_val c = int (of_char c) - 48"

text \<open>\<open>appendInt\<close> with a width of 2 and of 4, for the numbers the layout prints.\<close>

definition pad2 :: "int \<Rightarrow> string" where
  "pad2 n = [digit (n div 10), digit (n mod 10)]"

function decimal :: "nat \<Rightarrow> string" where
  "decimal n = (if n < 10 then [digit (int n)] else decimal (n div 10) @ [digit (int (n mod 10))])"
  by auto
termination by (relation "measure id") auto

declare decimal.simps [simp del]

definition pad4 :: "int \<Rightarrow> string" where
  "pad4 n = (let ds = decimal (nat \<bar>n\<bar>) in
     (if n < 0 then ''-'' else []) @ replicate (4 - length ds) (CHR ''0'') @ ds)"

lemma digit_simps [simp]:
  assumes "0 \<le> n" "n \<le> 9"
  shows "is_digit (digit n)" "digit_val (digit n) = n"
proof -
  have "(of_char (digit n) :: nat) = 48 + nat n"
    using assms by (simp add: digit_def of_char_of)
  then show "is_digit (digit n)" "digit_val (digit n) = n"
    using assms by (auto simp: is_digit_def digit_val_def)
qed

section \<open>The layout 2006-01-02T15:04:05\<close>

definition wall_text :: "int \<Rightarrow> int \<Rightarrow> int \<Rightarrow> int \<Rightarrow> int \<Rightarrow> int \<Rightarrow> string" where
  "wall_text y m d h mi se =
     pad4 y @ ''-'' @ pad2 m @ ''-'' @ pad2 d @ ''T'' @ pad2 h @ '':'' @ pad2 mi @ '':'' @ pad2 se"

definition format_civil :: "int \<Rightarrow> int \<Rightarrow> int \<Rightarrow> int \<Rightarrow> string" where
  "format_civil y m d s = wall_text y m d (s div 3600) (s div 60 mod 60) (s mod 60)"

definition ns_per_s :: int where
  "ns_per_s = 1000000000"

definition offset_at :: "location \<Rightarrow> int \<Rightarrow> int" where
  "offset_at loc u = fst (loc u)"

definition wall_clock :: "location \<Rightarrow> int \<Rightarrow> int" where
  "wall_clock loc u = u + offset_at loc u"

definition format_wall :: "int \<Rightarrow> string" where
  "format_wall w = (let (y, m, d) = civil (w div 86400) in format_civil y m d (w mod 86400))"

text \<open>\<open>t.In(loc).Format(LocalTimeLayout)\<close>\<close>

definition format_local :: "location \<Rightarrow> time \<Rightarrow> string" where
  "format_local loc t = format_wall (wall_clock loc (t div ns_per_s))"

text \<open>\<open>getnum\<close>: two digits, or one when a second is not required.\<close>

fun getnum :: "bool \<Rightarrow> string \<Rightarrow> (int \<times> string) option" where
  "getnum fixed (a # b # r) =
     (if \<not> is_digit a then None
      else if is_digit b then Some (10 * digit_val a + digit_val b, r)
      else if fixed then None else Some (digit_val a, b # r))"
| "getnum fixed [a] = (if is_digit a \<and> \<not> fixed then Some (digit_val a, []) else None)"
| "getnum fixed [] = None"

fun get_year :: "string \<Rightarrow> (int \<times> string) option" where
  "get_year (a # b # c # d # r) =
     (if list_all is_digit [a, b, c, d]
      then Some (1000 * digit_val a + 100 * digit_val b + 10 * digit_val c + digit_val d, r) else None)"
| "get_year _ = None"

definition skip :: "char \<Rightarrow> string \<Rightarrow> string option" where
  "skip c s = (case s of [] \<Rightarrow> None | a # r \<Rightarrow> if a = c then Some r else None)"

text \<open>A fraction is accepted after the seconds although the layout has none; nine digits count.\<close>

definition fraction :: "string \<Rightarrow> int \<times> string" where
  "fraction s = (case s of
       c # d # r \<Rightarrow>
         if c \<in> {CHR ''.'', CHR '',''} \<and> is_digit d
         then (let ds = takeWhile is_digit (d # r) in
               (foldl (\<lambda>n c. 10 * n + digit_val c) 0 (take 9 (ds @ replicate 9 (CHR ''0''))), dropWhile is_digit (d # r)))
         else (0, s)
     | _ \<Rightarrow> (0, s))"

record wall_fields =
  wf_year :: int
  wf_month :: int
  wf_day :: int
  wf_second :: int
  wf_nanos :: int

text \<open>The date and time of the layout, the range checks of \<open>Parse\<close> included, and the rest of the input.\<close>

definition parse_wall :: "string \<Rightarrow> (wall_fields \<times> string) option" where
  "parse_wall s =
     Option.bind (get_year s) (\<lambda>(y, s). Option.bind (skip (CHR ''-'') s) (\<lambda>s.
     Option.bind (getnum True s) (\<lambda>(m, s). Option.bind (skip (CHR ''-'') s) (\<lambda>s.
     Option.bind (getnum True s) (\<lambda>(d, s). Option.bind (skip (CHR ''T'') s) (\<lambda>s.
     Option.bind (getnum False s) (\<lambda>(h, s). Option.bind (skip (CHR '':'') s) (\<lambda>s.
     Option.bind (getnum True s) (\<lambda>(mi, s). Option.bind (skip (CHR '':'') s) (\<lambda>s.
     Option.bind (getnum True s) (\<lambda>(se, s).
       let (ns, rest) = fraction s in
       if h < 24 \<and> mi < 60 \<and> se < 60 \<and> valid_date y m d
       then Some (\<lparr>wf_year = y, wf_month = m, wf_day = d, wf_second = 3600 * h + 60 * mi + se, wf_nanos = ns\<rparr>, rest)
       else None)))))))))))"

definition parse_layout :: "string \<Rightarrow> wall_fields option" where
  "parse_layout s = (case parse_wall s of Some (f, []) \<Rightarrow> Some f | _ \<Rightarrow> None)"

text \<open>\<open>time.Date\<close>: the zone is looked up as if the wall clock were UTC, and once more when that fails.\<close>

definition wall_instant :: "location \<Rightarrow> int \<Rightarrow> int" where
  "wall_instant loc w =
     (let (offset, start, end) = loc w in
      if offset = 0 then w
      else let utc = w - offset in
           if utc < start \<or> end \<le> utc then w - offset_at loc utc else utc)"

definition time_date :: "location \<Rightarrow> wall_fields \<Rightarrow> time" where
  "time_date loc f =
     wall_instant loc (days_of (wf_year f) (wf_month f) (wf_day f) * 86400 + wf_second f) * ns_per_s + wf_nanos f"

datatype local_time_error = ErrParse | ErrNonexistentLocalTime

definition ResolveLocalTime :: "string \<Rightarrow> location \<Rightarrow> local_time_error + time" where
  "ResolveLocalTime local loc =
     (case parse_layout local of
        None \<Rightarrow> Inl ErrParse
      | Some f \<Rightarrow>
          let t = time_date loc f in
          if format_local loc t \<noteq> local then Inl ErrNonexistentLocalTime else Inr t)"

section \<open>Parsing inverts formatting\<close>

lemma pad2_getnum [simp]: "0 \<le> n \<Longrightarrow> n \<le> 99 \<Longrightarrow> getnum b (pad2 n @ r) = Some (n, r)"
proof -
  assume "0 \<le> n" "n \<le> 99"
  then have "0 \<le> n div 10" "n div 10 \<le> 9" "0 \<le> n mod 10" "n mod 10 \<le> 9" by auto
  then show ?thesis by (simp add: pad2_def)
qed

lemma decimal_small: "n < 10 \<Longrightarrow> decimal n = [digit (int n)]"
  by (simp add: decimal.simps [of n])

lemma decimal_large: "10 \<le> n \<Longrightarrow> decimal n = decimal (n div 10) @ [digit (int (n mod 10))]"
  by (simp add: decimal.simps [of n])

lemma zeros: "replicate 3 c = [c, c, c]" "replicate 2 c = [c, c]"
  by (simp_all add: numeral_eq_Suc)

lemma decimal_four:
  assumes "n < 10000"
  shows "replicate (4 - length (decimal n)) (CHR ''0'') @ decimal n =
     [digit (int (n div 1000)), digit (int (n div 100 mod 10)), digit (int (n div 10 mod 10)), digit (int (n mod 10))]"
proof -
  have z: "CHR ''0'' = digit 0" by code_simp
  consider "n < 10" | "10 \<le> n" "n < 100" | "100 \<le> n" "n < 1000" | "1000 \<le> n" by linarith
  then show ?thesis
  proof cases
    case 1
    then show ?thesis by (simp add: decimal_small zeros z)
  next
    case 2
    then have "n div 10 < 10" by simp
    with 2 show ?thesis by (simp add: decimal_large decimal_small zeros z)
  next
    case 3
    then have q: "10 \<le> n" "10 \<le> n div 10" "n div 10 div 10 < 10" "n div 1000 = 0" by simp_all
    then have "n div 100 < 10" by (simp flip: div_mult2_eq)
    then show ?thesis
      using decimal_large [OF q(1)] decimal_large [OF q(2)] decimal_small [OF q(3)] q(4)
      by (simp add: zeros z flip: div_mult2_eq)
  next
    case 4
    then have q: "10 \<le> n" "10 \<le> n div 10" "10 \<le> n div 10 div 10" "n div 10 div 10 div 10 < 10" using assms by simp_all
    then show ?thesis
      using decimal_large [OF q(1)] decimal_large [OF q(2)] decimal_large [OF q(3)] decimal_small [OF q(4)]
      by (simp flip: div_mult2_eq)
  qed
qed

lemma pad4_get_year:
  assumes "0 \<le> y" "y \<le> 9999"
  shows "get_year (pad4 y @ r) = Some (y, r)"
proof -
  define n where "n = nat y"
  have y: "y = int n" "n < 10000" using assms by (simp_all add: n_def)
  have p: "pad4 y = [digit (int (n div 1000)), digit (int (n div 100 mod 10)), digit (int (n div 10 mod 10)), digit (int (n mod 10))]"
    using y decimal_four [of n] by (simp add: pad4_def Let_def)
  have m: "n = 10 * (n div 10) + n mod 10" "n div 10 = 10 * (n div 100) + n div 10 mod 10"
    "n div 100 = 10 * (n div 1000) + n div 100 mod 10" "n div 1000 \<le> 9"
    "n mod 10 < 10" "n div 10 mod 10 < 10" "n div 100 mod 10 < 10"
    using y(2) mult_div_mod_eq [of 10 "n div 10"] mult_div_mod_eq [of 10 "n div 100"]
    by (simp_all flip: div_mult2_eq)
  define a b c d where "a = n div 1000" and "b = n div 100 mod 10" and "c = n div 10 mod 10" and "d = n mod 10"
  have "n = 1000 * a + 100 * b + 10 * c + d" "a \<le> 9" "b \<le> 9" "c \<le> 9" "d \<le> 9"
    using m unfolding a_def b_def c_def d_def by linarith+
  moreover have "pad4 y = [digit (int a), digit (int b), digit (int c), digit (int d)]"
    using p by (simp only: a_def b_def c_def d_def)
  ultimately show ?thesis using y(1) by simp
qed

lemma skip_Cons [simp]: "skip c (c # r) = Some r"
  by (simp add: skip_def)

lemma parse_wall_text:
  assumes "0 \<le> y" "y \<le> 9999" "valid_date y m d"
    and "0 \<le> h" "h < 24" "0 \<le> mi" "mi < 60" "0 \<le> se" "se < 60"
    and "fraction r = (ns, rest)"
  shows "parse_wall (wall_text y m d h mi se @ r) =
     Some (\<lparr>wf_year = y, wf_month = m, wf_day = d, wf_second = 3600 * h + 60 * mi + se, wf_nanos = ns\<rparr>, rest)"
proof -
  have md: "0 \<le> m" "m \<le> 99" "0 \<le> d" "d \<le> 99"
    using assms(3) by (auto simp: valid_date_def days_in_def split: if_splits)
  show ?thesis
    using assms(3-) md by (simp add: wall_text_def parse_wall_def pad4_get_year [OF assms(1,2)])
qed

lemma hms_split:
  assumes "0 \<le> s" "s < (86400 :: int)"
  shows "0 \<le> s div 3600 \<and> s div 3600 < 24 \<and> 0 \<le> s div 60 mod 60 \<and> s div 60 mod 60 < 60 \<and>
     0 \<le> s mod 60 \<and> s mod 60 < 60 \<and> 3600 * (s div 3600) + 60 * (s div 60 mod 60) + s mod 60 = s"
proof -
  have "s div 60 = 60 * (s div 3600) + s div 60 mod 60"
    using zdiv_zmult2_eq [of 60 s 60] by simp
  then have "3600 * (s div 3600) + 60 * (s div 60 mod 60) + s mod 60 = s"
    using mult_div_mod_eq [of 60 s] by linarith
  then show ?thesis using assms by (simp add: pos_imp_zdiv_nonneg_iff)
qed

lemma parse_format_civil:
  assumes "0 \<le> y" "y \<le> 9999" "valid_date y m d" "0 \<le> s" "s < 86400"
  shows "parse_layout (format_civil y m d s) =
     Some \<lparr>wf_year = y, wf_month = m, wf_day = d, wf_second = s, wf_nanos = 0\<rparr>"
  using parse_wall_text [of y m d "s div 3600" "s div 60 mod 60" "s mod 60" "[]" 0 "[]"] hms_split [of s] assms
  by (simp add: format_civil_def parse_layout_def fraction_def)

text \<open>What a wall clock between years 0 and 9999 prints is read back as the same wall clock.\<close>

definition year_0_9999 :: "int \<Rightarrow> bool" where
  "year_0_9999 w = (- 366 * 86400 \<le> w \<and> w < 3652059 * 86400)"

lemma year_days_bounds:
  "400 * year_days y \<le> 146097 * y - 145701" "146097 * y - 146796 \<le> 400 * year_days y"
proof -
  define x a b c where "x = y - 1" and "a = x div 4" and "b = x div 100" and "c = x div 400"
  have "4 * a + x mod 4 = x" "100 * b + x mod 100 = x" "400 * c + x mod 400 = x"
    unfolding a_def b_def c_def by (rule mult_div_mod_eq)+
  moreover have "0 \<le> x mod 4 \<and> x mod 4 \<le> 3" "0 \<le> x mod 100 \<and> x mod 100 \<le> 99" "0 \<le> x mod 400 \<and> x mod 400 \<le> 399"
    by auto
  moreover define p q r where "p = x mod 4" and "q = x mod 100" and "r = x mod 400"
  ultimately have "4 * a + p = x" "100 * b + q = x" "400 * c + r = x" "0 \<le> p \<and> p \<le> 3" "0 \<le> q \<and> q \<le> 99" "0 \<le> r \<and> r \<le> 399"
    by simp_all
  moreover have "year_days y = 365 * x + a - b + c"
    by (simp add: year_days_def x_def a_def b_def c_def)
  moreover have "y = x + 1" by (simp add: x_def)
  ultimately show "400 * year_days y \<le> 146097 * y - 145701" "146097 * y - 146796 \<le> 400 * year_days y"
    by linarith+
qed

lemma civil_year:
  assumes "year_0_9999 w" "civil (w div 86400) = (y, m, d)"
  shows "0 \<le> y" "y \<le> 9999"
proof -
  have v: "valid_date y m d" "days_of y m d = w div 86400" using days_of_civil [OF assms(2)] by simp_all
  have r: "0 \<le> days_before m y + (d - 1)" "days_before m y + (d - 1) < 365 + (if is_leap y then 1 else 0)"
    using day_of_year_range [OF v(1)] by simp_all
  have b: "- 366 \<le> w div 86400" "w div 86400 < 3652059" using assms(1) by (auto simp: year_0_9999_def)
  have q: "400 * year_days y \<le> 146097 * y - 145701" "146097 * y - 146796 \<le> 400 * year_days y"
    using year_days_bounds [of y] .
  have k: "year_days y + (days_before m y + (d - 1)) = w div 86400" using v(2) by (simp add: days_of_def)
  show "0 \<le> y"
  proof (rule ccontr)
    assume "\<not> 0 \<le> y"
    then consider "y = -1" | "y \<le> -2" by linarith
    then show False
    proof cases
      case 1
      have "year_days (-1) = -731" "\<not> is_leap (-1)" by code_simp+
      with 1 k r b show False by simp
    next
      case 2
      then have "year_days y + 366 < - 366" using q by linarith
      with k r b show False by (simp split: if_splits)
    qed
  qed
  show "y \<le> 9999"
  proof (rule ccontr)
    assume "\<not> y \<le> 9999"
    then have "3652059 \<le> year_days y" using q by linarith
    with k r b show False by linarith
  qed
qed

lemma parse_format_wall:
  assumes "year_0_9999 w"
  obtains f where "parse_layout (format_wall w) = Some f" "wf_nanos f = 0"
    "days_of (wf_year f) (wf_month f) (wf_day f) * 86400 + wf_second f = w"
proof -
  obtain y m d where c: "civil (w div 86400) = (y, m, d)" by (cases "civil (w div 86400)") auto
  have v: "valid_date y m d" "days_of y m d = w div 86400" using days_of_civil [OF c] by simp_all
  have "parse_layout (format_wall w) =
      Some \<lparr>wf_year = y, wf_month = m, wf_day = d, wf_second = w mod 86400, wf_nanos = 0\<rparr>"
    using parse_format_civil [of y m d "w mod 86400"] civil_year [OF assms c] v(1)
    by (simp add: format_wall_def c)
  then show thesis by (rule that) (simp_all add: v(2))
qed

lemma format_wall_inject:
  assumes "year_0_9999 v" "year_0_9999 w" "format_wall v = format_wall w"
  shows "v = w"
  using parse_format_wall [OF assms(1)] parse_format_wall [OF assms(2)] assms(3) by (metis option.inject)

text \<open>The resolution in terms of wall clocks.\<close>

lemma resolve_format_wall:
  assumes "year_0_9999 w" "year_0_9999 (wall_clock loc (wall_instant loc w))"
  shows "ResolveLocalTime (format_wall w) loc =
     (if wall_clock loc (wall_instant loc w) = w then Inr (wall_instant loc w * ns_per_s)
      else Inl ErrNonexistentLocalTime)"
proof -
  obtain f where f: "parse_layout (format_wall w) = Some f" "wf_nanos f = 0"
    "days_of (wf_year f) (wf_month f) (wf_day f) * 86400 + wf_second f = w"
    using parse_format_wall [OF assms(1)] .
  have t: "time_date loc f = wall_instant loc w * ns_per_s" using f by (simp add: time_date_def)
  have "format_local loc (time_date loc f) = format_wall (wall_clock loc (wall_instant loc w))"
    by (simp add: t format_local_def ns_per_s_def)
  then show ?thesis
    using format_wall_inject [OF assms(2,1)] by (auto simp: ResolveLocalTime_def f(1) t)
qed


section \<open>One change of offset\<close>

text \<open>
  Around the wall clock \<open>w\<close> (two days each way) the zone has offset \<open>a\<close> before the instant
  \<open>T\<close> and \<open>b\<close> from it on, neither more than a day. The wall clock names \<open>w - a\<close> if that
  lies before \<open>T\<close> and \<open>w - b\<close> if that does not: both in an overlap, neither in a gap.
\<close>

definition one_change :: "location \<Rightarrow> int \<Rightarrow> int \<Rightarrow> int \<Rightarrow> int \<Rightarrow> bool" where
  "one_change loc w T a b = (\<bar>a\<bar> \<le> 86400 \<and> \<bar>b\<bar> \<le> 86400 \<and>
     (\<exists>s e. s \<le> w - 172800 \<and> w + 172800 < e \<and>
        (\<forall>u. w - 172800 \<le> u \<and> u \<le> w + 172800 \<longrightarrow> loc u = (if u < T then (a, s, T) else (b, T, e)))))"

lemma one_change_offset:
  "one_change loc w T a b \<Longrightarrow> w - 172800 \<le> u \<Longrightarrow> u \<le> w + 172800 \<Longrightarrow> offset_at loc u = (if u < T then a else b)"
  by (auto simp: one_change_def offset_at_def)

lemma one_change_instant:
  assumes "one_change loc w T a b"
  shows "wall_instant loc w =
     (if w < T then if w - a < T then w - a else w - b else if T \<le> w - b then w - b else w - a)"
proof -
  from assms obtain s e where b: "\<bar>a\<bar> \<le> 86400" "\<bar>b\<bar> \<le> 86400" "s \<le> w - 172800" "w + 172800 < e"
    and l: "\<And>u. w - 172800 \<le> u \<Longrightarrow> u \<le> w + 172800 \<Longrightarrow> loc u = (if u < T then (a, s, T) else (b, T, e))"
    by (auto simp: one_change_def)
  have w: "loc w = (if w < T then (a, s, T) else (b, T, e))" using l [of w] by simp
  have o: "offset_at loc (w - a) = (if w - a < T then a else b)" "offset_at loc (w - b) = (if w - b < T then a else b)"
    using one_change_offset [OF assms] b by auto
  show ?thesis
    using b by (cases "w < T") (auto simp: wall_instant_def w o Let_def)
qed

lemma one_change_resolve:
  assumes "one_change loc w T a b" "year_0_9999 (w - 172800)" "year_0_9999 (w + 172800)"
  shows "ResolveLocalTime (format_wall w) loc =
     (if T \<le> w - a \<and> w - b < T then Inl ErrNonexistentLocalTime
      else Inr (ns_per_s * (if w - a < T \<and> (w < T \<or> w - b < T) then w - a else w - b)))"
proof -
  have b: "\<bar>a\<bar> \<le> 86400" "\<bar>b\<bar> \<le> 86400" using assms(1) by (auto simp: one_change_def)
  have o: "offset_at loc (w - a) = (if w - a < T then a else b)" "offset_at loc (w - b) = (if w - b < T then a else b)"
    using one_change_offset [OF assms(1)] b by auto
  have y: "year_0_9999 w" using assms(2,3) by (auto simp: year_0_9999_def)
  have i: "wall_clock loc (wall_instant loc w) = (if T \<le> w - a \<and> w - b < T then if w < T then w - b + a else w - a + b else w)"
    using b by (auto simp: one_change_instant [OF assms(1)] wall_clock_def o)
  have "year_0_9999 (wall_clock loc (wall_instant loc w))"
    using b assms(2,3) unfolding i year_0_9999_def by auto
  from resolve_format_wall [OF y this] show ?thesis
    using b by (auto simp: one_change_instant [OF assms(1)] wall_clock_def o mult.commute)
qed

text \<open>
  A location given by its first offset and its list of transitions, as Go keeps it; the lookup
  takes the last transition that is not after the instant.
\<close>

fun zone_lookup :: "int \<Rightarrow> int \<Rightarrow> (int \<times> int) list \<Rightarrow> location" where
  "zone_lookup start offset [] u = (offset, start, 9223372036854775807)"
| "zone_lookup start offset ((T, b) # tx) u =
     (if u < T then (offset, start, T) else zone_lookup T b tx u)"

end
