(* ===== verification/Go_Text.thy ===== *)
theory Go_Text
  imports Local_Time "HOL-Library.Sublist"
begin

text \<open>
  The functions of Go's standard library that read and print the text of requests and of page
  cursors: \<open>strings.TrimSpace\<close>, \<open>strconv.Atoi\<close>, \<open>time.LoadLocation\<close> and the RFC 3339 forms of an
  instant. A Go string is its list of bytes.
\<close>

section \<open>White space\<close>

text \<open>The UTF-8 encodings of the runes with \<open>unicode.IsSpace\<close>.\<close>

definition space_runes :: "string list" where
  "space_runes =
     [[CHR 0x09], [CHR 0x0A], [CHR 0x0B], [CHR 0x0C], [CHR 0x0D], [CHR 0x20],
      [CHR 0xC2, CHR 0x85], [CHR 0xC2, CHR 0xA0], [CHR 0xE1, CHR 0x9A, CHR 0x80],
      [CHR 0xE2, CHR 0x80, CHR 0x80], [CHR 0xE2, CHR 0x80, CHR 0x81], [CHR 0xE2, CHR 0x80, CHR 0x82],
      [CHR 0xE2, CHR 0x80, CHR 0x83], [CHR 0xE2, CHR 0x80, CHR 0x84], [CHR 0xE2, CHR 0x80, CHR 0x85],
      [CHR 0xE2, CHR 0x80, CHR 0x86], [CHR 0xE2, CHR 0x80, CHR 0x87], [CHR 0xE2, CHR 0x80, CHR 0x88],
      [CHR 0xE2, CHR 0x80, CHR 0x89], [CHR 0xE2, CHR 0x80, CHR 0x8A], [CHR 0xE2, CHR 0x80, CHR 0xA8],
      [CHR 0xE2, CHR 0x80, CHR 0xA9], [CHR 0xE2, CHR 0x80, CHR 0xAF], [CHR 0xE2, CHR 0x81, CHR 0x9F],
      [CHR 0xE3, CHR 0x80, CHR 0x80]]"

definition leading :: "string list \<Rightarrow> string \<Rightarrow> string option" where
  "leading ps s = find (\<lambda>p. p = take (length p) s) ps"

lemma leading_Some: "leading ps s = Some p \<Longrightarrow> p \<in> set ps \<and> p = take (length p) s"
  by (auto simp: leading_def find_Some_iff)

lemma leading_shorter: "leading ps s = Some p \<Longrightarrow> p \<noteq> [] \<Longrightarrow> length s - length p < length s"
  using leading_Some [of ps s p] by (cases s; cases p) auto

function drop_leading :: "string list \<Rightarrow> string \<Rightarrow> string" where
  "drop_leading ps s =
     (case leading ps s of None \<Rightarrow> s | Some p \<Rightarrow> if p = [] then s else drop_leading ps (drop (length p) s))"
  by auto
termination
  by (relation "measure (length \<circ> snd)") (auto dest: leading_shorter)

declare drop_leading.simps [simp del]

definition trim_space :: "string \<Rightarrow> string" where
  "trim_space s = rev (drop_leading (map rev space_runes) (rev (drop_leading space_runes s)))"

section \<open>Integers\<close>

definition int64 :: "int \<Rightarrow> bool" where
  "int64 i = (- 9223372036854775808 \<le> i \<and> i \<le> 9223372036854775807)"

definition digits_val :: "string \<Rightarrow> int option" where
  "digits_val s = (if s \<noteq> [] \<and> list_all is_digit s then Some (foldl (\<lambda>n c. 10 * n + digit_val c) 0 s) else None)"

text \<open>\<open>strconv.Atoi\<close> on a 64-bit platform, which is \<open>strconv.ParseInt(s, 10, 64)\<close>.\<close>

definition atoi :: "string \<Rightarrow> int option" where
  "atoi s =
     (let v = (case s of
                 c # r \<Rightarrow> if c = CHR ''-'' then map_option uminus (digits_val r)
                          else if c = CHR ''+'' then digits_val r else digits_val s
               | [] \<Rightarrow> None)
      in case v of Some i \<Rightarrow> if int64 i then Some i else None | None \<Rightarrow> None)"

section \<open>Locations\<close>

definition utc :: location where
  "utc u = (0, - 9223372036854775808, 9223372036854775807)"

fun contains_dot_dot :: "string \<Rightarrow> bool" where
  "contains_dot_dot (a # b # r) = ((a = CHR ''.'' \<and> b = CHR ''.'') \<or> contains_dot_dot (b # r))"
| "contains_dot_dot _ = False"

text \<open>\<open>zoneinfo\<close> is the system's time zone database, \<open>host\<close> the zone of the process.\<close>

definition LoadLocation :: "(string \<Rightarrow> location option) \<Rightarrow> location \<Rightarrow> string \<Rightarrow> location option" where
  "LoadLocation zoneinfo host name =
     (if name = [] \<or> name = ''UTC'' then Some utc
      else if name = ''Local'' then Some host
      else if contains_dot_dot name \<or> hd name = CHR ''/'' \<or> hd name = CHR 0x5C then None
      else zoneinfo name)"

section \<open>RFC 3339\<close>

text \<open>The zone of \<open>Parse\<close> for the layout \<open>Z07:00\<close>: \<open>Z\<close>, or a sign, two digits, a colon, two digits.\<close>

definition parse_zone :: "string \<Rightarrow> int option" where
  "parse_zone s =
     (if s = ''Z'' then Some 0
      else case s of
        [sg, h1, h2, c, m1, m2] \<Rightarrow>
          if c = CHR '':'' \<and> list_all is_digit [h1, h2, m1, m2] \<and> sg \<in> {CHR ''+'', CHR ''-''}
          then (let hr = 10 * digit_val h1 + digit_val h2; mm = 10 * digit_val m1 + digit_val m2 in
                if hr > 24 \<or> mm > 60 then None
                else Some ((if sg = CHR ''-'' then -1 else 1) * ((hr * 60 + mm) * 60)))
          else None
      | _ \<Rightarrow> None)"

definition parse_rfc3339 :: "string \<Rightarrow> time option" where
  "parse_rfc3339 s =
     (case parse_wall s of
        Some (f, z) \<Rightarrow>
          map_option (\<lambda>off. (days_of (wf_year f) (wf_month f) (wf_day f) * 86400 + wf_second f - off) * ns_per_s + wf_nanos f)
            (parse_zone z)
      | None \<Rightarrow> None)"

text \<open>\<open>RFC3339Nano\<close>: the nanoseconds without trailing zeros, the offset in whole minutes.\<close>

fun digits_of :: "nat \<Rightarrow> int \<Rightarrow> string" where
  "digits_of 0 n = []"
| "digits_of (Suc k) n = digits_of k (n div 10) @ [digit (n mod 10)]"

definition strip_zeros :: "string \<Rightarrow> string" where
  "strip_zeros s = rev (dropWhile (\<lambda>c. c = CHR ''0'') (rev s))"

definition nano_text :: "int \<Rightarrow> string" where
  "nano_text ns = (let ds = strip_zeros (digits_of 9 ns) in if ds = [] then [] else CHR ''.'' # ds)"

definition zone_text :: "int \<Rightarrow> string" where
  "zone_text off =
     (if off = 0 then ''Z''
      else let z = \<bar>off\<bar> div 60 in
           (if - off < 60 then ''+'' else ''-'') @ pad2 (z div 60) @ '':'' @ pad2 (z mod 60))"

definition format_rfc3339_nano :: "location \<Rightarrow> time \<Rightarrow> string" where
  "format_rfc3339_nano loc t =
     format_local loc t @ nano_text (t mod ns_per_s) @ zone_text (offset_at loc (t div ns_per_s))"

section \<open>Parsing inverts printing\<close>

lemma digits_of_digits: "list_all is_digit (digits_of k n)"
  by (induction k arbitrary: n) simp_all

lemma length_digits_of [simp]: "length (digits_of k n) = k"
  by (induction k arbitrary: n) simp_all

lemma digits_of_value: "foldl (\<lambda>n c. 10 * n + digit_val c) 0 (digits_of k n) = n mod 10 ^ k"
proof (induction k arbitrary: n)
  case (Suc k)
  have "n mod 10 ^ Suc k = 10 * (n div 10 mod 10 ^ k) + n mod 10"
    using zmod_zmult2_eq [of "10 ^ k" n 10] by simp
  then show ?case by (simp add: Suc.IH)
qed simp

lemma strip_pad:
  "strip_zeros s @ replicate (length s - length (strip_zeros s)) (CHR ''0'') = s"
proof -
  let ?d = "\<lambda>c :: char. c = CHR ''0''"
  have "takeWhile ?d (rev s) = replicate (length (takeWhile ?d (rev s))) (CHR ''0'')"
    by (rule replicate_eqI) (auto dest: set_takeWhileD)
  moreover have "length (takeWhile ?d (rev s)) = length s - length (strip_zeros s)"
    using takeWhile_dropWhile_id [of ?d "rev s"]
    by (metis add_diff_cancel_right' length_append length_rev strip_zeros_def)
  moreover have "s = rev (dropWhile ?d (rev s)) @ rev (takeWhile ?d (rev s))"
    by (metis rev_append rev_rev_ident takeWhile_dropWhile_id)
  ultimately show ?thesis by (metis rev_replicate strip_zeros_def)
qed

lemma strip_digits: "list_all is_digit s \<Longrightarrow> list_all is_digit (strip_zeros s)"
  by (auto simp: strip_zeros_def list_all_iff dest: set_dropWhileD)

lemma not_digit_zone: "r \<noteq> [] \<and> hd r \<in> {CHR ''Z'', CHR ''+'', CHR ''-''} \<Longrightarrow> \<not> is_digit (hd r) \<and> hd r \<notin> {CHR ''.'', CHR '',''}"
  by (auto simp: is_digit_def)

lemma zeros_value: "foldl (\<lambda>n c. 10 * n + digit_val c) 0 (replicate k (CHR ''0'')) = 0"
  by (induction k) (simp_all add: digit_val_def)

lemma fraction_nano_text:
  assumes "0 \<le> ns" "ns < ns_per_s" "r \<noteq> []" "hd r \<in> {CHR ''Z'', CHR ''+'', CHR ''-''}"
  shows "fraction (nano_text ns @ r) = (ns, r)"
proof -
  obtain c q where r: "r = c # q" using assms(3) by (cases r) auto
  then have c: "\<not> is_digit c" "c \<noteq> CHR ''.''" "c \<noteq> CHR '',''" using not_digit_zone [of r] assms(4) by auto
  define ds where "ds = strip_zeros (digits_of 9 ns)"
  have d: "list_all is_digit ds" unfolding ds_def by (intro strip_digits digits_of_digits)
  have v: "foldl (\<lambda>n c. 10 * n + digit_val c) 0 (digits_of 9 ns) = ns"
    using assms(1,2) by (subst digits_of_value) (simp add: ns_per_s_def)
  have pad: "ds @ replicate (9 - length ds) (CHR ''0'') = digits_of 9 ns"
    using strip_pad [of "digits_of 9 ns"] by (simp add: ds_def)
  show ?thesis
  proof (cases ds)
    case Nil
    then have "replicate 9 (CHR ''0'') = digits_of 9 ns" using pad by simp
    then have "ns = 0" using v zeros_value [of 9] by simp
    moreover have "fraction r = (0, r)" using c by (cases q) (auto simp: r fraction_def)
    ultimately show ?thesis using Nil by (simp add: nano_text_def ds_def)
  next
    case (Cons e es)
    have l: "length ds \<le> 9" using arg_cong [OF pad, of length] by simp
    have "take 9 (ds @ replicate 9 (CHR ''0'')) = digits_of 9 ns"
      using l by (simp add: take_replicate min_def pad)
    then have "foldl (\<lambda>n c. 10 * n + digit_val c) 0 (take 9 (ds @ replicate 9 (CHR ''0''))) = ns"
      using v by (simp only:)
    moreover have "takeWhile is_digit (ds @ r) = ds" "dropWhile is_digit (ds @ r) = r"
      using d c(1) by (auto simp: r list_all_iff)
    then have "fraction (CHR ''.'' # ds @ r) =
        (foldl (\<lambda>n c. 10 * n + digit_val c) 0 (take 9 (ds @ replicate 9 (CHR ''0''))), r)"
      using d by (simp add: Cons fraction_def Let_def)
    moreover have "nano_text ns @ r = CHR ''.'' # ds @ r"
      using Cons by (simp add: nano_text_def flip: ds_def)
    ultimately show ?thesis by (simp only:)
  qed
qed

lemma parse_zone_text:
  assumes "\<bar>off\<bar> < 86400" "off mod 60 = 0"
  shows "parse_zone (zone_text off) = Some off"
proof (cases "off = 0")
  case False
  define z where "z = \<bar>off\<bar> div 60"
  have z: "60 * z = \<bar>off\<bar>" "0 < z" "z < 1440"
  proof -
    have "off = 60 * (off div 60)" using mult_div_mod_eq [of 60 off] assms(2) by simp
    then obtain k where "off = 60 * k" by blast
    then show "60 * z = \<bar>off\<bar>" "0 < z" "z < 1440"
      using assms(1) False by (auto simp: z_def abs_mult)
  qed
  have m: "60 * (z div 60) + z mod 60 = z" "0 \<le> z div 60" "z div 60 < 24" "0 \<le> z mod 60" "z mod 60 < 60"
    using z by auto
  define h n where "h = z div 60" and "n = z mod 60"
  have hn: "60 * h + n = z" "0 \<le> h" "h < 24" "0 \<le> n" "n < 60" using m by (simp_all add: h_def n_def)
  have t: "zone_text off = (if 0 < off then CHR ''+'' else CHR ''-'') #
      [digit (h div 10), digit (h mod 10), CHR '':'', digit (n div 10), digit (n mod 10)]"
    using False z by (auto simp: zone_text_def pad2_def Let_def h_def n_def simp flip: z_def)
  have d: "0 \<le> h div 10" "h div 10 \<le> 9" "0 \<le> h mod 10" "h mod 10 \<le> 9" "0 \<le> n div 10" "n div 10 \<le> 9"
    "0 \<le> n mod 10" "n mod 10 \<le> 9"
    using hn by auto
  have "parse_zone (zone_text off) = Some ((if 0 < off then 1 else -1) * ((h * 60 + n) * 60))"
    using hn d by (simp add: t parse_zone_def Let_def)
  also have "(if 0 < off then 1 else -1) * ((h * 60 + n) * 60) = off"
    using z hn False by (auto simp: abs_if split: if_splits)
  finally show ?thesis .
qed (simp add: zone_text_def parse_zone_def)

lemma hd_zone_text: "zone_text off \<noteq> [] \<and> hd (zone_text off) \<in> {CHR ''Z'', CHR ''+'', CHR ''-''}"
  by (simp add: zone_text_def Let_def)

lemma parse_wall_format:
  assumes "year_0_9999 w" "fraction r = (ns, rest)"
  obtains f where "parse_wall (format_wall w @ r) = Some (f, rest)" "wf_nanos f = ns"
    "days_of (wf_year f) (wf_month f) (wf_day f) * 86400 + wf_second f = w"
proof -
  obtain y m d where c: "civil (w div 86400) = (y, m, d)" by (cases "civil (w div 86400)") auto
  define s where "s = w mod 86400"
  have s: "0 \<le> s" "s < 86400" by (simp_all add: s_def)
  have v: "valid_date y m d" "days_of y m d = w div 86400" using days_of_civil [OF c] by simp_all
  have "parse_wall (format_wall w @ r) =
      Some (\<lparr>wf_year = y, wf_month = m, wf_day = d, wf_second = s, wf_nanos = ns\<rparr>, rest)"
    using parse_wall_text [of y m d "s div 3600" "s div 60 mod 60" "s mod 60" r ns rest]
      hms_split [OF s] civil_year [OF assms(1) c] v(1) assms(2)
    by (simp add: format_wall_def c format_civil_def flip: s_def)
  then show thesis by (rule that) (simp_all add: v(2) s_def)
qed

text \<open>An instant in years 0 to 9999, in a zone whose offset is whole minutes, is read back exactly.\<close>

lemma parse_format_rfc3339:
  assumes "year_0_9999 (wall_clock loc (t div ns_per_s))"
    and "\<bar>offset_at loc (t div ns_per_s)\<bar> < 86400" "offset_at loc (t div ns_per_s) mod 60 = 0"
  shows "parse_rfc3339 (format_rfc3339_nano loc t) = Some t"
proof -
  define off where "off = offset_at loc (t div ns_per_s)"
  have ns: "0 \<le> t mod ns_per_s" "t mod ns_per_s < ns_per_s" by (simp_all add: ns_per_s_def)
  have f: "fraction (nano_text (t mod ns_per_s) @ zone_text off) = (t mod ns_per_s, zone_text off)"
    using fraction_nano_text [OF ns] hd_zone_text by blast
  obtain f where w: "parse_wall (format_rfc3339_nano loc t) = Some (f, zone_text off)" "wf_nanos f = t mod ns_per_s"
    "days_of (wf_year f) (wf_month f) (wf_day f) * 86400 + wf_second f = wall_clock loc (t div ns_per_s)"
    using parse_wall_format [OF assms(1) f] by (auto simp: format_rfc3339_nano_def format_local_def off_def)
  have "parse_rfc3339 (format_rfc3339_nano loc t) = Some ((wall_clock loc (t div ns_per_s) - off) * ns_per_s + t mod ns_per_s)"
    using w parse_zone_text [of off] assms(2,3) by (simp add: parse_rfc3339_def off_def)
  also have "(wall_clock loc (t div ns_per_s) - off) * ns_per_s + t mod ns_per_s = t"
    by (simp add: wall_clock_def off_def)
  finally show ?thesis .
qed

end
