(* ===== verification/Json.thy ===== *)
theory Json
  imports Go_Text
begin

text \<open>
  encoding/json as the backend uses it: the scanner, which turns the bytes of a body or of a cursor
  into a value, and the decoding of a value into a struct. A string value and an object key keep
  the source text between their quotes, because \<open>time.Time\<close> reads that text and every other target
  reads what \<open>unquote\<close> makes of it. The scanner recurses with fuel; \<open>json_fuel\<close> is enough for
  every input (\<open>parse_value_fuel\<close>).
\<close>

datatype json =
    JNull
  | JBool bool
  | JNum string
  | JStr string
  | JArr "json list"
  | JObj "(string \<times> json) list"

section \<open>The scanner\<close>

definition is_ws :: "char \<Rightarrow> bool" where
  "is_ws c = (c = CHR '' '' \<or> c = CHR 0x09 \<or> c = CHR 0x0A \<or> c = CHR 0x0D)"

definition skip_ws :: "string \<Rightarrow> string" where
  "skip_ws s = dropWhile is_ws s"

definition hex_val :: "char \<Rightarrow> nat option" where
  "hex_val c = (let n = of_char c :: nat in
     if 48 \<le> n \<and> n \<le> 57 then Some (n - 48)
     else if 97 \<le> n \<and> n \<le> 102 then Some (n - 87)
     else if 65 \<le> n \<and> n \<le> 70 then Some (n - 55) else None)"

definition four_hex :: "string \<Rightarrow> nat option" where
  "four_hex s = (case s of
       a # b # c # d # r \<Rightarrow>
         (case (hex_val a, hex_val b, hex_val c, hex_val d) of
            (Some a, Some b, Some c, Some d) \<Rightarrow> Some (((a * 16 + b) * 16 + c) * 16 + d)
          | _ \<Rightarrow> None)
     | _ \<Rightarrow> None)"

definition is_escape :: "char \<Rightarrow> bool" where
  "is_escape e = (e \<in> {CHR ''b'', CHR ''f'', CHR ''n'', CHR ''r'', CHR ''t'', CHR 0x5C, CHR ''/'', CHR 0x22})"

text \<open>The text up to the closing quote, escapes checked and kept as they are, and the rest.\<close>

fun scan_string :: "string \<Rightarrow> (string \<times> string) option" where
  "scan_string [] = None"
| "scan_string (c # r) =
     (if c = CHR 0x22 then Some ([], r)
      else if c = CHR 0x5C then
        (case r of
           [] \<Rightarrow> None
         | e # q \<Rightarrow>
             if e = CHR ''u''
             then (if four_hex q = None then None else map_option (\<lambda>(x, y). (c # e # x, y)) (scan_string q))
             else if is_escape e
             then map_option (\<lambda>(x, y). (c # e # x, y)) (scan_string q)
             else None)
      else if (of_char c :: nat) < 32 then None
      else map_option (\<lambda>(x, y). (c # x, y)) (scan_string r))"

text \<open>\<open>-? (0 | [1-9][0-9]*) (. [0-9]+)? ([eE] [+-]? [0-9]+)?\<close>\<close>

definition scan_digits :: "string \<Rightarrow> (string \<times> string) option" where
  "scan_digits s = (if takeWhile is_digit s = [] then None else Some (takeWhile is_digit s, dropWhile is_digit s))"

definition scan_int :: "string \<Rightarrow> (string \<times> string) option" where
  "scan_int s = (case s of c # r \<Rightarrow> if c = CHR ''0'' then Some ([c], r) else scan_digits s | [] \<Rightarrow> None)"

definition scan_frac :: "string \<Rightarrow> (string \<times> string) option" where
  "scan_frac s = (case s of
       c # r \<Rightarrow> if c = CHR ''.'' then map_option (\<lambda>(x, y). (c # x, y)) (scan_digits r) else Some ([], s)
     | [] \<Rightarrow> Some ([], s))"

definition scan_exp :: "string \<Rightarrow> (string \<times> string) option" where
  "scan_exp s = (case s of
       c # r \<Rightarrow>
         if c = CHR ''e'' \<or> c = CHR ''E''
         then (case r of
                 d # q \<Rightarrow> if d = CHR ''+'' \<or> d = CHR ''-'' then map_option (\<lambda>(x, y). (c # d # x, y)) (scan_digits q)
                          else map_option (\<lambda>(x, y). (c # x, y)) (scan_digits r)
               | [] \<Rightarrow> None)
         else Some ([], s)
     | [] \<Rightarrow> Some ([], s))"

definition scan_number :: "string \<Rightarrow> (string \<times> string) option" where
  "scan_number s =
     (let (sg, s) = (case s of c # r \<Rightarrow> if c = CHR ''-'' then ([c], r) else ([], s) | [] \<Rightarrow> ([], s)) in
      Option.bind (scan_int s) (\<lambda>(i, s). Option.bind (scan_frac s) (\<lambda>(f, s).
      map_option (\<lambda>(e, s). (sg @ i @ f @ e, s)) (scan_exp s))))"

definition scan_literal :: "string \<Rightarrow> json \<Rightarrow> string \<Rightarrow> (json \<times> string) option" where
  "scan_literal w v s = (if take (length w) s = w then Some (v, drop (length w) s) else None)"

text \<open>Objects and arrays nest at most 10000 deep.\<close>

fun parse_value :: "nat \<Rightarrow> nat \<Rightarrow> string \<Rightarrow> (json \<times> string) option"
  and parse_elems :: "nat \<Rightarrow> nat \<Rightarrow> string \<Rightarrow> (json list \<times> string) option"
  and parse_members :: "nat \<Rightarrow> nat \<Rightarrow> string \<Rightarrow> ((string \<times> json) list \<times> string) option" where
  "parse_value 0 d s = None"
| "parse_value (Suc n) d s =
     (case skip_ws s of
        [] \<Rightarrow> None
      | c # r \<Rightarrow>
          if c = CHR 0x22 then map_option (\<lambda>(x, q). (JStr x, q)) (scan_string r)
          else if c = CHR ''{'' then
            (if d = 0 then None
             else if take 1 (skip_ws r) = ''}'' then Some (JObj [], drop 1 (skip_ws r))
             else map_option (\<lambda>(ms, q). (JObj ms, q)) (parse_members n (d - 1) r))
          else if c = CHR ''['' then
            (if d = 0 then None
             else if take 1 (skip_ws r) = '']'' then Some (JArr [], drop 1 (skip_ws r))
             else map_option (\<lambda>(vs, q). (JArr vs, q)) (parse_elems n (d - 1) r))
          else if c = CHR ''t'' then scan_literal ''true'' (JBool True) (c # r)
          else if c = CHR ''f'' then scan_literal ''false'' (JBool False) (c # r)
          else if c = CHR ''n'' then scan_literal ''null'' JNull (c # r)
          else map_option (\<lambda>(x, q). (JNum x, q)) (scan_number (c # r)))"
| "parse_elems 0 d s = None"
| "parse_elems (Suc n) d s =
     (case parse_value n d s of
        None \<Rightarrow> None
      | Some (v, q) \<Rightarrow>
          (case skip_ws q of
             [] \<Rightarrow> None
           | c # r \<Rightarrow>
               if c = CHR '','' then map_option (\<lambda>(vs, q). (v # vs, q)) (parse_elems n d r)
               else if c = CHR '']'' then Some ([v], r) else None))"
| "parse_members 0 d s = None"
| "parse_members (Suc n) d s =
     (case skip_ws s of
        [] \<Rightarrow> None
      | c # r \<Rightarrow>
          if c \<noteq> CHR 0x22 then None
          else (case scan_string r of
              None \<Rightarrow> None
            | Some (k, q) \<Rightarrow>
                if take 1 (skip_ws q) \<noteq> '':'' then None
                else (case parse_value n d (drop 1 (skip_ws q)) of
                    None \<Rightarrow> None
                  | Some (v, q) \<Rightarrow>
                      (case skip_ws q of
                         [] \<Rightarrow> None
                       | c # r \<Rightarrow>
                           if c = CHR '','' then map_option (\<lambda>(ms, q). ((k, v) # ms, q)) (parse_members n d r)
                           else if c = CHR ''}'' then Some ([(k, v)], r) else None))))"

definition json_fuel :: "string \<Rightarrow> nat" where
  "json_fuel s = 2 * length s + 2"

text \<open>\<open>Decoder.Decode\<close> takes the first value of the input, \<open>Unmarshal\<close> wants nothing but white space after it.\<close>

definition json_first :: "string \<Rightarrow> json option" where
  "json_first s = map_option fst (parse_value (json_fuel s) 10000 s)"

definition json_whole :: "string \<Rightarrow> json option" where
  "json_whole s =
     (case parse_value (json_fuel s) 10000 s of
        Some (v, q) \<Rightarrow> if skip_ws q = [] then Some v else None
      | None \<Rightarrow> None)"


section \<open>String values\<close>

text \<open>
  The number of bytes of the UTF-8 encoded rune at the head of the text, 0 when there is none:
  \<open>utf8.DecodeRune\<close>.
\<close>

definition byte_in :: "nat \<Rightarrow> nat \<Rightarrow> char \<Rightarrow> bool" where
  "byte_in lo hi c = (lo \<le> (of_char c :: nat) \<and> (of_char c :: nat) \<le> hi)"

definition rune_length :: "string \<Rightarrow> nat" where
  "rune_length s = (case s of
       [] \<Rightarrow> 0
     | a # r \<Rightarrow>
         if byte_in 0x00 0x7F a then 1
         else if byte_in 0xC2 0xDF a then
           (case r of b # q \<Rightarrow> if byte_in 0x80 0xBF b then 2 else 0 | _ \<Rightarrow> 0)
         else if byte_in 0xE0 0xEF a then
           (case r of b # c # q \<Rightarrow>
              if byte_in (if byte_in 0xE0 0xE0 a then 0xA0 else 0x80) (if byte_in 0xED 0xED a then 0x9F else 0xBF) b
                \<and> byte_in 0x80 0xBF c then 3 else 0 | _ \<Rightarrow> 0)
         else if byte_in 0xF0 0xF4 a then
           (case r of b # c # d # q \<Rightarrow>
              if byte_in (if byte_in 0xF0 0xF0 a then 0x90 else 0x80) (if byte_in 0xF4 0xF4 a then 0x8F else 0xBF) b
                \<and> byte_in 0x80 0xBF c \<and> byte_in 0x80 0xBF d then 4 else 0 | _ \<Rightarrow> 0)
         else 0)"

definition byte :: "nat \<Rightarrow> char" where
  "byte n = char_of n"

definition encode_rune :: "nat \<Rightarrow> string" where
  "encode_rune n =
     (if n < 0x80 then [byte n]
      else if n < 0x800 then [byte (0xC0 + n div 64), byte (0x80 + n mod 64)]
      else if n < 0x10000 then [byte (0xE0 + n div 4096), byte (0x80 + n div 64 mod 64), byte (0x80 + n mod 64)]
      else [byte (0xF0 + n div 262144), byte (0x80 + n div 4096 mod 64), byte (0x80 + n div 64 mod 64), byte (0x80 + n mod 64)])"

text \<open>What a \<open>\u\<close> escape stands for, and how many bytes after the \<open>\u\<close> it takes: a surrogate pair is one rune.\<close>

definition unicode_escape :: "string \<Rightarrow> string \<times> nat" where
  "unicode_escape s =
     (case four_hex s of
        None \<Rightarrow> ([], 0)
      | Some h \<Rightarrow>
          if 0xD800 \<le> h \<and> h < 0xE000
          then (case (take 2 (drop 4 s) = [CHR 0x5C, CHR ''u''], four_hex (drop 6 s)) of
                  (True, Some l) \<Rightarrow>
                    if h < 0xDC00 \<and> 0xDC00 \<le> l \<and> l < 0xE000
                    then (encode_rune ((h - 0xD800) * 1024 + (l - 0xDC00) + 0x10000), 10)
                    else (encode_rune 0xFFFD, 4)
                | _ \<Rightarrow> (encode_rune 0xFFFD, 4))
          else (encode_rune h, 4))"

definition simple_escape :: "char \<Rightarrow> char" where
  "simple_escape e =
     (if e = CHR ''b'' then CHR 0x08 else if e = CHR ''f'' then CHR 0x0C else if e = CHR ''n'' then CHR 0x0A
      else if e = CHR ''r'' then CHR 0x0D else if e = CHR ''t'' then CHR 0x09 else e)"

function unquote :: "string \<Rightarrow> string" where
  "unquote s = (case s of
       [] \<Rightarrow> []
     | c # r \<Rightarrow>
         if c = CHR 0x5C then
           (case r of
              [] \<Rightarrow> []
            | e # q \<Rightarrow>
                if e = CHR ''u'' then fst (unicode_escape q) @ unquote (drop (snd (unicode_escape q)) q)
                else simple_escape e # unquote q)
         else if rune_length s = 0 then encode_rune 0xFFFD @ unquote r
         else take (rune_length s) s @ unquote (drop (rune_length s) s))"
  by auto
termination by (relation "measure length") auto

declare unquote.simps [simp del]

section \<open>Decoding into structs\<close>

text \<open>
  A struct is a list of named fields, each with the function that stores a value in it and fails
  on a value of the wrong kind. A key is looked up exactly, then folded; an unknown key is skipped.
\<close>

type_synonym 'a field = "json \<Rightarrow> 'a \<Rightarrow> 'a option"

text \<open>\<open>foldName\<close> on what can match an ASCII field name: letters, the long s and the Kelvin sign.\<close>

fun fold_key :: "string \<Rightarrow> string" where
  "fold_key [] = []"
| "fold_key (c # r) =
     (if byte_in 97 122 c then byte (of_char c - 32) # fold_key r
      else if c = CHR 0xC5 \<and> take 1 r = [CHR 0xBF] then CHR ''S'' # fold_key (drop 1 r)
      else if c = CHR 0xE2 \<and> take 2 r = [CHR 0x84, CHR 0xAA] then CHR ''K'' # fold_key (drop 2 r)
      else c # fold_key r)"

definition find_field :: "(string \<times> 'a field) list \<Rightarrow> string \<Rightarrow> 'a field option" where
  "find_field fs k =
     (case map_of fs k of
        Some f \<Rightarrow> Some f
      | None \<Rightarrow> map_option snd (find (\<lambda>(n, f). fold_key n = fold_key k) fs))"

fun decode_members :: "(string \<times> 'a field) list \<Rightarrow> (string \<times> json) list \<Rightarrow> 'a \<Rightarrow> 'a option" where
  "decode_members fs [] z = Some z"
| "decode_members fs ((k, v) # ms) z =
     (case find_field fs (unquote k) of
        None \<Rightarrow> decode_members fs ms z
      | Some f \<Rightarrow> Option.bind (f v z) (decode_members fs ms))"

definition decode_struct :: "(string \<times> 'a field) list \<Rightarrow> 'a field" where
  "decode_struct fs v z =
     (case v of JNull \<Rightarrow> Some z | JObj ms \<Rightarrow> decode_members fs ms z | _ \<Rightarrow> None)"

text \<open>Targets of type string, int, time and pointer: \<open>null\<close> leaves a value as it is and clears a pointer.\<close>

fun to_string :: "string field" where
  "to_string JNull z = Some z"
| "to_string (JStr r) z = Some (unquote r)"
| "to_string _ z = None"

fun to_int :: "int field" where
  "to_int JNull z = Some z"
| "to_int (JNum s) z = atoi s"
| "to_int _ z = None"

fun to_time :: "time field" where
  "to_time JNull z = Some z"
| "to_time (JStr r) z = parse_rfc3339 r"
| "to_time _ z = None"

definition to_pointer :: "'a field \<Rightarrow> 'a \<Rightarrow> 'a option field" where
  "to_pointer f zero v z =
     (if v = JNull then Some None
      else map_option Some (f v (case z of None \<Rightarrow> zero | Some x \<Rightarrow> x)))"

text \<open>\<open>Optional.UnmarshalJSON\<close>: the field was present, and its value is decoded on top of the old one.\<close>

definition to_optional :: "'a field \<Rightarrow> 'a optional field" where
  "to_optional f v z = map_option opt_of (f v (opt_value z))"

text \<open>A slice is decoded afresh (a repeated key would be decoded on top of the elements before it).\<close>

fun to_elems :: "'a field \<Rightarrow> 'a \<Rightarrow> json list \<Rightarrow> 'a list option" where
  "to_elems f zero [] = Some []"
| "to_elems f zero (v # vs) = Option.bind (f v zero) (\<lambda>x. map_option ((#) x) (to_elems f zero vs))"

fun to_slice :: "'a field \<Rightarrow> 'a \<Rightarrow> 'a list field" where
  "to_slice f zero JNull z = Some []"
| "to_slice f zero (JArr vs) z = to_elems f zero vs"
| "to_slice f zero _ z = None"

definition in_field :: "('s \<Rightarrow> 'a) \<Rightarrow> (('a \<Rightarrow> 'a) \<Rightarrow> 's \<Rightarrow> 's) \<Rightarrow> 'a field \<Rightarrow> 's field" where
  "in_field get upd f v z = map_option (\<lambda>x. upd (\<lambda>_. x) z) (f v (get z))"


section \<open>The fuel is enough\<close>

lemma skip_ws_le: "length (skip_ws s) \<le> length s"
  by (simp add: skip_ws_def length_dropWhile_le)

lemma skip_ws_Cons: "skip_ws s = c # r \<Longrightarrow> length r < length s"
  using skip_ws_le [of s] by simp

lemma skip_ws_drop: "take 1 (skip_ws s) = [c] \<Longrightarrow> length (drop 1 (skip_ws s)) < length s"
  using skip_ws_le [of s] by (cases "skip_ws s") auto

lemma scan_string_shorter: "scan_string s = Some (x, q) \<Longrightarrow> length q < length s"
proof (induction s arbitrary: x q rule: length_induct)
  case (1 s)
  then have IH: "scan_string t = Some (x, q) \<Longrightarrow> length t < length s \<Longrightarrow> length q < length t" for t x q
    by blast
  obtain c r where s: "s = c # r" using 1(2) by (cases s) auto
  have "scan_string r = Some (y, q) \<Longrightarrow> length q < length r" for y
    by (rule IH) (simp_all add: s)
  moreover have "r = e # t \<Longrightarrow> scan_string t = Some (y, q) \<Longrightarrow> length q < length t" for e t y
    by (rule IH) (simp_all add: s)
  ultimately show ?case
    using 1(2) by (fastforce simp: s split: if_splits list.splits)
qed

lemma scan_digits_shorter: "scan_digits s = Some (x, q) \<Longrightarrow> length q < length s"
  using takeWhile_dropWhile_id [of is_digit s] length_append [of "takeWhile is_digit s" "dropWhile is_digit s"]
  by (auto simp: scan_digits_def split: if_splits)

lemma scan_int_shorter: "scan_int s = Some (x, q) \<Longrightarrow> length q < length s"
  by (auto simp: scan_int_def split: list.splits if_splits dest: scan_digits_shorter)

lemma scan_frac_le: "scan_frac s = Some (x, q) \<Longrightarrow> length q \<le> length s"
  by (auto simp: scan_frac_def split: list.splits if_splits dest!: scan_digits_shorter)

lemma scan_exp_le: "scan_exp s = Some (x, q) \<Longrightarrow> length q \<le> length s"
  by (auto simp: scan_exp_def split: list.splits if_splits dest!: scan_digits_shorter)

lemma scan_number_shorter: "scan_number s = Some (x, q) \<Longrightarrow> length q < length s"
  by (auto simp: scan_number_def Option.bind_eq_Some_conv split: list.splits if_splits
      dest!: scan_int_shorter scan_frac_le scan_exp_le)

lemma scan_literal_shorter: "scan_literal w v s = Some (x, q) \<Longrightarrow> w \<noteq> [] \<Longrightarrow> length q < length s"
  by (cases s; cases w) (auto simp: scan_literal_def split: if_splits)

lemma parse_shorter:
  "parse_value n d s = Some (v, q) \<Longrightarrow> length q < length s"
  "parse_elems n d s = Some (vs, q) \<Longrightarrow> length q < length s"
  "parse_members n d s = Some (ms, q) \<Longrightarrow> length q < length s"
proof (induction n d s and n d s and n d s arbitrary: v q and vs q and ms q
    rule: parse_value_parse_elems_parse_members.induct)
  case (2 n d s)
  obtain c r where cr: "skip_ws s = c # r" using 2(3) by (cases "skip_ws s") auto
  have l: "length r < length s" using skip_ws_Cons [OF cr] .
  have lit: "scan_literal w u (c # r) = Some (v, q) \<Longrightarrow> w \<noteq> [] \<Longrightarrow> length q < length s" for w u
    using scan_literal_shorter [of w u "c # r"] skip_ws_le [of s] cr by fastforce
  have num: "scan_number (c # r) = Some (x, q) \<Longrightarrow> length q < length s" for x
    using scan_number_shorter [of "c # r" x q] skip_ws_le [of s] cr by simp
  have str: "scan_string r = Some (x, q) \<Longrightarrow> length q < length s" for x
    using scan_string_shorter [of r x q] l by simp
  have ws: "length (drop 1 (skip_ws r)) < length s" using skip_ws_le [of r] l by simp
  have ms: "c = CHR ''{'' \<Longrightarrow> d \<noteq> 0 \<Longrightarrow> take 1 (skip_ws r) \<noteq> ''}'' \<Longrightarrow> parse_members n (d - 1) r = Some (ms, q) \<Longrightarrow> length q < length s" for ms
    using 2(1) [OF cr] l by force
  have vs: "c = CHR ''['' \<Longrightarrow> d \<noteq> 0 \<Longrightarrow> take 1 (skip_ws r) \<noteq> '']'' \<Longrightarrow> parse_elems n (d - 1) r = Some (vs, q) \<Longrightarrow> length q < length s" for vs
    using 2(2) [OF cr] l by force
  consider "c = CHR 0x22" | "c = CHR ''{''" | "c = CHR ''[''" | "c \<noteq> CHR 0x22" "c \<noteq> CHR ''{''" "c \<noteq> CHR ''[''" by blast
  then show ?case
  proof cases
    case 1 then show ?thesis using 2(3) cr str by auto
  next
    case 2 then show ?thesis using \<open>parse_value (Suc n) d s = Some (v, q)\<close> cr ws ms by (auto split: if_splits)
  next
    case 3 then show ?thesis using 2(3) cr ws vs by (auto split: if_splits)
  next
    case 4 then show ?thesis using 2(3) cr lit num by (auto split: if_splits)
  qed
next
  case (4 n d s)
  obtain v q' where v: "parse_value n d s = Some (v, q')" using 4(3) by (cases "parse_value n d s") auto
  obtain c r where cr: "skip_ws q' = c # r" using 4(3) v by (cases "skip_ws q'") auto
  have l: "length r < length s" using skip_ws_Cons [OF cr] 4(1) [OF v] by simp
  have vs: "c = CHR '','' \<Longrightarrow> parse_elems n d r = Some (vs, q) \<Longrightarrow> length q < length s" for vs
    using 4(2) [OF v refl cr] l by force
  from 4(3) l vs show ?case by (auto simp: v cr split: if_splits)
next
  case (6 n d s)
  obtain r where r: "skip_ws s = CHR 0x22 # r" using 6(3) by (auto split: list.splits if_splits)
  obtain k q1 where k: "scan_string r = Some (k, q1)" using 6(3) r by (cases "scan_string r") auto
  have c: "take 1 (skip_ws q1) = '':''" using 6(3) r k by (auto split: if_splits)
  obtain v q2 where v: "parse_value n d (drop 1 (skip_ws q1)) = Some (v, q2)"
    using 6(3) r k c by (cases "parse_value n d (drop 1 (skip_ws q1))") auto
  obtain e t where e: "skip_ws q2 = e # t" using 6(3) r k c v by (cases "skip_ws q2") auto
  have "length q2 < length (drop 1 (skip_ws q1))"
    using 6(1) [OF r _ k refl _ v] c by simp
  then have l: "length t < length s"
    using skip_ws_Cons [OF e] skip_ws_drop [OF c] scan_string_shorter [OF k] skip_ws_Cons [OF r] by linarith
  have ms: "e = CHR '','' \<Longrightarrow> parse_members n d t = Some (ms, q) \<Longrightarrow> length q < length s" for ms
    using 6(2) [OF r _ k refl _ v refl e] c l by force
  from 6(3) l ms show ?case by (auto simp: r k c v [simplified] e split: if_splits)
qed simp_all


text \<open>One more unit of fuel changes nothing once there are two units for each byte.\<close>

lemma parse_fuel_Suc:
  "2 * length s + 2 \<le> n \<Longrightarrow> parse_value (Suc n) d s = parse_value n d s"
  "2 * length s + 3 \<le> n \<Longrightarrow> parse_elems (Suc n) d s = parse_elems n d s"
  "2 * length s + 2 \<le> n \<Longrightarrow> parse_members (Suc n) d s = parse_members n d s"
proof (induction n d s and n d s and n d s rule: parse_value_parse_elems_parse_members.induct)
  case (2 n d s)
  show ?case
  proof (cases "skip_ws s")
    case (Cons c r)
    have l: "length r < length s" using skip_ws_Cons [OF Cons] .
    have "c = CHR ''{'' \<Longrightarrow> d \<noteq> 0 \<Longrightarrow> take 1 (skip_ws r) \<noteq> ''}'' \<Longrightarrow>
        parse_members (Suc n) (d - 1) r = parse_members n (d - 1) r"
      using 2(1) [OF Cons] 2(3) l by simp
    moreover have "c = CHR ''['' \<Longrightarrow> d \<noteq> 0 \<Longrightarrow> take 1 (skip_ws r) \<noteq> '']'' \<Longrightarrow>
        parse_elems (Suc n) (d - 1) r = parse_elems n (d - 1) r"
      using 2(2) [OF Cons] 2(3) l by simp
    ultimately show ?thesis
      by (simp add: Cons parse_value.simps(2) del: parse_members.simps parse_elems.simps)
  qed simp
next
  case (4 n d s)
  have v: "parse_value (Suc n) d s = parse_value n d s" using 4(1,3) by simp
  have "parse_elems (Suc n) d r = parse_elems n d r"
    if "parse_value n d s = Some (u, q)" "skip_ws q = CHR '','' # r" for u q r
  proof -
    have "length q < length s" using parse_shorter(1) [OF that(1)] .
    then have "2 * length r + 3 \<le> n" using skip_ws_Cons [OF that(2)] 4(3) by simp
    then show ?thesis using 4(2) [OF that(1) refl that(2)] by simp
  qed
  then show ?case
    by (simp add: v parse_elems.simps(2) del: parse_value.simps split: option.split list.split)
next
  case (6 n d s)
  have v: "parse_value (Suc n) d (drop 1 (skip_ws q)) = parse_value n d (drop 1 (skip_ws q))"
    if "skip_ws s = CHR 0x22 # r" "scan_string r = Some (k, q)" "take 1 (skip_ws q) = '':''" for r k q
  proof -
    have "length (drop 1 (skip_ws q)) < length s"
      using skip_ws_drop [OF that(3)] scan_string_shorter [OF that(2)] skip_ws_Cons [OF that(1)] by linarith
    then show ?thesis using 6(1) [OF that(1) _ that(2) refl] that(3) 6(3) by simp
  qed
  have ms: "parse_members (Suc n) d t = parse_members n d t"
    if "skip_ws s = CHR 0x22 # r" "scan_string r = Some (k, q)" "take 1 (skip_ws q) = '':''"
      "parse_value n d (drop 1 (skip_ws q)) = Some (u, q2)" "skip_ws q2 = CHR '','' # t" for r k q u q2 t
  proof -
    have "2 * length t + 2 \<le> n"
      using parse_shorter(1) [OF that(4)] skip_ws_Cons [OF that(5)] skip_ws_drop [OF that(3)]
        scan_string_shorter [OF that(2)] skip_ws_Cons [OF that(1)] 6(3) by linarith
    then show ?thesis using 6(2) [OF that(1) _ that(2) refl _ that(4) refl that(5)] that(3) by simp
  qed
  show ?case
    by (subst (1 2) parse_members.simps)
      (use v ms in \<open>simp del: parse_value.simps parse_members.simps split: option.split list.split\<close>)
qed simp_all

lemma parse_value_fuel:
  assumes "json_fuel s \<le> n"
  shows "parse_value n d s = parse_value (json_fuel s) d s"
  using assms by (induction n rule: dec_induct) (simp_all only: parse_fuel_Suc(1) json_fuel_def)

end
