(* ===== verification/Cursor_Token.thy ===== *)
theory Cursor_Token
  imports Json
begin

text \<open>
  internal/utils/cursor.go: the opaque page token, which is the JSON text of a creation time and an
  id in unpadded URL-safe base64. The round trip says that a client which hands a token back names
  the row the page ended with, to the nanosecond.
\<close>

section \<open>base64.RawURLEncoding\<close>

definition sextet_char :: "nat \<Rightarrow> char" where
  "sextet_char n =
     byte (if n < 26 then 65 + n else if n < 52 then 71 + n else if n < 62 then n - 4 else if n = 62 then 45 else 95)"

definition sextet_val :: "char \<Rightarrow> nat option" where
  "sextet_val c = (let n = of_char c :: nat in
     if 65 \<le> n \<and> n \<le> 90 then Some (n - 65) else if 97 \<le> n \<and> n \<le> 122 then Some (n - 71)
     else if 48 \<le> n \<and> n \<le> 57 then Some (n + 4) else if n = 45 then Some 62 else if n = 95 then Some 63 else None)"

fun sextets :: "nat list \<Rightarrow> nat list" where
  "sextets (a # b # c # r) = a div 4 # (a mod 4 * 16 + b div 16) # (b mod 16 * 4 + c div 64) # c mod 64 # sextets r"
| "sextets [a, b] = [a div 4, a mod 4 * 16 + b div 16, b mod 16 * 4]"
| "sextets [a] = [a div 4, a mod 4 * 16]"
| "sextets [] = []"

text \<open>The bits left over in a last incomplete group are not looked at.\<close>

fun octets :: "nat list \<Rightarrow> nat list option" where
  "octets (p # q # r # t # s) = map_option (\<lambda>bs. (p * 4 + q div 16) # (q mod 16 * 16 + r div 4) # (r mod 4 * 64 + t) # bs) (octets s)"
| "octets [p, q, r] = Some [p * 4 + q div 16, q mod 16 * 16 + r div 4]"
| "octets [p, q] = Some [p * 4 + q div 16]"
| "octets [p] = None"
| "octets [] = Some []"

fun all_some :: "'a option list \<Rightarrow> 'a list option" where
  "all_some [] = Some []"
| "all_some (None # xs) = None"
| "all_some (Some x # xs) = map_option ((#) x) (all_some xs)"

definition base64_encode :: "string \<Rightarrow> string" where
  "base64_encode s = map sextet_char (sextets (map of_char s))"

text \<open>Carriage returns and line feeds are skipped.\<close>

definition base64_decode :: "string \<Rightarrow> string option" where
  "base64_decode s =
     (case all_some (map sextet_val (filter (\<lambda>c. c \<noteq> CHR 0x0A \<and> c \<noteq> CHR 0x0D) s)) of
        None \<Rightarrow> None
      | Some xs \<Rightarrow> map_option (map byte) (octets xs))"

section \<open>The payload\<close>

record cursorPayload =
  cp_created_at :: time
  cp_id :: string

definition cursor_fields :: "(string \<times> cursorPayload field) list" where
  "cursor_fields =
     [(''created_at'', in_field cp_created_at cp_created_at_update to_time),
      (''id'', in_field cp_id cp_id_update to_string)]"

definition hex_digit :: "nat \<Rightarrow> char" where
  "hex_digit n = (if n < 10 then byte (48 + n) else byte (87 + n))"

text \<open>A string as \<open>Marshal\<close> writes it, for valid UTF-8 without the two line separators it also escapes.\<close>

definition quote_char :: "char \<Rightarrow> string" where
  "quote_char c =
     (if c = CHR 0x22 \<or> c = CHR 0x5C then [CHR 0x5C, c]
      else if c = CHR 0x08 then [CHR 0x5C, CHR ''b''] else if c = CHR 0x0C then [CHR 0x5C, CHR ''f'']
      else if c = CHR 0x0A then [CHR 0x5C, CHR ''n''] else if c = CHR 0x0D then [CHR 0x5C, CHR ''r'']
      else if c = CHR 0x09 then [CHR 0x5C, CHR ''t'']
      else if (of_char c :: nat) < 32 \<or> c \<in> {CHR ''<'', CHR ''>'', CHR ''&''}
      then [CHR 0x5C, CHR ''u'', CHR ''0'', CHR ''0'', hex_digit (of_char c div 16), hex_digit (of_char c mod 16)]
      else [c])"

definition json_string :: "string \<Rightarrow> string" where
  "json_string s = [CHR 0x22] @ concat (map quote_char s) @ [CHR 0x22]"

text \<open>The time is printed in the zone its value carries.\<close>

definition cursor_json :: "location \<Rightarrow> time \<Rightarrow> string \<Rightarrow> string" where
  "cursor_json loc created_at ident =
     ''{'' @ json_string ''created_at'' @ '':'' @ [CHR 0x22] @ format_rfc3339_nano loc created_at @ [CHR 0x22] @
     '','' @ json_string ''id'' @ '':'' @ json_string ident @ ''}''"

definition EncodeCursor :: "location \<Rightarrow> time \<Rightarrow> string \<Rightarrow> string" where
  "EncodeCursor loc created_at ident = base64_encode (cursor_json loc created_at ident)"

definition DecodeCursor :: "string \<Rightarrow> (time \<times> string) option" where
  "DecodeCursor token =
     Option.bind (base64_decode token) (\<lambda>data.
     Option.bind (json_whole data) (\<lambda>v.
     Option.bind (decode_struct cursor_fields v \<lparr>cp_created_at = 0, cp_id = []\<rparr>) (\<lambda>p.
       if cp_id p = [] \<or> cp_created_at p = 0 then None else Some (cp_created_at p, cp_id p))))"

section \<open>base64 round trip\<close>

lemma sextet_val_char: "n < 64 \<Longrightarrow> sextet_val (sextet_char n) = Some n"
  by (auto simp: sextet_val_def sextet_char_def byte_def of_char_of Let_def)

lemma sextet_char_kept: "n < 64 \<Longrightarrow> sextet_char n \<noteq> CHR 0x0A \<and> sextet_char n \<noteq> CHR 0x0D"
  by (auto dest: sextet_val_char simp: sextet_val_def)

lemma sextets_small: "\<forall>x \<in> set bs. x < 256 \<Longrightarrow> \<forall>x \<in> set (sextets bs). x < 64"
  by (induction bs rule: sextets.induct) auto

lemma all_some_map: "all_some (map Some xs) = Some xs"
  by (induction xs) simp_all

lemma octets_sextets: "\<forall>x \<in> set bs. x < 256 \<Longrightarrow> octets (sextets bs) = Some bs"
proof (induction bs rule: sextets.induct)
  case (1 a b c r)
  have "a div 4 * 4 + (a mod 4 * 16 + b div 16) div 16 = a"
    "(a mod 4 * 16 + b div 16) mod 16 * 16 + (b mod 16 * 4 + c div 64) div 4 = b"
    "(b mod 16 * 4 + c div 64) mod 4 * 64 + c mod 64 = c"
    using 1(2) by auto
  then show ?case using 1 by simp
qed auto

lemma base64_round_trip: "base64_decode (base64_encode s) = Some s"
proof -
  have small: "\<forall>x \<in> set (sextets (map of_char s)). x < 64"
    by (rule sextets_small) auto
  then have "filter (\<lambda>c. c \<noteq> CHR 0x0A \<and> c \<noteq> CHR 0x0D) (base64_encode s) = base64_encode s"
    using sextet_char_kept by (auto simp: base64_encode_def filter_id_conv)
  moreover have "map sextet_val (base64_encode s) = map Some (sextets (map of_char s))"
    using small sextet_val_char by (simp add: base64_encode_def)
  moreover have "octets (sextets (map of_char s)) = Some (map of_char s)"
    by (rule octets_sextets) auto
  ultimately show ?thesis
    by (simp add: base64_decode_def all_some_map byte_def map_idI)
qed


section \<open>Token round trip\<close>

text \<open>Text that needs no escaping: printable ASCII without the quote, the backslash and the HTML characters.\<close>

definition plain :: "char \<Rightarrow> bool" where
  "plain c = (byte_in 32 126 c \<and> c \<notin> {CHR 0x22, CHR 0x5C, CHR ''<'', CHR ''>'', CHR ''&''})"

lemma plain_noteq: "plain c \<Longrightarrow> \<not> plain d \<Longrightarrow> c \<noteq> d"
  by blast

lemma not_plain: "\<not> plain (CHR 0x22)" "\<not> plain (CHR 0x5C)" "\<not> plain (CHR 0x08)" "\<not> plain (CHR 0x0C)"
  "\<not> plain (CHR 0x0A)" "\<not> plain (CHR 0x0D)" "\<not> plain (CHR 0x09)" "\<not> plain (CHR ''<'')" "\<not> plain (CHR ''>'')"
  "\<not> plain (CHR ''&'')"
  by (simp_all add: plain_def byte_in_def)

lemma plain_range: "plain c \<Longrightarrow> 32 \<le> (of_char c :: nat) \<and> (of_char c :: nat) \<le> 126"
  by (simp add: plain_def byte_in_def)

lemma quote_char_plain: "plain c \<Longrightarrow> quote_char c = [c]"
  using not_plain plain_noteq [of c] plain_range [of c] by (simp add: quote_char_def)

lemma quote_plain: "list_all plain s \<Longrightarrow> concat (map quote_char s) = s"
  by (induction s) (simp_all add: quote_char_plain)

lemma scan_plain: "list_all plain s \<Longrightarrow> scan_string (s @ CHR 0x22 # r) = Some (s, r)"
proof (induction s)
  case (Cons c s)
  then have "c \<noteq> CHR 0x22" "c \<noteq> CHR 0x5C" "\<not> (of_char c :: nat) < 32"
    using not_plain plain_range [of c] by auto
  with Cons show ?case by simp
qed simp

lemma unquote_plain: "list_all plain s \<Longrightarrow> unquote s = s"
proof (induction s)
  case (Cons c s)
  then have "c \<noteq> CHR 0x5C" "rune_length (c # s) = 1"
    using not_plain plain_range [of c] by (auto simp: byte_in_def rune_length_def)
  with Cons show ?case by (simp add: unquote.simps [of "c # s"])
qed (simp add: unquote.simps)

lemma is_digit_plain: "is_digit c \<Longrightarrow> plain c"
  by (auto simp: plain_def byte_in_def is_digit_def)

lemma plain_digit: "0 \<le> n \<Longrightarrow> n \<le> 9 \<Longrightarrow> plain (digit n)"
  by (simp add: is_digit_plain)

lemma plain_pad2: "0 \<le> n \<Longrightarrow> n \<le> 99 \<Longrightarrow> list_all plain (pad2 n)"
  by (auto simp: pad2_def intro!: plain_digit)

lemma plain_decimal: "list_all plain (decimal n)"
proof (induction n rule: decimal.induct)
  case (1 n)
  then show ?case by (subst decimal.simps) (auto intro!: plain_digit)
qed

lemma plain_chars: "plain (CHR ''-'')" "plain (CHR ''T'')" "plain (CHR '':'')" "plain (CHR ''Z'')" "plain (CHR ''+'')"
  "plain (CHR ''.'')" "plain (CHR ''0'')"
  by (simp_all add: plain_def byte_in_def)

lemma plain_pad4: "list_all plain (pad4 n)"
  using plain_decimal [of "nat \<bar>n\<bar>"] by (auto simp: pad4_def Let_def plain_chars list_all_iff)

lemma plain_wall: "list_all plain (format_wall w)"
proof -
  obtain y m d where c: "civil (w div 86400) = (y, m, d)" by (cases "civil (w div 86400)") auto
  have "valid_date y m d" using days_of_civil [OF c] by simp
  then have "0 \<le> m" "m \<le> 99" "0 \<le> d" "d \<le> 99"
    by (auto simp: valid_date_def days_in_def split: if_splits)
  then show ?thesis
    using hms_split [of "w mod 86400"]
    by (auto simp: format_wall_def c format_civil_def wall_text_def plain_pad4 plain_pad2 plain_chars)
qed

lemma plain_nano: "list_all plain (nano_text n)"
  using strip_digits [OF digits_of_digits [of 9 n]]
  by (auto simp: nano_text_def Let_def plain_chars list_all_iff is_digit_plain)

lemma plain_zone: "\<bar>off\<bar> < 86400 \<Longrightarrow> list_all plain (zone_text off)"
proof -
  assume o: "\<bar>off\<bar> < 86400"
  define z where "z = \<bar>off\<bar> div 60"
  have "0 \<le> z" "z < 1440" using o by (simp_all add: z_def)
  then have "0 \<le> z div 60" "z div 60 \<le> 99" "0 \<le> z mod 60" "z mod 60 \<le> 99" by auto
  then show ?thesis by (auto simp: zone_text_def Let_def plain_chars plain_pad2 simp flip: z_def)
qed

lemma plain_rfc3339:
  "\<bar>offset_at loc (t div ns_per_s)\<bar> < 86400 \<Longrightarrow> list_all plain (format_rfc3339_nano loc t)"
  by (simp add: format_rfc3339_nano_def format_local_def plain_wall plain_nano plain_zone)

lemma skip_ws_token: "\<not> is_ws c \<Longrightarrow> skip_ws (c # r) = c # r"
  by (simp add: skip_ws_def)

lemma parse_string_value:
  "list_all plain s \<Longrightarrow> parse_value (Suc n) d (CHR 0x22 # s @ CHR 0x22 # r) = Some (JStr s, r)"
  by (simp add: skip_ws_token is_ws_def scan_plain)

lemma parse_two_members:
  assumes "list_all plain k" "list_all plain t" "list_all plain l" "list_all plain i"
  shows "json_whole (''{'' @ json_string k @ '':'' @ [CHR 0x22] @ t @ [CHR 0x22] @
     '','' @ json_string l @ '':'' @ json_string i @ ''}'') = Some (JObj [(k, JStr t), (l, JStr i)])"
proof -
  let ?k = "CHR 0x22 # k @ CHR 0x22 # CHR '':'' # CHR 0x22 # t @ CHR 0x22 # CHR '','' #
     CHR 0x22 # l @ CHR 0x22 # CHR '':'' # CHR 0x22 # i @ CHR 0x22 # ''}''"
  have s: "''{'' @ json_string k @ '':'' @ [CHR 0x22] @ t @ [CHR 0x22] @
     '','' @ json_string l @ '':'' @ json_string i @ ''}'' = CHR ''{'' # ?k"
    using assms by (simp add: json_string_def quote_plain)
  obtain n where n: "json_fuel (CHR ''{'' # ?k) = Suc (Suc (Suc (Suc n)))"
    by (simp add: json_fuel_def)
  have id: "parse_members (Suc (Suc n)) d (CHR 0x22 # l @ CHR 0x22 # CHR '':'' # CHR 0x22 # i @ CHR 0x22 # ''}'')
      = Some ([(l, JStr i)], [])" for d
    using scan_plain [OF assms(3)] parse_string_value [OF assms(4), of n d "''}''"]
    by (simp add: skip_ws_token is_ws_def del: parse_value.simps scan_string.simps)
  have "parse_members (Suc (Suc (Suc n))) d ?k = Some ([(k, JStr t), (l, JStr i)], [])" for d
    using scan_plain [OF assms(1)] parse_string_value [OF assms(2), of "Suc n" d] id [of d]
    by (simp add: skip_ws_token is_ws_def del: parse_value.simps scan_string.simps parse_members.simps
        add: parse_members.simps(2) [of "Suc (Suc n)"])
  then have "parse_value (json_fuel (CHR ''{'' # ?k)) 10000 (CHR ''{'' # ?k) = Some (JObj [(k, JStr t), (l, JStr i)], [])"
    unfolding n by (simp add: skip_ws_token is_ws_def del: parse_members.simps)
  then show ?thesis
    unfolding s json_whole_def by (simp only: option.case prod.case) (simp add: skip_ws_def)
qed

lemma cursor_round_trip:
  assumes "year_0_9999 (wall_clock loc (t div ns_per_s))"
    and "\<bar>offset_at loc (t div ns_per_s)\<bar> < 86400" "offset_at loc (t div ns_per_s) mod 60 = 0"
    and "t \<noteq> 0" "list_all plain ident" "ident \<noteq> []"
  shows "DecodeCursor (EncodeCursor loc t ident) = Some (t, ident)"
proof -
  let ?t = "format_rfc3339_nano loc t"
  have keys: "list_all plain ''created_at''" "list_all plain ''id''"
    by (simp_all add: plain_def byte_in_def)
  have "json_whole (cursor_json loc t ident) = Some (JObj [(''created_at'', JStr ?t), (''id'', JStr ident)])"
    unfolding cursor_json_def
    by (rule parse_two_members [OF keys(1) plain_rfc3339 [OF assms(2)] keys(2) assms(5)])
  moreover have "decode_struct cursor_fields (JObj [(''created_at'', JStr ?t), (''id'', JStr ident)]) \<lparr>cp_created_at = 0, cp_id = []\<rparr>
      = Some \<lparr>cp_created_at = t, cp_id = ident\<rparr>"
    using parse_format_rfc3339 [OF assms(1-3)] unquote_plain [OF assms(5)]
      unquote_plain [OF keys(1)] unquote_plain [OF keys(2)]
    by (simp add: decode_struct_def cursor_fields_def find_field_def in_field_def)
  ultimately show ?thesis
    using assms(4,6) by (simp add: DecodeCursor_def EncodeCursor_def base64_round_trip)
qed

end
