(* ===== verification/Requests.thy ===== *)
theory Requests
  imports Entities Cursor_Token
begin

text \<open>
  internal/http/request: the request bodies, how encoding/json decodes them, their \<open>Validate\<close> and
  their conversion to the domain's inputs. \<open>Validate\<close> returns the issues as a list of field and
  message; the code's map has the same entries. \<open>zone\<close> is \<open>time.LoadLocation\<close>, \<open>uuid\<close> the text form
  of identifiers that Postgres accepts: an identifier in a body stays text until a statement is
  bound, so a conversion whose text Postgres rejects has no input (\<open>None\<close>) and the statement fails.
\<close>

datatype issue = Issue string | Items "(string \<times> issue) list list"

type_synonym issues = "(string \<times> issue) list"

definition set_issue :: "string \<Rightarrow> issue \<Rightarrow> issues \<Rightarrow> issues" where
  "set_issue k v xs = filter (\<lambda>(j, w). j \<noteq> k) xs @ [(k, v)]"

definition issue_if :: "bool \<Rightarrow> string \<Rightarrow> string \<Rightarrow> issues \<Rightarrow> issues" where
  "issue_if b k msg xs = (if b then set_issue k (Issue msg) xs else xs)"

definition blank :: "string \<Rightarrow> bool" where
  "blank s = (trim_space s = [])"

lemma set_issue_not_Nil [simp]: "set_issue k v xs \<noteq> []"
  by (simp add: set_issue_def)

lemma issue_if_Nil [simp]: "issue_if b k msg xs = [] \<longleftrightarrow> \<not> b \<and> xs = []"
  by (simp add: issue_if_def)

section \<open>Events\<close>

record create_event_request =
  cer_name :: string
  cer_description :: "string option"
  cer_timezone :: string
  cer_starts_at :: time
  cer_ends_at :: time

definition create_event_zero :: create_event_request where
  "create_event_zero = \<lparr>cer_name = [], cer_description = None, cer_timezone = [], cer_starts_at = 0, cer_ends_at = 0\<rparr>"

definition create_event_fields :: "(string \<times> create_event_request field) list" where
  "create_event_fields =
     [(''name'', in_field cer_name cer_name_update to_string),
      (''description'', in_field cer_description cer_description_update (to_pointer to_string [])),
      (''timezone'', in_field cer_timezone cer_timezone_update to_string),
      (''starts_at'', in_field cer_starts_at cer_starts_at_update to_time),
      (''ends_at'', in_field cer_ends_at cer_ends_at_update to_time)]"

definition validateTimezone :: "(string \<Rightarrow> location option) \<Rightarrow> string \<Rightarrow> issues \<Rightarrow> issues" where
  "validateTimezone zone tz xs =
     (if blank tz then set_issue ''timezone'' (Issue ''is required'') xs
      else if zone tz = None then set_issue ''timezone'' (Issue ''must be a valid IANA timezone name'') xs
      else xs)"

definition create_event_validate :: "(string \<Rightarrow> location option) \<Rightarrow> create_event_request \<Rightarrow> issues" where
  "create_event_validate zone r =
     (let xs = issue_if (blank (cer_name r)) ''name'' ''is required'' [];
          xs = validateTimezone zone (cer_timezone r) xs;
          xs = issue_if (cer_starts_at r = 0) ''starts_at'' ''is required'' xs;
          xs = issue_if (cer_ends_at r = 0) ''ends_at'' ''is required'' xs
      in issue_if (cer_starts_at r \<noteq> 0 \<and> cer_ends_at r \<noteq> 0 \<and> \<not> cer_starts_at r < cer_ends_at r)
           ''ends_at'' ''must be after starts_at'' xs)"

definition create_event_to_input :: "create_event_request \<Rightarrow> event_create_input" where
  "create_event_to_input r = \<lparr>eci_name = cer_name r, eci_description = cer_description r,
     eci_timezone = cer_timezone r, eci_starts_at = cer_starts_at r, eci_ends_at = cer_ends_at r\<rparr>"

record patch_event_request =
  per_version :: int
  per_name :: "string optional"
  per_description :: "string option optional"
  per_timezone :: "string optional"
  per_starts_at :: "time optional"
  per_ends_at :: "time optional"

definition absent :: "'a \<Rightarrow> 'a optional" where
  "absent z = \<lparr>opt_value = z, opt_set = False\<rparr>"

definition patch_event_zero :: patch_event_request where
  "patch_event_zero = \<lparr>per_version = 0, per_name = absent [], per_description = absent None,
     per_timezone = absent [], per_starts_at = absent 0, per_ends_at = absent 0\<rparr>"

definition patch_event_fields :: "(string \<times> patch_event_request field) list" where
  "patch_event_fields =
     [(''version'', in_field per_version per_version_update to_int),
      (''name'', in_field per_name per_name_update (to_optional to_string)),
      (''description'', in_field per_description per_description_update (to_optional (to_pointer to_string []))),
      (''timezone'', in_field per_timezone per_timezone_update (to_optional to_string)),
      (''starts_at'', in_field per_starts_at per_starts_at_update (to_optional to_time)),
      (''ends_at'', in_field per_ends_at per_ends_at_update (to_optional to_time))]"

definition patch_event_validate :: "(string \<Rightarrow> location option) \<Rightarrow> patch_event_request \<Rightarrow> issues" where
  "patch_event_validate zone r =
     (let xs = issue_if (per_version r \<le> 0) ''version'' ''is required'' [];
          xs = issue_if (opt_set (per_name r) \<and> blank (opt_value (per_name r))) ''name'' ''must not be blank'' xs;
          xs = (if opt_set (per_timezone r) then validateTimezone zone (opt_value (per_timezone r)) xs else xs)
      in if opt_set (per_starts_at r) \<noteq> opt_set (per_ends_at r)
         then set_issue ''starts_at/ends_at'' (Issue ''must both be provided together'') xs
         else issue_if (opt_set (per_starts_at r) \<and> opt_set (per_ends_at r) \<and>
                \<not> opt_value (per_starts_at r) < opt_value (per_ends_at r)) ''ends_at'' ''must be after starts_at'' xs)"

definition patch_event_to_patch :: "patch_event_request \<Rightarrow> event_patch" where
  "patch_event_to_patch r = \<lparr>ep_name = per_name r, ep_description = per_description r,
     ep_timezone = per_timezone r, ep_starts_at = per_starts_at r, ep_ends_at = per_ends_at r\<rparr>"

section \<open>Members\<close>

text \<open>\<open>knownRoles\<close> of request/member.go.\<close>

definition request_knownRoles :: "string list" where
  "request_knownRoles = [''admin'', ''contributor'', ''attendee'']"

record add_member_request =
  amr_email :: string
  amr_role :: string

definition add_member_zero :: add_member_request where
  "add_member_zero = \<lparr>amr_email = [], amr_role = []\<rparr>"

definition add_member_fields :: "(string \<times> add_member_request field) list" where
  "add_member_fields =
     [(''email'', in_field amr_email amr_email_update to_string), (''role'', in_field amr_role amr_role_update to_string)]"

definition add_member_validate :: "add_member_request \<Rightarrow> issues" where
  "add_member_validate r =
     issue_if (amr_role r \<notin> set request_knownRoles) ''role'' ''must be one of admin, contributor, attendee''
       (issue_if (blank (amr_email r)) ''email'' ''is required'' [])"

definition add_member_to_input :: "add_member_request \<Rightarrow> member_create_input" where
  "add_member_to_input r = \<lparr>mci_email = amr_email r, mci_role = amr_role r\<rparr>"

record assign_role_request =
  arr_role :: string
  arr_version :: int

definition assign_role_zero :: assign_role_request where
  "assign_role_zero = \<lparr>arr_role = [], arr_version = 0\<rparr>"

definition assign_role_fields :: "(string \<times> assign_role_request field) list" where
  "assign_role_fields =
     [(''role'', in_field arr_role arr_role_update to_string), (''version'', in_field arr_version arr_version_update to_int)]"

definition assign_role_validate :: "assign_role_request \<Rightarrow> issues" where
  "assign_role_validate r =
     issue_if (arr_version r \<le> 0) ''version'' ''is required''
       (issue_if (arr_role r \<notin> set request_knownRoles) ''role'' ''must be one of admin, contributor, attendee'' [])"

section \<open>Rooms\<close>

record create_room_request =
  crr_name :: string
  crr_capacity :: "int option"

definition create_room_zero :: create_room_request where
  "create_room_zero = \<lparr>crr_name = [], crr_capacity = None\<rparr>"

definition create_room_fields :: "(string \<times> create_room_request field) list" where
  "create_room_fields =
     [(''name'', in_field crr_name crr_name_update to_string),
      (''capacity'', in_field crr_capacity crr_capacity_update (to_pointer to_int 0))]"

definition bad_capacity :: "int option \<Rightarrow> bool" where
  "bad_capacity c = (case c of None \<Rightarrow> False | Some n \<Rightarrow> n \<le> 0)"

definition create_room_validate :: "create_room_request \<Rightarrow> issues" where
  "create_room_validate r =
     issue_if (bad_capacity (crr_capacity r)) ''capacity'' ''must be greater than zero''
       (issue_if (blank (crr_name r)) ''name'' ''is required'' [])"

definition create_room_to_input :: "create_room_request \<Rightarrow> room_create_input" where
  "create_room_to_input r = \<lparr>rci_name = crr_name r, rci_capacity = crr_capacity r\<rparr>"

record patch_room_request =
  prr_version :: int
  prr_name :: "string optional"
  prr_capacity :: "int option optional"

definition patch_room_zero :: patch_room_request where
  "patch_room_zero = \<lparr>prr_version = 0, prr_name = absent [], prr_capacity = absent None\<rparr>"

definition patch_room_fields :: "(string \<times> patch_room_request field) list" where
  "patch_room_fields =
     [(''version'', in_field prr_version prr_version_update to_int),
      (''name'', in_field prr_name prr_name_update (to_optional to_string)),
      (''capacity'', in_field prr_capacity prr_capacity_update (to_optional (to_pointer to_int 0)))]"

definition patch_room_validate :: "patch_room_request \<Rightarrow> issues" where
  "patch_room_validate r =
     issue_if (opt_set (prr_capacity r) \<and> bad_capacity (opt_value (prr_capacity r))) ''capacity'' ''must be greater than zero''
       (issue_if (opt_set (prr_name r) \<and> blank (opt_value (prr_name r))) ''name'' ''must not be blank''
         (issue_if (prr_version r \<le> 0) ''version'' ''is required'' []))"

definition patch_room_to_patch :: "patch_room_request \<Rightarrow> room_patch" where
  "patch_room_to_patch r = \<lparr>rp_name = prr_name r, rp_capacity = prr_capacity r\<rparr>"


section \<open>Sessions\<close>

definition LocalTimeLayout :: string where
  "LocalTimeLayout = ''2006-01-02T15:04:05''"

fun resolveTimeIssue :: "local_time_error \<Rightarrow> string" where
  "resolveTimeIssue ErrNonexistentLocalTime = ''does not exist in this event's timezone due to a DST transition''"
| "resolveTimeIssue ErrParse = ''must be a valid local date-time ('' @ LocalTimeLayout @ ''), with no timezone offset''"

text \<open>The pair of local times that the three session bodies share, under the names of its fields.\<close>

definition time_issue :: "string \<Rightarrow> local_time_error + time \<Rightarrow> issues \<Rightarrow> issues" where
  "time_issue k r xs = (case r of Inl e \<Rightarrow> set_issue k (Issue (resolveTimeIssue e)) xs | Inr t \<Rightarrow> xs)"

definition time_pair_issues :: "string \<Rightarrow> string \<Rightarrow> string \<Rightarrow> local_time_error + time \<Rightarrow> local_time_error + time \<Rightarrow> issues \<Rightarrow> issues" where
  "time_pair_issues ks ke msg rs re xs =
     (let xs = time_issue ke re (time_issue ks rs xs) in
      case (rs, re) of (Inr s, Inr e) \<Rightarrow> issue_if (\<not> s < e) ke msg xs | _ \<Rightarrow> xs)"

definition resolved :: "local_time_error + time \<Rightarrow> time" where
  "resolved r = (case r of Inl e \<Rightarrow> 0 | Inr t \<Rightarrow> t)"

record create_session_request =
  csr_room_id :: string
  csr_speaker_id :: string
  csr_title :: string
  csr_description :: "string option"
  csr_starts_at :: string
  csr_ends_at :: string

definition create_session_zero :: create_session_request where
  "create_session_zero = \<lparr>csr_room_id = [], csr_speaker_id = [], csr_title = [], csr_description = None,
     csr_starts_at = [], csr_ends_at = []\<rparr>"

definition create_session_fields :: "(string \<times> create_session_request field) list" where
  "create_session_fields =
     [(''room_id'', in_field csr_room_id csr_room_id_update to_string),
      (''speaker_id'', in_field csr_speaker_id csr_speaker_id_update to_string),
      (''title'', in_field csr_title csr_title_update to_string),
      (''description'', in_field csr_description csr_description_update (to_pointer to_string [])),
      (''starts_at'', in_field csr_starts_at csr_starts_at_update to_string),
      (''ends_at'', in_field csr_ends_at csr_ends_at_update to_string)]"

definition create_session_validate :: "location \<Rightarrow> create_session_request \<Rightarrow> issues" where
  "create_session_validate loc r =
     (let xs = issue_if (blank (csr_title r)) ''title'' ''is required'' [];
          xs = issue_if (blank (csr_room_id r)) ''room_id'' ''is required'' xs;
          xs = issue_if (blank (csr_speaker_id r)) ''speaker_id'' ''is required'' xs
      in time_pair_issues ''starts_at'' ''ends_at'' ''must be after starts_at''
           (ResolveLocalTime (csr_starts_at r) loc) (ResolveLocalTime (csr_ends_at r) loc) xs)"

definition create_session_to_input ::
    "(string \<Rightarrow> uuid option) \<Rightarrow> location \<Rightarrow> create_session_request \<Rightarrow> session_create_input option" where
  "create_session_to_input uuid loc r =
     (case (uuid (csr_room_id r), uuid (csr_speaker_id r)) of
        (Some room, Some speaker) \<Rightarrow>
          Some \<lparr>sci_room_id = room, sci_speaker_id = speaker, sci_title = csr_title r,
            sci_description = csr_description r, sci_starts_at = resolved (ResolveLocalTime (csr_starts_at r) loc),
            sci_ends_at = resolved (ResolveLocalTime (csr_ends_at r) loc), sci_series_id = None\<rparr>
      | _ \<Rightarrow> None)"

definition knownFreqs :: "string list" where
  "knownFreqs = [''daily'', ''weekly'']"

record series_create_request =
  scr_room_id :: string
  scr_speaker_id :: string
  scr_title :: string
  scr_description :: "string option"
  scr_first_starts_at :: string
  scr_first_ends_at :: string
  scr_freq :: string
  scr_interval_count :: int
  scr_occurrences :: int

definition series_create_zero :: series_create_request where
  "series_create_zero = \<lparr>scr_room_id = [], scr_speaker_id = [], scr_title = [], scr_description = None,
     scr_first_starts_at = [], scr_first_ends_at = [], scr_freq = [], scr_interval_count = 0, scr_occurrences = 0\<rparr>"

definition series_create_fields :: "(string \<times> series_create_request field) list" where
  "series_create_fields =
     [(''room_id'', in_field scr_room_id scr_room_id_update to_string),
      (''speaker_id'', in_field scr_speaker_id scr_speaker_id_update to_string),
      (''title'', in_field scr_title scr_title_update to_string),
      (''description'', in_field scr_description scr_description_update (to_pointer to_string [])),
      (''first_starts_at'', in_field scr_first_starts_at scr_first_starts_at_update to_string),
      (''first_ends_at'', in_field scr_first_ends_at scr_first_ends_at_update to_string),
      (''freq'', in_field scr_freq scr_freq_update to_string),
      (''interval_count'', in_field scr_interval_count scr_interval_count_update to_int),
      (''occurrences'', in_field scr_occurrences scr_occurrences_update to_int)]"

definition series_create_validate :: "location \<Rightarrow> series_create_request \<Rightarrow> issues" where
  "series_create_validate loc r =
     (let xs = issue_if (blank (scr_title r)) ''title'' ''is required'' [];
          xs = issue_if (blank (scr_room_id r)) ''room_id'' ''is required'' xs;
          xs = issue_if (blank (scr_speaker_id r)) ''speaker_id'' ''is required'' xs;
          xs = issue_if (scr_freq r \<notin> set knownFreqs) ''freq'' ''must be one of daily, weekly'' xs;
          xs = issue_if (scr_interval_count r \<le> 0) ''interval_count'' ''must be a positive integer'' xs;
          xs = issue_if (scr_occurrences r \<le> 0 \<or> 52 < scr_occurrences r) ''occurrences'' ''must be between 1 and 52'' xs
      in time_pair_issues ''first_starts_at'' ''first_ends_at'' ''must be after first_starts_at''
           (ResolveLocalTime (scr_first_starts_at r) loc) (ResolveLocalTime (scr_first_ends_at r) loc) xs)"

definition series_create_to_input ::
    "(string \<Rightarrow> uuid option) \<Rightarrow> location \<Rightarrow> series_create_request \<Rightarrow> series_create_input option" where
  "series_create_to_input uuid loc r =
     (case (uuid (scr_room_id r), uuid (scr_speaker_id r)) of
        (Some room, Some speaker) \<Rightarrow>
          Some \<lparr>sxi_room_id = room, sxi_speaker_id = speaker, sxi_title = scr_title r,
            sxi_description = scr_description r,
            sxi_first_starts_at = resolved (ResolveLocalTime (scr_first_starts_at r) loc),
            sxi_first_ends_at = resolved (ResolveLocalTime (scr_first_ends_at r) loc),
            sxi_freq = scr_freq r, sxi_interval_count = scr_interval_count r, sxi_occurrences = scr_occurrences r\<rparr>
      | _ \<Rightarrow> None)"

record patch_session_request =
  psr_version :: int
  psr_title :: "string optional"
  psr_description :: "string option optional"
  psr_starts_at :: "string optional"
  psr_ends_at :: "string optional"

definition patch_session_zero :: patch_session_request where
  "patch_session_zero = \<lparr>psr_version = 0, psr_title = absent [], psr_description = absent None,
     psr_starts_at = absent [], psr_ends_at = absent []\<rparr>"

definition patch_session_fields :: "(string \<times> patch_session_request field) list" where
  "patch_session_fields =
     [(''version'', in_field psr_version psr_version_update to_int),
      (''title'', in_field psr_title psr_title_update (to_optional to_string)),
      (''description'', in_field psr_description psr_description_update (to_optional (to_pointer to_string []))),
      (''starts_at'', in_field psr_starts_at psr_starts_at_update (to_optional to_string)),
      (''ends_at'', in_field psr_ends_at psr_ends_at_update (to_optional to_string))]"

definition patch_session_validate :: "location \<Rightarrow> patch_session_request \<Rightarrow> issues" where
  "patch_session_validate loc r =
     (let xs = issue_if (psr_version r \<le> 0) ''version'' ''is required'' [];
          xs = issue_if (opt_set (psr_title r) \<and> blank (opt_value (psr_title r))) ''title'' ''must not be blank'' xs
      in if opt_set (psr_starts_at r) \<noteq> opt_set (psr_ends_at r)
         then set_issue ''starts_at/ends_at'' (Issue ''must both be provided together'') xs
         else if opt_set (psr_starts_at r) \<and> opt_set (psr_ends_at r)
         then time_pair_issues ''starts_at'' ''ends_at'' ''must be after starts_at''
                (ResolveLocalTime (opt_value (psr_starts_at r)) loc) (ResolveLocalTime (opt_value (psr_ends_at r)) loc) xs
         else xs)"

definition patch_session_to_patch :: "location \<Rightarrow> patch_session_request \<Rightarrow> session_patch" where
  "patch_session_to_patch loc r =
     (let both = opt_set (psr_starts_at r) \<and> opt_set (psr_ends_at r) in
      \<lparr>sp_title = psr_title r, sp_description = psr_description r,
       sp_starts_at = (if both then opt_of (resolved (ResolveLocalTime (opt_value (psr_starts_at r)) loc)) else absent 0),
       sp_ends_at = (if both then opt_of (resolved (ResolveLocalTime (opt_value (psr_ends_at r)) loc)) else absent 0)\<rparr>)"

section \<open>Invitations\<close>

record invitation_create_request =
  icr_email :: string
  icr_role :: string

definition invitation_create_zero :: invitation_create_request where
  "invitation_create_zero = \<lparr>icr_email = [], icr_role = []\<rparr>"

definition invitation_create_fields :: "(string \<times> invitation_create_request field) list" where
  "invitation_create_fields =
     [(''email'', in_field icr_email icr_email_update to_string), (''role'', in_field icr_role icr_role_update to_string)]"

definition invitation_create_validate :: "invitation_create_request \<Rightarrow> issues" where
  "invitation_create_validate r =
     issue_if (icr_role r \<notin> set request_knownRoles) ''role'' ''must be one of admin, contributor, attendee''
       (issue_if (blank (icr_email r)) ''email'' ''is required'' [])"

definition invitation_create_to_input :: "invitation_create_request \<Rightarrow> invitation_create_input" where
  "invitation_create_to_input r = \<lparr>ici_email = icr_email r, ici_role = icr_role r\<rparr>"

record bulk_invite_request =
  bvr_invitations :: "invitation_create_request list"

definition bulk_invite_zero :: bulk_invite_request where
  "bulk_invite_zero = \<lparr>bvr_invitations = []\<rparr>"

definition bulk_invite_fields :: "(string \<times> bulk_invite_request field) list" where
  "bulk_invite_fields =
     [(''invitations'', in_field bvr_invitations bvr_invitations_update
         (to_slice (decode_struct invitation_create_fields) invitation_create_zero))]"

definition bulk_invite_validate :: "bulk_invite_request \<Rightarrow> issues" where
  "bulk_invite_validate r =
     (if bvr_invitations r = [] then [(''invitations'', Issue ''must contain at least one invitation'')]
      else let items = map invitation_create_validate (bvr_invitations r) in
           if \<exists>i \<in> set items. i \<noteq> [] then [(''invitations'', Items items)] else [])"

definition bulk_invite_to_inputs :: "bulk_invite_request \<Rightarrow> invitation_create_input list" where
  "bulk_invite_to_inputs r = map invitation_create_to_input (bvr_invitations r)"

section \<open>What a valid request guarantees\<close>

named_theorems validates \<open>what an empty list of issues says of each request\<close>

lemma create_event_valid [validates]:
  "create_event_validate zone r = [] \<longleftrightarrow>
     \<not> blank (cer_name r) \<and> \<not> blank (cer_timezone r) \<and> zone (cer_timezone r) \<noteq> None \<and>
     cer_starts_at r \<noteq> 0 \<and> cer_ends_at r \<noteq> 0 \<and> cer_starts_at r < cer_ends_at r"
  by (auto simp: create_event_validate_def validateTimezone_def Let_def)

lemma patch_event_valid [validates]:
  "patch_event_validate zone r = [] \<longleftrightarrow>
     0 < per_version r \<and> (opt_set (per_name r) \<longrightarrow> \<not> blank (opt_value (per_name r))) \<and>
     (opt_set (per_timezone r) \<longrightarrow> \<not> blank (opt_value (per_timezone r)) \<and> zone (opt_value (per_timezone r)) \<noteq> None) \<and>
     opt_set (per_starts_at r) = opt_set (per_ends_at r) \<and>
     (opt_set (per_starts_at r) \<longrightarrow> opt_value (per_starts_at r) < opt_value (per_ends_at r))"
  by (auto simp: patch_event_validate_def validateTimezone_def Let_def not_le)

lemma time_pair_valid:
  "time_pair_issues ks ke msg rs re xs = [] \<longleftrightarrow> xs = [] \<and> (\<exists>s e. rs = Inr s \<and> re = Inr e \<and> s < e)"
  by (cases rs; cases re) (auto simp: time_pair_issues_def time_issue_def)

lemma create_session_valid [validates]:
  "create_session_validate loc r = [] \<longleftrightarrow>
     \<not> blank (csr_title r) \<and> \<not> blank (csr_room_id r) \<and> \<not> blank (csr_speaker_id r) \<and>
     (\<exists>s e. ResolveLocalTime (csr_starts_at r) loc = Inr s \<and> ResolveLocalTime (csr_ends_at r) loc = Inr e \<and> s < e)"
  by (auto simp: create_session_validate_def time_pair_valid Let_def)

lemma series_create_valid [validates]:
  "series_create_validate loc r = [] \<longleftrightarrow>
     \<not> blank (scr_title r) \<and> \<not> blank (scr_room_id r) \<and> \<not> blank (scr_speaker_id r) \<and> scr_freq r \<in> set knownFreqs \<and>
     0 < scr_interval_count r \<and> 1 \<le> scr_occurrences r \<and> scr_occurrences r \<le> 52 \<and>
     (\<exists>s e. ResolveLocalTime (scr_first_starts_at r) loc = Inr s \<and> ResolveLocalTime (scr_first_ends_at r) loc = Inr e \<and> s < e)"
  by (auto simp: series_create_validate_def time_pair_valid Let_def not_le not_less)

lemma patch_session_valid [validates]:
  "patch_session_validate loc r = [] \<longleftrightarrow>
     0 < psr_version r \<and> (opt_set (psr_title r) \<longrightarrow> \<not> blank (opt_value (psr_title r))) \<and>
     opt_set (psr_starts_at r) = opt_set (psr_ends_at r) \<and>
     (opt_set (psr_starts_at r) \<longrightarrow>
        (\<exists>s e. ResolveLocalTime (opt_value (psr_starts_at r)) loc = Inr s \<and>
               ResolveLocalTime (opt_value (psr_ends_at r)) loc = Inr e \<and> s < e))"
  by (auto simp: patch_session_validate_def time_pair_valid Let_def not_le)

lemma role_request_valid [validates]:
  "add_member_validate a = [] \<longleftrightarrow> \<not> blank (amr_email a) \<and> amr_role a \<in> set request_knownRoles"
  "assign_role_validate b = [] \<longleftrightarrow> arr_role b \<in> set request_knownRoles \<and> 0 < arr_version b"
  "invitation_create_validate c = [] \<longleftrightarrow> \<not> blank (icr_email c) \<and> icr_role c \<in> set request_knownRoles"
  by (auto simp: add_member_validate_def assign_role_validate_def invitation_create_validate_def not_le)

lemma room_request_valid [validates]:
  "create_room_validate a = [] \<longleftrightarrow> \<not> blank (crr_name a) \<and> \<not> bad_capacity (crr_capacity a)"
  "patch_room_validate b = [] \<longleftrightarrow> 0 < prr_version b \<and> (opt_set (prr_name b) \<longrightarrow> \<not> blank (opt_value (prr_name b))) \<and>
     (opt_set (prr_capacity b) \<longrightarrow> \<not> bad_capacity (opt_value (prr_capacity b)))"
  by (auto simp: create_room_validate_def patch_room_validate_def not_le)

lemma bulk_invite_valid [validates]:
  "bulk_invite_validate r = [] \<longleftrightarrow> bvr_invitations r \<noteq> [] \<and>
     (\<forall>i \<in> set (bvr_invitations r). \<not> blank (icr_email i) \<and> icr_role i \<in> set request_knownRoles)"
  by (auto simp: bulk_invite_validate_def Let_def role_request_valid)

end
