(* ===== verification/Responses.thy ===== *)
theory Responses
  imports Session_Repo Requests
begin

text \<open>
  internal/http/response: the bodies of the answers and the presenters that build them. Identifiers
  stay abstract; \<open>text\<close> is the form Postgres prints, which a page token carries. Instants of a
  session are paired with the offset of the event's zone at that instant, which is what
  \<open>In(loc)\<close> makes the encoder print; other instants are printed in the zone of the process, \<open>host\<close>.
\<close>

section \<open>Bodies\<close>

record local_instant =
  li_instant :: time
  li_offset :: int

definition in_loc :: "location \<Rightarrow> time \<Rightarrow> local_instant" where
  "in_loc loc t = \<lparr>li_instant = t, li_offset = offset_at loc (t div ns_per_s)\<rparr>"

record 'a list_response =
  lr_data :: "'a list"
  lr_next_cursor :: "string option"

record event_response =
  evr_id :: uuid
  evr_name :: string
  evr_description :: "string option"
  evr_timezone :: string
  evr_starts_at :: time
  evr_ends_at :: time
  evr_version :: int
  evr_created_at :: time
  evr_updated_at :: time

record member_response =
  mbr_id :: uuid
  mbr_event_id :: uuid
  mbr_user_id :: uuid
  mbr_user_email :: "string option"
  mbr_user_name :: string
  mbr_role :: string
  mbr_version :: int
  mbr_created_at :: time
  mbr_updated_at :: time

record room_response =
  rmr_id :: uuid
  rmr_event_id :: uuid
  rmr_name :: string
  rmr_capacity :: "int option"
  rmr_version :: int
  rmr_created_at :: time
  rmr_updated_at :: time

record session_response =
  ser_id :: uuid
  ser_event_id :: uuid
  ser_room_id :: uuid
  ser_speaker_id :: uuid
  ser_title :: string
  ser_description :: "string option"
  ser_starts_at :: local_instant
  ser_ends_at :: local_instant
  ser_duration_minutes :: int
  ser_version :: int
  ser_created_at :: time
  ser_updated_at :: time
  ser_room_name :: "string option"
  ser_speaker_name :: "string option"

record series_occurrence_response =
  sro_starts_at :: local_instant
  sro_status :: string
  sro_session_id :: "uuid option"

record series_response =
  srr_id :: uuid
  srr_event_id :: uuid
  srr_room_id :: uuid
  srr_speaker_id :: uuid
  srr_title :: string
  srr_description :: "string option"
  srr_freq :: string
  srr_interval_count :: int
  srr_occurrences :: "series_occurrence_response list"
  srr_created_at :: time

record invitation_response =
  ivr_id :: uuid
  ivr_event_id :: uuid
  ivr_user_id :: "uuid option"
  ivr_email :: string
  ivr_role :: string
  ivr_created_at :: time
  ivr_updated_at :: time

record bulk_invite_item_response =
  bii_email :: string
  bii_status :: string
  bii_invitation_id :: "uuid option"

record bulk_invite_response =
  bvs_results :: "bulk_invite_item_response list"

datatype body =
    NoBody
  | HealthBody
  | EventBody event_response
  | EventListBody "event_response list_response"
  | MemberBody member_response
  | MemberListBody "member_response list_response"
  | RoomBody room_response
  | RoomListBody "room_response list_response"
  | SessionBody session_response
  | SessionListBody "session_response list_response"
  | SeriesBody series_response
  | InvitationBody invitation_response
  | InvitationListBody "invitation_response list_response"
  | BulkInviteBody bulk_invite_response
  | TextBody string
  | Envelope string string details
and details = NoDetails | Issues issues | Current "body option"

record http_response =
  rs_status :: nat
  rs_body :: body

definition WriteError :: "nat \<Rightarrow> string \<Rightarrow> string \<Rightarrow> details \<Rightarrow> http_response" where
  "WriteError status code message details = \<lparr>rs_status = status, rs_body = Envelope code message details\<rparr>"

section \<open>Presenters\<close>

definition next_token :: "location \<Rightarrow> (uuid \<Rightarrow> string) \<Rightarrow> cursor option \<Rightarrow> string option" where
  "next_token host text c = map_option (\<lambda>c. EncodeCursor host (cur_created_at c) (text (cur_id c))) c"

definition NewEventResponse :: "event \<Rightarrow> event_response" where
  "NewEventResponse e = \<lparr>evr_id = ev_id e, evr_name = ev_name e, evr_description = ev_description e,
     evr_timezone = ev_timezone e, evr_starts_at = ev_starts_at e, evr_ends_at = ev_ends_at e,
     evr_version = ev_version e, evr_created_at = ev_created_at e, evr_updated_at = ev_updated_at e\<rparr>"

definition NewEventListResponse :: "location \<Rightarrow> (uuid \<Rightarrow> string) \<Rightarrow> event_page \<Rightarrow> event_response list_response" where
  "NewEventListResponse host text page =
     \<lparr>lr_data = map NewEventResponse (epg_events page), lr_next_cursor = next_token host text (epg_next_cursor page)\<rparr>"

definition canSeeMemberEmail :: "string \<Rightarrow> bool" where
  "canSeeMemberEmail callerRole = (callerRole = ''admin'')"

definition NewMemberResponse :: "member \<Rightarrow> string \<Rightarrow> member_response" where
  "NewMemberResponse m callerRole = \<lparr>mbr_id = mb_id m, mbr_event_id = mb_event_id m, mbr_user_id = mb_user_id m,
     mbr_user_email = (if canSeeMemberEmail callerRole then Some (mb_user_email m) else None),
     mbr_user_name = mb_user_name m, mbr_role = mb_role m, mbr_version = mb_version m,
     mbr_created_at = mb_created_at m, mbr_updated_at = mb_updated_at m\<rparr>"

definition NewMemberListResponse ::
    "location \<Rightarrow> (uuid \<Rightarrow> string) \<Rightarrow> member_page \<Rightarrow> string \<Rightarrow> member_response list_response" where
  "NewMemberListResponse host text page callerRole =
     \<lparr>lr_data = map (\<lambda>m. NewMemberResponse m callerRole) (mpg_members page),
      lr_next_cursor = next_token host text (mpg_next_cursor page)\<rparr>"

definition NewRoomResponse :: "room \<Rightarrow> room_response" where
  "NewRoomResponse r = \<lparr>rmr_id = rm_id r, rmr_event_id = rm_event_id r, rmr_name = rm_name r,
     rmr_capacity = rm_capacity r, rmr_version = rm_version r, rmr_created_at = rm_created_at r,
     rmr_updated_at = rm_updated_at r\<rparr>"

definition NewRoomListResponse :: "location \<Rightarrow> (uuid \<Rightarrow> string) \<Rightarrow> room_page \<Rightarrow> room_response list_response" where
  "NewRoomListResponse host text page =
     \<lparr>lr_data = map NewRoomResponse (rpg_rooms page), lr_next_cursor = next_token host text (rpg_next_cursor page)\<rparr>"

text \<open>
  \<open>int(d.Minutes())\<close>: the division truncates. (The floating-point detour is exact for durations in
  whole microseconds, which is what a \<open>timestamptz\<close> difference is.)
\<close>

definition whole_minutes :: "int \<Rightarrow> int" where
  "whole_minutes d = (if d < 0 then - (- d div 60000000000) else d div 60000000000)"

definition if_nonempty :: "string \<Rightarrow> string option" where
  "if_nonempty s = (if s = [] then None else Some s)"

definition NewSessionResponse :: "session \<Rightarrow> location \<Rightarrow> session_response" where
  "NewSessionResponse s loc = \<lparr>ser_id = se_id s, ser_event_id = se_event_id s, ser_room_id = se_room_id s,
     ser_speaker_id = se_speaker_id s, ser_title = se_title s, ser_description = se_description s,
     ser_starts_at = in_loc loc (se_starts_at s), ser_ends_at = in_loc loc (se_ends_at s),
     ser_duration_minutes = whole_minutes (time_sub (se_ends_at s) (se_starts_at s)),
     ser_version = se_version s, ser_created_at = se_created_at s, ser_updated_at = se_updated_at s,
     ser_room_name = if_nonempty (se_room_name s), ser_speaker_name = if_nonempty (se_speaker_name s)\<rparr>"

definition NewSeriesResponse :: "series \<Rightarrow> series_occurrence_result list \<Rightarrow> location \<Rightarrow> series_response" where
  "NewSeriesResponse x results loc = \<lparr>srr_id = sx_id x, srr_event_id = sx_event_id x, srr_room_id = sx_room_id x,
     srr_speaker_id = sx_speaker_id x, srr_title = sx_title x, srr_description = sx_description x,
     srr_freq = sx_freq x, srr_interval_count = sx_interval_count x,
     srr_occurrences = map (\<lambda>r. \<lparr>sro_starts_at = in_loc loc (sor_starts_at r), sro_status = sor_status r,
       sro_session_id = sor_session_id r\<rparr>) results,
     srr_created_at = sx_created_at x\<rparr>"

definition NewSessionListResponse ::
    "location \<Rightarrow> (uuid \<Rightarrow> string) \<Rightarrow> session_page \<Rightarrow> location \<Rightarrow> session_response list_response" where
  "NewSessionListResponse host text page loc =
     \<lparr>lr_data = map (\<lambda>s. NewSessionResponse s loc) (spg_sessions page),
      lr_next_cursor = next_token host text (spg_next_cursor page)\<rparr>"

definition NewInvitationResponse :: "invitation \<Rightarrow> invitation_response" where
  "NewInvitationResponse i = \<lparr>ivr_id = iv_id i, ivr_event_id = iv_event_id i, ivr_user_id = iv_user_id i,
     ivr_email = iv_email i, ivr_role = iv_role i, ivr_created_at = iv_created_at i, ivr_updated_at = iv_updated_at i\<rparr>"

definition NewInvitationListResponse ::
    "location \<Rightarrow> (uuid \<Rightarrow> string) \<Rightarrow> invitation_page \<Rightarrow> invitation_response list_response" where
  "NewInvitationListResponse host text page =
     \<lparr>lr_data = map NewInvitationResponse (ipg_invitations page), lr_next_cursor = next_token host text (ipg_next_cursor page)\<rparr>"

definition NewBulkInviteResponse :: "bulk_result \<Rightarrow> bulk_invite_response" where
  "NewBulkInviteResponse r =
     \<lparr>bvs_results = map (\<lambda>i. \<lparr>bii_email = bir_email i, bii_status = bir_status i, bii_invitation_id = bir_invitation_id i\<rparr>)
       (br_items r)\<rparr>"

end
