(* ===== verification/User_Repo.thy ===== *)
theory User_Repo
  imports Db_Inv
begin

text \<open>
  internal/adapter/postgres/user_repo.go and internal/domain/user/service.go: the upsert that maps
  a token's subject to a users row. The INSERT's arbiter is the subject alone; an e-mail address
  that another subject holds still raises.
\<close>

definition user_by_subject :: "string \<Rightarrow> db \<Rightarrow> user option" where
  "user_by_subject subject s = find (\<lambda>u. usr_subject u = subject) (t_users s)"

definition user_get_or_create_by_subject ::
    "(string \<Rightarrow> string) \<Rightarrow> txgen \<Rightarrow> string \<Rightarrow> string \<Rightarrow> string \<Rightarrow> db \<Rightarrow> (repo_error + user) \<times> db" where
  "user_get_or_create_by_subject ci g subject email name s =
     (let u = \<lparr>usr_id = g_id g, usr_subject = subject, usr_email = email, usr_name = name,
               usr_created_at = g_now g, usr_updated_at = g_now g\<rparr>
      in if subject \<in> usr_subject ` set (t_users s)
         then (case user_by_subject subject s of
                 None \<Rightarrow> (Inl (ErrOther NoRows), s)
               | Some old \<Rightarrow> (Inr old, s))
         else (case insert_user ci u s of
                 Inl e \<Rightarrow> (Inl (ErrOther (Pg e)), s)
               | Inr s' \<Rightarrow> (Inr u, s')))"

definition service_get_or_create_by_subject ::
    "(string \<Rightarrow> string) \<Rightarrow> txgen \<Rightarrow> string \<Rightarrow> string \<Rightarrow> string \<Rightarrow> db \<Rightarrow> (repo_error + user) \<times> db" where
  "service_get_or_create_by_subject = user_get_or_create_by_subject"

lemma user_by_subject_None: "user_by_subject sub s = None \<longleftrightarrow> sub \<notin> usr_subject ` set (t_users s)"
  by (auto simp: user_by_subject_def find_None_iff)

lemma user_by_subject_snoc:
  "user_by_subject sub (s\<lparr>t_users := t_users s @ [u]\<rparr>) =
     (case user_by_subject sub s of Some v \<Rightarrow> Some v | None \<Rightarrow> if usr_subject u = sub then Some u else None)"
proof -
  have "find P (xs @ [u]) = (case find P xs of Some v \<Rightarrow> Some v | None \<Rightarrow> if P u then Some u else None)" for P xs
    by (induction xs) auto
  then show ?thesis by (simp add: user_by_subject_def)
qed

lemma user_get_or_create_existing:
  "user_by_subject sub s = Some u \<Longrightarrow> user_get_or_create_by_subject ci g sub email name s = (Inr u, s)"
  using user_by_subject_None [of sub s]
  by (auto simp: user_get_or_create_by_subject_def Let_def)

lemma user_get_or_create_result:
  assumes "user_get_or_create_by_subject ci g sub email name s = (Inr u, s')"
  shows "user_by_subject sub s' = Some u \<and> (s' = s \<or> insert_user ci u s = Inr s')"
proof (cases "user_by_subject sub s")
  case (Some v)
  then show ?thesis using assms user_get_or_create_existing by simp
next
  case None
  then have ins: "insert_user ci u s = Inr s'" and sub: "usr_subject u = sub"
    using assms user_by_subject_None [of sub s]
    by (auto simp: user_get_or_create_by_subject_def Let_def split: sum.splits)
  then show ?thesis using None user_by_subject_snoc [of sub s u] by (simp add: insert_user_Inr)
qed

lemma user_get_or_create_fail:
  "user_get_or_create_by_subject ci g sub email name s = (Inl e, s') \<Longrightarrow> s' = s"
  by (auto simp: user_get_or_create_by_subject_def Let_def split: if_splits option.splits sum.splits)

lemma user_get_or_create_ok:
  assumes "db_ok ci s" "user_get_or_create_by_subject ci g sub email name s = (r, s')"
  shows "db_ok ci s'"
  using assms user_get_or_create_result user_get_or_create_fail insert_user_ok
  by (cases r) blast+

end
