(* ===== verification/Member_Repo.thy ===== *)
theory Member_Repo
  imports Event_Repo
begin

text \<open>
  internal/adapter/postgres/member_repo.go, roles.go and internal/domain/member/service.go: who is
  on an event and with which role. Create enforces the escalation rule of roles.go; AssignRole and
  Delete never take the last admin of an event away. The operations here run one transaction after
  another, which the lock both guards take on the event's row (FOR UPDATE) sees to.
\<close>

section \<open>Operations\<close>

definition user_by_email :: "(string \<Rightarrow> string) \<Rightarrow> string \<Rightarrow> db \<Rightarrow> user option" where
  "user_by_email ci email s = find (\<lambda>u. ci (usr_email u) = ci email) (t_users s)"

definition member_role :: "uuid \<Rightarrow> uuid \<Rightarrow> db \<Rightarrow> string option" where
  "member_role userID eventID s =
     map_option mr_role (find (\<lambda>m. mr_event_id m = eventID \<and> mr_user_id m = userID) (t_members s))"

text \<open>\<open>canGrantRoleActorCTE\<close> and \<open>canGrantRoleGuard\<close>.\<close>

definition can_grant_role :: "uuid \<Rightarrow> uuid \<Rightarrow> string \<Rightarrow> db \<Rightarrow> bool" where
  "can_grant_role actorID eventID role s =
     (case member_role actorID eventID s of
        None \<Rightarrow> False
      | Some actor_role \<Rightarrow> role = ''attendee'' \<or> actor_role = ''admin'')"

definition new_member_row :: "txgen \<Rightarrow> uuid \<Rightarrow> uuid \<Rightarrow> string \<Rightarrow> event_member_row" where
  "new_member_row g eventID userID role =
     \<lparr>mr_id = g_id g, mr_event_id = eventID, mr_user_id = userID, mr_role = role,
      mr_version = 1, mr_created_at = g_now g, mr_updated_at = g_now g\<rparr>"

definition member_create ::
    "(string \<Rightarrow> string) \<Rightarrow> txgen \<Rightarrow> uuid \<Rightarrow> uuid \<Rightarrow> member_create_input \<Rightarrow> db \<Rightarrow> (repo_error + member) \<times> db" where
  "member_create ci g actorID eventID inp = in_tx (\<lambda>s.
     case user_by_email ci (mci_email inp) s of
       None \<Rightarrow> Inl ErrNotFound
     | Some u \<Rightarrow>
         if \<not> can_grant_role actorID eventID (mci_role inp) s then Inl ErrForbidden
         else let row = new_member_row g eventID (usr_id u) (mci_role inp) in
           and_then (wrap_conflict uniqueViolation (insert_member row s)) (\<lambda>s1.
           and_then (wrap_pg (insert_audit (audit (g_audit_id g) actorID ''event_member'' (mr_id row) ''create''
                       None (Some (SMember row))) s1)) (\<lambda>s2.
           Inr (toMember row (usr_email u) [], s2))))"

definition find_member :: "uuid \<Rightarrow> uuid \<Rightarrow> db \<Rightarrow> event_member_row option" where
  "find_member eventID memberID s =
     (case lookup_row mr_id memberID (t_members s) of
        None \<Rightarrow> None
      | Some m \<Rightarrow> if mr_event_id m = eventID then Some m else None)"

definition member_get :: "uuid \<Rightarrow> uuid \<Rightarrow> db \<Rightarrow> repo_error + member" where
  "member_get eventID memberID s =
     (case find_member eventID memberID s of
        None \<Rightarrow> Inl ErrNotFound
      | Some m \<Rightarrow>
          (case lookup_row usr_id (mr_user_id m) (t_users s) of
             None \<Rightarrow> Inl ErrNotFound
           | Some u \<Rightarrow> Inr (toMember m (usr_email u) (usr_name u))))"

definition member_key :: "member \<Rightarrow> time \<times> uuid" where
  "member_key m = (mb_created_at m, mb_id m)"

definition member_list_rows :: "uuid \<Rightarrow> db \<Rightarrow> member list" where
  "member_list_rows eventID s =
     [toMember em (usr_email u) (usr_name u). em \<leftarrow> t_members s, u \<leftarrow> t_users s,
        usr_id u = mr_user_id em \<and> mr_event_id em = eventID]"

definition member_list :: "uuid \<Rightarrow> nat \<Rightarrow> cursor option \<Rightarrow> db \<Rightarrow> repo_error + member_page" where
  "member_list eventID limit after s =
     and_then (list_page member_key limit after (member_list_rows eventID s)) (\<lambda>(ms, next).
       Inr \<lparr>mpg_members = ms, mpg_next_cursor = next\<rparr>)"

text \<open>\<open>EXISTS (SELECT 1 FROM event_members other WHERE .. other.role = 'admin' AND other.id <> ..)\<close>\<close>

definition other_admin :: "uuid \<Rightarrow> uuid \<Rightarrow> db \<Rightarrow> bool" where
  "other_admin eventID memberID s =
     (\<exists>x \<in> set (t_members s). mr_event_id x = eventID \<and> mr_role x = ''admin'' \<and> mr_id x \<noteq> memberID)"

definition diagnoseAdminGuardedFailure :: "uuid \<Rightarrow> uuid \<Rightarrow> int \<Rightarrow> db \<Rightarrow> repo_error" where
  "diagnoseAdminGuardedFailure eventID memberID version s =
     (case find_member eventID memberID s of
        None \<Rightarrow> ErrNotFound
      | Some m \<Rightarrow> if mr_version m \<noteq> version then ErrVersionMismatch else ErrConflict)"

definition member_set :: "txgen \<Rightarrow> string \<Rightarrow> event_member_row \<Rightarrow> event_member_row" where
  "member_set g role m =
     m\<lparr>mr_role := role, mr_updated_at := g_now g, mr_version := mr_version m + 1\<rparr>"

definition member_assign_role ::
    "txgen \<Rightarrow> uuid \<Rightarrow> uuid \<Rightarrow> uuid \<Rightarrow> int \<Rightarrow> string \<Rightarrow> db \<Rightarrow> (repo_error + member) \<times> db" where
  "member_assign_role g actorID eventID memberID version role = in_tx (\<lambda>s.
     let hit = (case find_member eventID memberID s of
                  None \<Rightarrow> None
                | Some m \<Rightarrow> if mr_version m = version \<and>
                      (mr_role m \<noteq> ''admin'' \<or> role = ''admin'' \<or> other_admin eventID memberID s)
                    then Some m else None)
     in case hit of
          None \<Rightarrow> Inl (diagnoseAdminGuardedFailure eventID memberID version s)
        | Some old \<Rightarrow> let new = member_set g role old in
            and_then (wrap_pg (replace_member new s)) (\<lambda>s1.
            and_then (wrap_pg (insert_audit (audit (g_audit_id g) actorID ''event_member'' memberID ''update''
                        (Some (SMember old)) (Some (SMember new))) s1)) (\<lambda>s2.
            Inr (toMember new [] [], s2))))"

definition member_delete :: "txgen \<Rightarrow> uuid \<Rightarrow> uuid \<Rightarrow> uuid \<Rightarrow> int \<Rightarrow> db \<Rightarrow> (repo_error + unit) \<times> db" where
  "member_delete g actorID eventID memberID version = in_tx (\<lambda>s.
     let hit = (case find_member eventID memberID s of
                  None \<Rightarrow> None
                | Some m \<Rightarrow> if mr_version m = version \<and>
                      (mr_role m \<noteq> ''admin'' \<or> other_admin eventID memberID s)
                    then Some m else None)
     in case hit of
          None \<Rightarrow> Inl (diagnoseAdminGuardedFailure eventID memberID version s)
        | Some old \<Rightarrow>
            and_then (wrap_pg (delete_member memberID s)) (\<lambda>s1.
            and_then (wrap_pg (insert_audit (audit (g_audit_id g) actorID ''event_member'' memberID ''delete''
                        (Some (SMember old)) None) s1)) (\<lambda>s2.
            Inr ((), s2))))"

text \<open>internal/domain/member/service.go.\<close>

definition service_create_member ::
    "(string \<Rightarrow> string) \<Rightarrow> txgen \<Rightarrow> uuid \<Rightarrow> uuid \<Rightarrow> member_create_input \<Rightarrow> db \<Rightarrow> (repo_error + member) \<times> db" where
  "service_create_member = member_create"
definition service_get_member :: "uuid \<Rightarrow> uuid \<Rightarrow> db \<Rightarrow> repo_error + member" where
  "service_get_member = member_get"
definition service_list_members :: "uuid \<Rightarrow> nat \<Rightarrow> cursor option \<Rightarrow> db \<Rightarrow> repo_error + member_page" where
  "service_list_members = member_list"
definition service_assign_role ::
    "txgen \<Rightarrow> uuid \<Rightarrow> uuid \<Rightarrow> uuid \<Rightarrow> int \<Rightarrow> string \<Rightarrow> db \<Rightarrow> (repo_error + member) \<times> db" where
  "service_assign_role = member_assign_role"
definition service_remove_member :: "txgen \<Rightarrow> uuid \<Rightarrow> uuid \<Rightarrow> uuid \<Rightarrow> int \<Rightarrow> db \<Rightarrow> (repo_error + unit) \<times> db" where
  "service_remove_member = member_delete"

section \<open>What a success did\<close>

lemma find_member_Some:
  "find_member ev k s = Some m \<longleftrightarrow> lookup_row mr_id k (t_members s) = Some m \<and> mr_event_id m = ev"
  by (auto simp: find_member_def split: option.splits if_splits)

lemma find_member_in: "find_member ev k s = Some m \<Longrightarrow> m \<in> set (t_members s) \<and> mr_id m = k \<and> mr_event_id m = ev"
  using lookup_row_Some by (fastforce simp: find_member_Some)

lemma member_create_Inr:
  "member_create ci g actorID ev inp s = (Inr m, s') \<longleftrightarrow>
     (\<exists>u s1. user_by_email ci (mci_email inp) s = Some u \<and> can_grant_role actorID ev (mci_role inp) s \<and>
        m = toMember (new_member_row g ev (usr_id u) (mci_role inp)) (usr_email u) [] \<and>
        insert_member (new_member_row g ev (usr_id u) (mci_role inp)) s = Inr s1 \<and>
        insert_audit (audit (g_audit_id g) actorID ''event_member'' (g_id g) ''create'' None
          (Some (SMember (new_member_row g ev (usr_id u) (mci_role inp))))) s1 = Inr s')"
  by (auto simp: member_create_def Let_def and_then_Inr_iff new_member_row_def split: option.splits if_splits)

lemma member_assign_role_Inr:
  "member_assign_role g actorID ev k v role s = (Inr r, s') \<longleftrightarrow>
     (\<exists>old s1. find_member ev k s = Some old \<and> mr_version old = v \<and>
        (mr_role old \<noteq> ''admin'' \<or> role = ''admin'' \<or> other_admin ev k s) \<and>
        r = toMember (member_set g role old) [] [] \<and> replace_member (member_set g role old) s = Inr s1 \<and>
        insert_audit (audit (g_audit_id g) actorID ''event_member'' k ''update'' (Some (SMember old))
          (Some (SMember (member_set g role old)))) s1 = Inr s')"
  by (auto simp: member_assign_role_def Let_def and_then_Inr_iff split: option.splits if_splits)

lemma member_delete_Inr:
  "member_delete g actorID ev k v s = (Inr r, s') \<longleftrightarrow>
     (\<exists>old s1. find_member ev k s = Some old \<and> mr_version old = v \<and>
        (mr_role old \<noteq> ''admin'' \<or> other_admin ev k s) \<and> delete_member k s = Inr s1 \<and>
        insert_audit (audit (g_audit_id g) actorID ''event_member'' k ''delete'' (Some (SMember old)) None) s1 = Inr s')"
  by (auto simp: member_delete_def Let_def and_then_Inr_iff split: option.splits if_splits)

lemma member_create_fail: "member_create ci g actorID ev inp s = (Inl e, s') \<Longrightarrow> s' = s"
  by (simp add: member_create_def)

lemma member_assign_role_fail: "member_assign_role g actorID ev k v role s = (Inl e, s') \<Longrightarrow> s' = s"
  by (simp add: member_assign_role_def)

lemma member_delete_fail: "member_delete g actorID ev k v s = (Inl e, s') \<Longrightarrow> s' = s"
  by (simp add: member_delete_def)

lemma member_create_ok:
  assumes "db_ok ci s" "member_create ci g a ev inp s = (r, s')"
  shows "db_ok ci s'"
proof (cases r)
  case (Inl e)
  then show ?thesis using assms member_create_fail by blast
next
  case (Inr e)
  then show ?thesis
    using assms unfolding Inr member_create_Inr
    by (elim exE conjE) ((erule stmt_ok_back)+, assumption)
qed

lemma member_assign_role_ok:
  assumes "db_ok ci s" "member_assign_role g a ev k v role s = (r, s')"
  shows "db_ok ci s'"
proof (cases r)
  case (Inl e)
  then show ?thesis using assms member_assign_role_fail by blast
next
  case (Inr e)
  then obtain old s1 where old: "find_member ev k s = Some old"
    and r: "replace_member (member_set g role old) s = Inr s1"
    and au: "insert_audit (audit (g_audit_id g) a ''event_member'' k ''update'' (Some (SMember old))
          (Some (SMember (member_set g role old)))) s1 = Inr s'"
    using assms(2) member_assign_role_Inr by blast
  have "lookup_row mr_id (mr_id (member_set g role old)) (t_members s) = Some old"
    using old lookup_row_Some by (fastforce simp: find_member_Some member_set_def)
  then have "db_ok ci s1"
    using replace_member_ok [OF assms(1) r] by (simp add: member_set_def)
  then show ?thesis using au insert_audit_ok by blast
qed

lemma member_delete_ok:
  assumes "db_ok ci s" "member_delete g a ev k v s = (r, s')"
  shows "db_ok ci s'"
proof (cases r)
  case (Inl e)
  then show ?thesis using assms member_delete_fail by blast
next
  case (Inr e)
  then show ?thesis
    using assms unfolding Inr member_delete_Inr
    by (elim exE conjE) ((erule stmt_ok_back)+, assumption)
qed

section \<open>The versioned-write contract\<close>

datatype member_write_op = MAssign txgen uuid string | MRemove txgen uuid

fun member_write :: "member_write_op \<Rightarrow> uuid \<times> uuid \<Rightarrow> int \<Rightarrow> db \<Rightarrow> (repo_error + unit) \<times> db" where
  "member_write (MAssign g actorID role) (ev, k) v s =
     (let (r, s') = member_assign_role g actorID ev k v role s in (map_sum id (\<lambda>_. ()) r, s'))"
| "member_write (MRemove g actorID) (ev, k) v s = member_delete g actorID ev k v s"

definition member_version :: "db \<Rightarrow> uuid \<times> uuid \<Rightarrow> int option" where
  "member_version s k = map_option mr_version (find_member (fst k) (snd k) s)"

lemma member_write_fail: "member_write a k v s = (Inl e, s') \<Longrightarrow> s' = s"
  by (cases "(a, k, v, s)" rule: member_write.cases)
    (auto split: prod.splits sum.splits dest: member_assign_role_fail member_delete_fail
      simp: map_sum_def)

lemma member_write_Inr:
  assumes "member_write a (ev, k) v s = (Inr r, s')"
  obtains (assign) g actorID role m where "a = MAssign g actorID role" "member_assign_role g actorID ev k v role s = (Inr m, s')"
    | (remove) g actorID where "a = MRemove g actorID" "member_delete g actorID ev k v s = (Inr (), s')"
  using assms by (cases a) (auto simp: map_sum_def split: prod.splits sum.splits)

lemma member_write_ok: "db_ok ci s \<Longrightarrow> member_write a k v s = (Inr r, s') \<Longrightarrow> db_ok ci s'"
  by (cases k) (auto elim!: member_write_Inr intro: member_assign_role_ok member_delete_ok)

text \<open>What a successful write leaves of each membership.\<close>

lemma member_write_lookup:
  assumes "member_write a (ev, k) v s = (Inr r, s')"
  obtains old where "find_member ev k s = Some old" "mr_version old = v"
    "mr_role old \<noteq> ''admin'' \<or> other_admin ev k s \<or> (\<exists>new. lookup_row mr_id k (t_members s') = Some new \<and> mr_role new = ''admin'')"
    "\<And>j. j \<noteq> k \<Longrightarrow> lookup_row mr_id j (t_members s') = lookup_row mr_id j (t_members s)"
    "case lookup_row mr_id k (t_members s') of None \<Rightarrow> True
     | Some new \<Rightarrow> mr_event_id new = ev \<and> mr_version new = v + 1"
    "\<And>x. x \<in> set (t_members s) \<Longrightarrow> mr_id x \<noteq> k \<Longrightarrow> x \<in> set (t_members s')"
  using assms
proof (cases rule: member_write_Inr)
  case (assign g actorID role m)
  then obtain old where old: "find_member ev k s = Some old" "mr_version old = v"
      "mr_role old \<noteq> ''admin'' \<or> role = ''admin'' \<or> other_admin ev k s"
    and ms: "t_members s' = put_row mr_id (member_set g role old) (t_members s)"
    by (auto simp: member_assign_role_Inr stmt_Inr)
  have k: "mr_id (member_set g role old) = k" "mr_event_id old = ev" "lookup_row mr_id k (t_members s) = Some old"
    using find_member_in [OF old(1)] old(1) by (simp_all add: member_set_def find_member_Some)
  show ?thesis
    by (rule that [of old])
      (use old k in \<open>auto simp: ms lookup_put_row member_set_def intro: put_row_keeps\<close>)
next
  case (remove g actorID)
  then obtain old where old: "find_member ev k s = Some old" "mr_version old = v"
      "mr_role old \<noteq> ''admin'' \<or> other_admin ev k s"
    and ms: "t_members s' = drop_row mr_id k (t_members s)"
    by (auto simp: member_delete_Inr stmt_Inr delete_member_def)
  show ?thesis
    by (rule that [of old]) (use old in \<open>auto simp: ms lookup_drop_row\<close>)
qed

interpretation member_versioned: versioned_write member_version member_write "db_ok ci"
proof
  fix s k a v and v' :: int and e :: repo_error and r :: unit and s' and k' :: "uuid \<times> uuid"
  show "member_version s k = None \<Longrightarrow> member_write a k v s = (Inl ErrNotFound, s)"
    by (cases a; cases k)
      (auto simp: member_version_def member_assign_role_def member_delete_def diagnoseAdminGuardedFailure_def in_tx_def)
  show "member_version s k = Some v' \<Longrightarrow> v' \<noteq> v \<Longrightarrow> member_write a k v s = (Inl ErrVersionMismatch, s)"
    by (cases a; cases k)
      (auto simp: member_version_def member_assign_role_def member_delete_def diagnoseAdminGuardedFailure_def in_tx_def)
  show "member_write a k v s = (Inl e, s') \<Longrightarrow> s' = s"
    by (rule member_write_fail)
  obtain ev j where k: "k = (ev, j)" by (cases k)
  obtain ev' j' where k': "k' = (ev', j')" by (cases k')
  show "member_write a k v s = (Inr r, s') \<Longrightarrow> member_version s' k = None \<or> member_version s' k = Some (v + 1)"
    unfolding k by (erule member_write_lookup)
      (auto simp: member_version_def find_member_def split: option.splits)
  show "member_write a k v s = (Inr r, s') \<Longrightarrow> k' \<noteq> k \<Longrightarrow> member_version s' k' = member_version s k'"
    unfolding k k' by (erule member_write_lookup, cases "j' = j")
      (auto simp: member_version_def find_member_def split: option.splits if_splits)
  show "db_ok ci s \<Longrightarrow> member_write a k v s = (Inr r, s') \<Longrightarrow> db_ok ci s'"
    by (rule member_write_ok)
qed

section \<open>Admins\<close>

definition has_admin :: "db \<Rightarrow> uuid \<Rightarrow> bool" where
  "has_admin s ev = (\<exists>m \<in> set (t_members s). mr_event_id m = ev \<and> mr_role m = ''admin'')"

lemma member_write_keeps_admin:
  assumes "db_ok ci s" "member_write a k v s = (Inr r, s')" "has_admin s ev"
  shows "has_admin s' ev"
proof -
  obtain e j where k: "k = (e, j)" by (cases k)
  from assms(3) obtain m where m: "m \<in> set (t_members s)" "mr_event_id m = ev" "mr_role m = ''admin''"
    by (auto simp: has_admin_def)
  from assms(2) [unfolded k] show ?thesis
  proof (rule member_write_lookup)
    fix old
    assume old: "find_member e j s = Some old" "mr_version old = v"
      and g: "mr_role old \<noteq> ''admin'' \<or> other_admin e j s \<or> (\<exists>new. lookup_row mr_id j (t_members s') = Some new \<and> mr_role new = ''admin'')"
      and new: "case lookup_row mr_id j (t_members s') of None \<Rightarrow> True | Some new \<Rightarrow> mr_event_id new = e \<and> mr_version new = v + 1"
      and keep: "\<And>x. x \<in> set (t_members s) \<Longrightarrow> mr_id x \<noteq> j \<Longrightarrow> x \<in> set (t_members s')"
    show ?thesis
    proof (cases "mr_id m = j")
      case False
      then show ?thesis using keep m by (auto simp: has_admin_def)
    next
      case True
      then have "old = m"
        using old(1) m(1) lookup_row_in [of mr_id "t_members s" m] db_okD(3) [OF assms(1)]
        by (simp add: find_member_Some members_ok_def)
      then consider "other_admin ev j s" | n where "lookup_row mr_id j (t_members s') = Some n" "mr_role n = ''admin''"
        using g m find_member_in [OF old(1)] by auto
      then show ?thesis
      proof cases
        case 1
        then show ?thesis using keep by (auto simp: other_admin_def has_admin_def)
      next
        case 2
        then have "n \<in> set (t_members s')" "mr_event_id n = ev"
          using new m \<open>old = m\<close> find_member_in [OF old(1)] by (auto dest: lookup_row_Some)
        then show ?thesis using 2 by (auto simp: has_admin_def)
      qed
    qed
  qed
qed

section \<open>The List contract\<close>

lemma member_list_rows_eq:
  assumes "db_ok ci s"
  shows "member_list_rows eventID s =
     map (\<lambda>m. (let u = the (lookup_row usr_id (mr_user_id m) (t_users s)) in toMember m (usr_email u) (usr_name u)))
       (filter (\<lambda>m. mr_event_id m = eventID) (t_members s))"
proof -
  have "distinct (map usr_id (t_users s))" "\<forall>m \<in> set (t_members s). mr_event_id m = eventID \<longrightarrow> mr_user_id m \<in> user_ids s"
    using db_okD(1,3) [OF assms] by (auto simp: users_ok_def members_ok_def)
  from join_rows [OF this] show ?thesis by (simp add: member_list_rows_def Let_def)
qed

definition member_list_pairs :: "uuid \<Rightarrow> nat \<Rightarrow> cursor option \<Rightarrow> db \<Rightarrow> repo_error + (member list \<times> cursor option)" where
  "member_list_pairs eventID limit after s =
     map_sum id (\<lambda>p. (mpg_members p, mpg_next_cursor p)) (member_list eventID limit after s)"

interpretation member_listing: keyset_list "member_list_pairs eventID" "member_list_rows eventID" member_key "db_ok ci"
proof
  fix s limit after
  assume ok: "db_ok ci s"
  show "member_list_pairs eventID limit after s = list_page member_key limit after (member_list_rows eventID s)"
    by (cases "list_page member_key limit after (member_list_rows eventID s)")
      (auto simp: member_list_pairs_def member_list_def)
  have "distinct (map mr_id (filter P (t_members s)))" for P
    using db_okD(3) [OF ok] by (simp add: members_ok_def distinct_map_filter)
  then have "distinct (map mb_id (member_list_rows eventID s))"
    by (simp add: member_list_rows_eq [OF ok] toMember_def comp_def Let_def)
  then show "distinct (map member_key (member_list_rows eventID s))"
    by (auto simp: member_key_def distinct_map inj_on_def)
qed

end
