(* ===== verification/Invitation_Repo.thy ===== *)
theory Invitation_Repo
  imports Member_Repo
begin

text \<open>
  internal/adapter/postgres/invitation_repo.go and internal/domain/invitation/service.go.
  BulkCreate is not one transaction: a read of the idempotency key, one transaction per item, and
  the INSERT of the result. The three parts are definitions of their own, so that calls with the
  same key can be interleaved between them. The stored JSON body is the list of item results.
\<close>

section \<open>Operations\<close>

definition new_invitation_row :: "(string \<Rightarrow> string) \<Rightarrow> txgen \<Rightarrow> uuid \<Rightarrow> invitation_create_input \<Rightarrow> db \<Rightarrow> invitation_row" where
  "new_invitation_row ci g eventID inp s =
     \<lparr>ir_id = g_id g, ir_event_id = eventID, ir_user_id = map_option usr_id (user_by_email ci (ici_email inp) s),
      ir_email = ici_email inp, ir_role = ici_role inp, ir_created_at = g_now g, ir_updated_at = g_now g\<rparr>"

definition invitation_create ::
    "(string \<Rightarrow> string) \<Rightarrow> txgen \<Rightarrow> uuid \<Rightarrow> uuid \<Rightarrow> invitation_create_input \<Rightarrow> db \<Rightarrow> (repo_error + invitation) \<times> db" where
  "invitation_create ci g actorID eventID inp = in_tx (\<lambda>s.
     if \<not> can_grant_role actorID eventID (ici_role inp) s then Inl ErrForbidden
     else let row = new_invitation_row ci g eventID inp s in
       and_then (wrap_conflict uniqueViolation (insert_invitation ci row s)) (\<lambda>s1.
       and_then (wrap_pg (insert_audit (audit (g_audit_id g) actorID ''invitation'' (ir_id row) ''create''
                   None (Some (SInvitation row))) s1)) (\<lambda>s2.
       Inr (toInvitation row, s2))))"

definition invitation_key :: "invitation \<Rightarrow> time \<times> uuid" where
  "invitation_key i = (iv_created_at i, iv_id i)"

definition invitation_list_rows :: "uuid \<Rightarrow> db \<Rightarrow> invitation list" where
  "invitation_list_rows eventID s = [toInvitation i. i \<leftarrow> t_invitations s, ir_event_id i = eventID]"

definition invitation_list :: "uuid \<Rightarrow> nat \<Rightarrow> cursor option \<Rightarrow> db \<Rightarrow> repo_error + invitation_page" where
  "invitation_list eventID limit after s =
     and_then (list_page invitation_key limit after (invitation_list_rows eventID s)) (\<lambda>(is, next).
       Inr \<lparr>ipg_invitations = is, ipg_next_cursor = next\<rparr>)"

definition bulkInviteEndpoint :: string where
  "bulkInviteEndpoint = ''POST /v1/events/{eventId}/invitations/bulk''"

definition find_key :: "uuid \<Rightarrow> string \<Rightarrow> db \<Rightarrow> idempotency_row option" where
  "find_key actorID key s = find (\<lambda>k. ik_actor_id k = actorID \<and> ik_key k = key) (t_idempotency s)"

definition loadIdempotencyResult :: "uuid \<Rightarrow> string \<Rightarrow> string \<Rightarrow> db \<Rightarrow> repo_error + bulk_result option" where
  "loadIdempotencyResult actorID key requestHash s =
     (case find_key actorID key s of
        None \<Rightarrow> Inr None
      | Some k \<Rightarrow>
          if ik_request_hash k \<noteq> requestHash then Inl ErrConflict
          else Inr (Some \<lparr>br_items = ik_response_body k, br_replayed = False\<rparr>))"

definition item_result :: "string \<Rightarrow> string \<Rightarrow> uuid option \<Rightarrow> bulk_item_result" where
  "item_result email status invitationID =
     \<lparr>bir_email = email, bir_status = status, bir_invitation_id = invitationID\<rparr>"

fun bulk_items ::
    "(string \<Rightarrow> string) \<Rightarrow> uuid \<Rightarrow> uuid \<Rightarrow> (txgen \<times> invitation_create_input) list \<Rightarrow> db \<Rightarrow>
     (repo_error + bulk_item_result list) \<times> db" where
  "bulk_items ci actorID eventID [] s = (Inr [], s)"
| "bulk_items ci actorID eventID ((g, item) # rest) s =
     (let (r, s1) = invitation_create ci g actorID eventID item s;
          continue = (\<lambda>res. let (rs, s2) = bulk_items ci actorID eventID rest s1
                            in (and_then rs (\<lambda>l. Inr (res # l)), s2))
      in case r of
           Inr created \<Rightarrow> continue (item_result (ici_email item) ''created'' (Some (iv_id created)))
         | Inl ErrConflict \<Rightarrow> continue (item_result (ici_email item) ''conflict'' None)
         | Inl ErrForbidden \<Rightarrow> continue (item_result (ici_email item) ''forbidden'' None)
         | Inl e \<Rightarrow> (Inl e, s1))"

definition key_row :: "txgen \<Rightarrow> uuid \<Rightarrow> string \<Rightarrow> string \<Rightarrow> bulk_item_result list \<Rightarrow> idempotency_row" where
  "key_row g actorID key requestHash results =
     \<lparr>ik_id = g_id g, ik_actor_id = actorID, ik_key = key, ik_endpoint = bulkInviteEndpoint,
      ik_request_hash = requestHash, ik_response_status = 207, ik_response_body = results\<rparr>"

definition bulk_record ::
    "txgen \<Rightarrow> uuid \<Rightarrow> string \<Rightarrow> string \<Rightarrow> bulk_item_result list \<Rightarrow> db \<Rightarrow> (repo_error + bulk_result) \<times> db" where
  "bulk_record g actorID key requestHash results s =
     (case insert_idempotency (key_row g actorID key requestHash results) s of
        Inl e \<Rightarrow> (Inl (ErrOther (Pg e)), s)
      | Inr (True, s1) \<Rightarrow> (Inr \<lparr>br_items = results, br_replayed = False\<rparr>, s1)
      | Inr (False, s1) \<Rightarrow>
          (case loadIdempotencyResult actorID key requestHash s1 of
             Inl e \<Rightarrow> (Inl e, s1)
           | Inr None \<Rightarrow> (Inl (ErrOther KeyVanished), s1)
           | Inr (Some winner) \<Rightarrow> (Inr (winner\<lparr>br_replayed := True\<rparr>), s1)))"

definition invitation_bulk_create ::
    "(string \<Rightarrow> string) \<Rightarrow> txgen \<Rightarrow> (nat \<Rightarrow> txgen) \<Rightarrow> uuid \<Rightarrow> uuid \<Rightarrow> string \<Rightarrow> string \<Rightarrow>
     invitation_create_input list \<Rightarrow> db \<Rightarrow> (repo_error + bulk_result) \<times> db" where
  "invitation_bulk_create ci g gs actorID eventID idempotencyKey requestHash items s =
     (case loadIdempotencyResult actorID idempotencyKey requestHash s of
        Inl e \<Rightarrow> (Inl e, s)
      | Inr (Some existing) \<Rightarrow> (Inr (existing\<lparr>br_replayed := True\<rparr>), s)
      | Inr None \<Rightarrow>
          (case bulk_items ci actorID eventID (map (\<lambda>i. (gs i, items ! i)) [0..<length items]) s of
             (Inl e, s1) \<Rightarrow> (Inl e, s1)
           | (Inr results, s1) \<Rightarrow> bulk_record g actorID idempotencyKey requestHash results s1))"

text \<open>internal/domain/invitation/service.go.\<close>

definition service_create_invitation ::
    "(string \<Rightarrow> string) \<Rightarrow> txgen \<Rightarrow> uuid \<Rightarrow> uuid \<Rightarrow> invitation_create_input \<Rightarrow> db \<Rightarrow> (repo_error + invitation) \<times> db" where
  "service_create_invitation = invitation_create"
definition service_list_invitations :: "uuid \<Rightarrow> nat \<Rightarrow> cursor option \<Rightarrow> db \<Rightarrow> repo_error + invitation_page" where
  "service_list_invitations = invitation_list"
definition service_bulk_invite ::
    "(string \<Rightarrow> string) \<Rightarrow> txgen \<Rightarrow> (nat \<Rightarrow> txgen) \<Rightarrow> uuid \<Rightarrow> uuid \<Rightarrow> string \<Rightarrow> string \<Rightarrow>
     invitation_create_input list \<Rightarrow> db \<Rightarrow> (repo_error + bulk_result) \<times> db" where
  "service_bulk_invite = invitation_bulk_create"

section \<open>Single invitations\<close>

lemma invitation_create_Inr:
  "invitation_create ci g actorID ev inp s = (Inr i, s') \<longleftrightarrow>
     (\<exists>s1. can_grant_role actorID ev (ici_role inp) s \<and> i = toInvitation (new_invitation_row ci g ev inp s) \<and>
        insert_invitation ci (new_invitation_row ci g ev inp s) s = Inr s1 \<and>
        insert_audit (audit (g_audit_id g) actorID ''invitation'' (g_id g) ''create'' None
          (Some (SInvitation (new_invitation_row ci g ev inp s)))) s1 = Inr s')"
  by (auto simp: invitation_create_def Let_def and_then_Inr_iff new_invitation_row_def)

lemma invitation_create_fail: "invitation_create ci g actorID ev inp s = (Inl e, s') \<Longrightarrow> s' = s"
  by (simp add: invitation_create_def)

lemma invitation_create_ok:
  assumes "db_ok ci s" "invitation_create ci g a ev inp s = (r, s')"
  shows "db_ok ci s'"
proof (cases r)
  case (Inl e)
  then show ?thesis using assms invitation_create_fail by blast
next
  case (Inr e)
  then show ?thesis
    using assms unfolding Inr invitation_create_Inr
    by (elim exE conjE) ((erule stmt_ok_back)+, assumption)
qed

lemma invitation_create_keys: "invitation_create ci g a ev inp s = (r, s') \<Longrightarrow> t_idempotency s' = t_idempotency s"
  by (cases r) (auto simp: invitation_create_Inr stmt_Inr dest: invitation_create_fail)

section \<open>Bulk invitations\<close>

lemma bulk_items_step:
  assumes "bulk_items ci a ev ((g, item) # rest) s = (r, s')"
  obtains r1 s1 where "invitation_create ci g a ev item s = (r1, s1)"
    "s' = s1 \<or> s' = snd (bulk_items ci a ev rest s1)"
  using assms by (cases "invitation_create ci g a ev item s"; cases "bulk_items ci a ev rest (snd (invitation_create ci g a ev item s))")
    (auto simp: Let_def split: sum.splits repo_error.splits)

lemma bulk_items_ok:
  "db_ok ci s \<Longrightarrow> bulk_items ci a ev items s = (r, s') \<Longrightarrow> db_ok ci s'"
proof (induction items arbitrary: s r s')
  case (Cons item items)
  obtain g x where item: "item = (g, x)" by (cases item)
  from Cons.prems(2) [unfolded item] obtain r1 s1 where 1: "invitation_create ci g a ev x s = (r1, s1)"
    "s' = s1 \<or> s' = snd (bulk_items ci a ev items s1)" by (rule bulk_items_step)
  have "db_ok ci s1" using invitation_create_ok [OF Cons.prems(1) 1(1)] .
  moreover have "db_ok ci (snd (bulk_items ci a ev items s1))"
    using Cons.IH [OF \<open>db_ok ci s1\<close>, of "fst (bulk_items ci a ev items s1)"] by simp
  ultimately show ?case using 1(2) by auto
qed simp

lemma bulk_items_keys: "bulk_items ci a ev items s = (r, s') \<Longrightarrow> t_idempotency s' = t_idempotency s"
proof (induction items arbitrary: s r s')
  case (Cons item items)
  obtain g x where item: "item = (g, x)" by (cases item)
  from Cons.prems [unfolded item] obtain r1 s1 where 1: "invitation_create ci g a ev x s = (r1, s1)"
    "s' = s1 \<or> s' = snd (bulk_items ci a ev items s1)" by (rule bulk_items_step)
  have "t_idempotency (snd (bulk_items ci a ev items s1)) = t_idempotency s1"
    using Cons.IH [of s1 "fst (bulk_items ci a ev items s1)"] by simp
  then show ?case using 1 invitation_create_keys by metis
qed simp

lemma find_key_None: "find_key a k s = None \<longleftrightarrow> (a, k) \<notin> (\<lambda>x. (ik_actor_id x, ik_key x)) ` set (t_idempotency s)"
  by (auto simp: find_key_def find_None_iff)

lemma loadIdempotencyResult_None: "loadIdempotencyResult a k h s = Inr None \<longleftrightarrow> find_key a k s = None"
  by (auto simp: loadIdempotencyResult_def split: option.splits if_splits)

lemma find_key_in:
  assumes "db_ok ci s" "x \<in> set (t_idempotency s)"
  shows "find_key (ik_actor_id x) (ik_key x) s = Some x"
proof -
  have "distinct (map (\<lambda>k. (ik_actor_id k, ik_key k)) (t_idempotency s))"
    using db_okD(10) [OF assms(1)] by (simp add: idempotency_ok_def)
  moreover have "distinct (map (\<lambda>k. (ik_actor_id k, ik_key k)) ks) \<Longrightarrow> x \<in> set ks \<Longrightarrow>
      find (\<lambda>k. ik_actor_id k = ik_actor_id x \<and> ik_key k = ik_key x) ks = Some x" for ks
    by (induction ks) (auto simp: rev_image_eqI)
  ultimately show ?thesis using assms(2) by (simp add: find_key_def)
qed

text \<open>The INSERT that wins stores its own results; one that loses returns the stored ones.\<close>

lemma bulk_record_won:
  assumes "find_key a k s = None" "bulk_record g a k h results s = (Inr res, s')"
  shows "res = \<lparr>br_items = results, br_replayed = False\<rparr> \<and>
     s' = s\<lparr>t_idempotency := t_idempotency s @ [key_row g a k h results]\<rparr>"
  using assms
  by (auto simp: bulk_record_def find_key_None insert_idempotency_def key_row_def split: if_splits)

lemma bulk_record_lost:
  assumes "find_key a k s = Some row"
  shows "bulk_record g a k h results s =
     (if ik_request_hash row = h then Inr \<lparr>br_items = ik_response_body row, br_replayed = True\<rparr> else Inl ErrConflict, s)"
proof -
  have "(a, k) \<in> (\<lambda>x. (ik_actor_id x, ik_key x)) ` set (t_idempotency s)"
    using assms find_key_None [of a k s] by simp
  then show ?thesis
    using assms by (simp add: bulk_record_def insert_idempotency_def key_row_def loadIdempotencyResult_def)
qed

lemma bulk_record_ok:
  assumes "db_ok ci s" "bulk_record g a k h results s = (r, s')"
  shows "db_ok ci s'"
proof (cases "find_key a k s")
  case (Some row)
  then show ?thesis using assms bulk_record_lost [OF Some] by (auto split: if_splits)
next
  case None
  show ?thesis
  proof (cases "insert_idempotency (key_row g a k h results) s")
    case (Inl e)
    then show ?thesis using assms by (simp add: bulk_record_def)
  next
    case (Inr p)
    obtain b s1 where p: "p = (b, s1)" by (cases p)
    then have "db_ok ci s1" using assms(1) Inr insert_idempotency_ok by blast
    then show ?thesis
      using assms(2) Inr p
      by (auto simp: bulk_record_def split: bool.splits sum.splits option.splits)
  qed
qed

lemma bulk_create_ok:
  assumes "db_ok ci s" "invitation_bulk_create ci g gs a ev k h items s = (r, s')"
  shows "db_ok ci s'"
proof (cases "loadIdempotencyResult a k h s")
  case (Inl e)
  then show ?thesis using assms by (simp add: invitation_bulk_create_def)
next
  case (Inr found)
  obtain rs s1 where i: "bulk_items ci a ev (map (\<lambda>i. (gs i, items ! i)) [0..<length items]) s = (rs, s1)"
    by fastforce
  have s1: "db_ok ci s1" using bulk_items_ok [OF assms(1) i] .
  show ?thesis
  proof (cases found)
    case None
    then have "s' = s1 \<or> (\<exists>results. bulk_record g a k h results s1 = (r, s'))"
      using assms(2) Inr i by (cases rs) (auto simp: invitation_bulk_create_def)
    then show ?thesis using s1 bulk_record_ok [OF s1] by blast
  next
    case (Some existing)
    then show ?thesis using assms Inr by (simp add: invitation_bulk_create_def)
  qed
qed

text \<open>A retry replays the stored answer and writes nothing, whatever it names as event and items.\<close>

lemma bulk_create_retry:
  assumes "find_key a k s = Some row"
  shows "invitation_bulk_create ci g gs a ev k h items s =
     (if ik_request_hash row = h then Inr \<lparr>br_items = ik_response_body row, br_replayed = True\<rparr> else Inl ErrConflict, s)"
  using assms by (simp add: invitation_bulk_create_def loadIdempotencyResult_def)

lemma bulk_create_first:
  assumes "find_key a k s = None" "invitation_bulk_create ci g gs a ev k h items s = (Inr res, s')" "db_ok ci s"
  shows "\<not> br_replayed res \<and> find_key a k s' = Some (key_row g a k h (br_items res))"
proof -
  obtain r s1 where i: "bulk_items ci a ev (map (\<lambda>i. (gs i, items ! i)) [0..<length items]) s = (Inr r, s1)"
    and rec: "bulk_record g a k h r s1 = (Inr res, s')"
    using assms(1,2) by (auto simp: invitation_bulk_create_def loadIdempotencyResult_def split: prod.splits sum.splits)
  have "find_key a k s1 = None"
    using assms(1) bulk_items_keys [OF i] by (simp add: find_key_def)
  note won = bulk_record_won [OF this rec]
  have "db_ok ci s'" using bulk_record_ok [OF bulk_items_ok [OF assms(3) i] rec] .
  from find_key_in [OF this, of "key_row g a k h r"] show ?thesis
    using won by (simp add: key_row_def)
qed

text \<open>
  What a finished loop did: one result per item, in order; exactly the items reported
  \<open>created\<close> have a new row; one reported \<open>conflict\<close> is already invited by e-mail.
\<close>

definition item_reported ::
    "(string \<Rightarrow> string) \<Rightarrow> uuid \<Rightarrow> invitation_row list \<Rightarrow> txgen \<times> invitation_create_input \<Rightarrow> bulk_item_result \<Rightarrow> bool" where
  "item_reported ci ev is p res = (bir_email res = ici_email (snd p) \<and>
     (case bir_invitation_id res of
        Some i \<Rightarrow> bir_status res = ''created'' \<and>
          (\<exists>x \<in> set is. ir_id x = i \<and> ir_event_id x = ev \<and> ir_email x = ici_email (snd p) \<and> ir_role x = ici_role (snd p))
      | None \<Rightarrow> bir_status res = ''conflict'' \<or> bir_status res = ''forbidden''))"

lemma item_reported_mono:
  "item_reported ci ev is p res \<Longrightarrow> set is \<subseteq> set is' \<Longrightarrow> item_reported ci ev is' p res"
  by (auto simp: item_reported_def split: option.splits)

lemma bulk_items_grow: "bulk_items ci a ev items s = (r, s') \<Longrightarrow> set (t_invitations s) \<subseteq> set (t_invitations s')"
proof (induction items arbitrary: s r s')
  case (Cons item items)
  obtain g x where item: "item = (g, x)" by (cases item)
  from Cons.prems [unfolded item] obtain r1 s1 where 1: "invitation_create ci g a ev x s = (r1, s1)"
    "s' = s1 \<or> s' = snd (bulk_items ci a ev items s1)" by (rule bulk_items_step)
  have "set (t_invitations s) \<subseteq> set (t_invitations s1)"
    using 1(1) by (cases r1) (auto simp: invitation_create_Inr stmt_Inr dest: invitation_create_fail)
  moreover have "set (t_invitations s1) \<subseteq> set (t_invitations (snd (bulk_items ci a ev items s1)))"
    using Cons.IH [of s1 "fst (bulk_items ci a ev items s1)"] by simp
  ultimately show ?case using 1(2) by auto
qed simp

lemma bulk_items_reports:
  assumes "bulk_items ci a ev items s = (Inr rs, s')"
  shows "list_all2 (item_reported ci ev (t_invitations s')) items rs"
  using assms
proof (induction items arbitrary: s rs)
  case (Cons item items)
  obtain g x where item: "item = (g, x)" by (cases item)
  obtain r1 s1 where 1: "invitation_create ci g a ev x s = (r1, s1)" by fastforce
  obtain r2 s2 where 2: "bulk_items ci a ev items s1 = (r2, s2)" by fastforce
  from Cons.prems 1 2 obtain res rest where rs: "rs = res # rest" and r2: "r2 = Inr rest" and s': "s' = s2"
    and res: "(\<exists>c. r1 = Inr c \<and> res = item_result (ici_email x) ''created'' (Some (iv_id c))) \<or>
       res = item_result (ici_email x) ''conflict'' None \<or> res = item_result (ici_email x) ''forbidden'' None"
    by (auto simp: item Let_def and_then_Inr_iff split: sum.splits repo_error.splits)
  have IH: "list_all2 (item_reported ci ev (t_invitations s')) items rest"
    using Cons.IH [of s1 rest] 2 r2 s' by simp
  have "item_reported ci ev (t_invitations s1) item res"
    using res 1 by (auto simp: item item_reported_def item_result_def invitation_create_Inr stmt_Inr
        new_invitation_row_def toInvitation_def)
  moreover have "set (t_invitations s1) \<subseteq> set (t_invitations s')"
    using bulk_items_grow [OF 2] s' by simp
  ultimately show ?case using IH by (simp add: rs item_reported_mono)
qed simp

section \<open>The List contract\<close>

lemma invitation_list_rows_eq:
  "invitation_list_rows eventID s = map toInvitation (filter (\<lambda>i. ir_event_id i = eventID) (t_invitations s))"
proof -
  have "concat (map (\<lambda>i. if ir_event_id i = eventID then [toInvitation i] else []) rs) =
      map toInvitation (filter (\<lambda>i. ir_event_id i = eventID) rs)" for rs
    by (induction rs) auto
  then show ?thesis by (simp add: invitation_list_rows_def)
qed

definition invitation_list_pairs :: "uuid \<Rightarrow> nat \<Rightarrow> cursor option \<Rightarrow> db \<Rightarrow> repo_error + (invitation list \<times> cursor option)" where
  "invitation_list_pairs eventID limit after s =
     map_sum id (\<lambda>p. (ipg_invitations p, ipg_next_cursor p)) (invitation_list eventID limit after s)"

interpretation invitation_listing: keyset_list "invitation_list_pairs eventID" "invitation_list_rows eventID" invitation_key "db_ok ci"
proof
  fix s limit after
  assume ok: "db_ok ci s"
  show "invitation_list_pairs eventID limit after s = list_page invitation_key limit after (invitation_list_rows eventID s)"
    by (cases "list_page invitation_key limit after (invitation_list_rows eventID s)")
      (auto simp: invitation_list_pairs_def invitation_list_def)
  have "distinct (map ir_id (filter P (t_invitations s)))" for P
    using db_okD(8) [OF ok] by (simp add: invitations_ok_def distinct_map_filter)
  then have "distinct (map iv_id (invitation_list_rows eventID s))"
    by (simp add: invitation_list_rows_eq toInvitation_def comp_def)
  then show "distinct (map invitation_key (invitation_list_rows eventID s))"
    by (auto simp: invitation_key_def distinct_map inj_on_def)
qed

end
