(* ===== verification/System.thy ===== *)
theory System
  imports User_Repo Member_Repo Session_Repo Invitation_Repo
begin

text \<open>
  The backend as one state machine: every operation the services offer, with the actor the auth
  middleware resolved and what Postgres draws for its transactions, and the states reachable from
  the empty database. \<open>tx_write_effect\<close> says what each committed transaction did to the
  tables; Invariants uses it.
\<close>

section \<open>Operations\<close>

datatype op =
    OSignIn txgen string string string
  | OCreateEvent txgen uuid event_create_input
  | OUpdateEvent txgen uuid uuid int event_patch
  | ODeleteEvent txgen uuid uuid int
  | OCreateMember txgen uuid uuid member_create_input
  | OAssignRole txgen uuid uuid uuid int string
  | ORemoveMember txgen uuid uuid uuid int
  | OCreateRoom txgen uuid uuid room_create_input
  | OUpdateRoom txgen uuid uuid uuid int room_patch
  | ODeleteRoom txgen uuid uuid uuid int
  | OCreateSession txgen uuid uuid session_create_input
  | OUpdateSession txgen uuid uuid uuid int session_patch
  | ODeleteSession txgen uuid uuid uuid int
  | OCreateSeries txgen "nat \<Rightarrow> txgen" uuid uuid series_create_input
  | OCreateInvitation txgen uuid uuid invitation_create_input
  | OBulkInvite txgen "nat \<Rightarrow> txgen" uuid uuid string string "invitation_create_input list"

fun apply_op :: "(string \<Rightarrow> string) \<Rightarrow> op \<Rightarrow> db \<Rightarrow> db" where
  "apply_op ci (OSignIn g subject email name) s = snd (service_get_or_create_by_subject ci g subject email name s)"
| "apply_op ci (OCreateEvent g a inp) s = snd (service_create_event g a inp s)"
| "apply_op ci (OUpdateEvent g a ev v patch) s = snd (service_update_event g a ev v patch s)"
| "apply_op ci (ODeleteEvent g a ev v) s = snd (service_delete_event g a ev v s)"
| "apply_op ci (OCreateMember g a ev inp) s = snd (service_create_member ci g a ev inp s)"
| "apply_op ci (OAssignRole g a ev k v role) s = snd (service_assign_role g a ev k v role s)"
| "apply_op ci (ORemoveMember g a ev k v) s = snd (service_remove_member g a ev k v s)"
| "apply_op ci (OCreateRoom g a ev inp) s = snd (service_create_room g a ev inp s)"
| "apply_op ci (OUpdateRoom g a ev k v patch) s = snd (service_update_room g a ev k v patch s)"
| "apply_op ci (ODeleteRoom g a ev k v) s = snd (service_delete_room g a ev k v s)"
| "apply_op ci (OCreateSession g a ev inp) s = snd (service_create_session g a ev inp s)"
| "apply_op ci (OUpdateSession g a ev k v patch) s = snd (service_update_session g a ev k v patch s)"
| "apply_op ci (ODeleteSession g a ev k v) s = snd (service_delete_session g a ev k v s)"
| "apply_op ci (OCreateSeries g gs a ev inp) s = snd (service_create_series g gs a ev inp s)"
| "apply_op ci (OCreateInvitation g a ev inp) s = snd (service_create_invitation ci g a ev inp s)"
| "apply_op ci (OBulkInvite g gs a ev k h items) s = snd (service_bulk_invite ci g gs a ev k h items s)"

inductive reachable :: "(string \<Rightarrow> string) \<Rightarrow> db \<Rightarrow> bool" for ci where
  start: "reachable ci empty_db"
| step: "reachable ci s \<Longrightarrow> reachable ci (apply_op ci p s)"

lemmas service_defs = service_get_or_create_by_subject_def service_create_event_def
  service_update_event_def service_delete_event_def service_create_member_def service_assign_role_def
  service_remove_member_def service_create_room_def service_update_room_def service_delete_room_def
  service_create_session_def service_update_session_def service_delete_session_def
  service_create_series_def service_create_invitation_def service_bulk_invite_def

section \<open>One-transaction writes\<close>

text \<open>
  \<open>tx_write s s'\<close>: what one committed transaction of the repositories did to the tables. Every
  operation is a sequence of such writes, so a state property that each of them keeps holds in
  every reachable state.
\<close>

inductive tx_write :: "(string \<Rightarrow> string) \<Rightarrow> db \<Rightarrow> db \<Rightarrow> bool" for ci where
  sign_in: "user_get_or_create_by_subject ci g subject email name s = (Inr u, s') \<Longrightarrow> tx_write ci s s'"
| create_event: "event_create g a inp s = (Inr e, s') \<Longrightarrow> tx_write ci s s'"
| write_event: "event_write w k v s = (Inr e, s') \<Longrightarrow> tx_write ci s s'"
| create_member: "member_create ci g a ev mi s = (Inr m, s') \<Longrightarrow> tx_write ci s s'"
| write_member: "member_write mw mk v s = (Inr u1, s') \<Longrightarrow> tx_write ci s s'"
| create_room: "room_create g a ev ri s = (Inr r, s') \<Longrightarrow> tx_write ci s s'"
| write_room: "room_write rw rk v s = (Inr u2, s') \<Longrightarrow> tx_write ci s s'"
| create_session: "session_create g a ev si s = (Inr x, s') \<Longrightarrow> tx_write ci s s'"
| write_session: "session_write sw sk v s = (Inr x, s') \<Longrightarrow> tx_write ci s s'"
| create_series: "insert_series xr s = Inr s' \<Longrightarrow> tx_write ci s s'"
| create_invitation: "invitation_create ci g a ev ii s = (Inr i, s') \<Longrightarrow> tx_write ci s s'"
| record_key: "insert_idempotency kr s = Inr (b, s') \<Longrightarrow> tx_write ci s s'"

abbreviation tx_writes :: "(string \<Rightarrow> string) \<Rightarrow> db \<Rightarrow> db \<Rightarrow> bool" where
  "tx_writes ci \<equiv> (tx_write ci)\<^sup>*\<^sup>*"

lemma tx_writes_one: "(\<And>r. f s = (Inr r, s') \<Longrightarrow> tx_write ci s s') \<Longrightarrow> (\<And>e. f s = (Inl e, s') \<Longrightarrow> s' = s) \<Longrightarrow>
    s' = snd (f s) \<Longrightarrow> tx_writes ci s s'"
  by (cases "f s"; cases "fst (f s)") auto

lemma materialize_writes: "materialize a ev items s = (r, s') \<Longrightarrow> tx_writes ci s s'"
proof (induction items arbitrary: s r s')
  case (Cons item items)
  obtain g inp where item: "item = (g, inp)" by (cases item)
  obtain r1 s1 where 1: "session_create g a ev inp s = (r1, s1)" by fastforce
  obtain r2 s2 where 2: "materialize a ev items s1 = (r2, s2)" by fastforce
  have "tx_writes ci s s1"
    by (rule tx_writes_one [of "session_create g a ev inp"])
      (use 1 in \<open>auto intro: tx_write.create_session dest: session_create_fail\<close>)
  moreover have "tx_writes ci s1 s2" using Cons.IH [OF 2] .
  moreover have "s' = s1 \<or> s' = s2"
    using Cons.prems 1 2 by (auto simp: item Let_def split: sum.splits repo_error.splits)
  ultimately show ?case by (auto intro: rtranclp_trans)
qed simp

lemma bulk_items_writes: "bulk_items ci a ev items s = (r, s') \<Longrightarrow> tx_writes ci s s'"
proof (induction items arbitrary: s r s')
  case (Cons item items)
  obtain g x where item: "item = (g, x)" by (cases item)
  from Cons.prems [unfolded item] obtain r1 s1 where 1: "invitation_create ci g a ev x s = (r1, s1)"
    "s' = s1 \<or> s' = snd (bulk_items ci a ev items s1)" by (rule bulk_items_step)
  have "tx_writes ci s s1"
    by (rule tx_writes_one [of "invitation_create ci g a ev x"])
      (use 1 in \<open>auto intro: tx_write.create_invitation dest: invitation_create_fail\<close>)
  moreover have "tx_writes ci s1 (snd (bulk_items ci a ev items s1))"
    using Cons.IH [of s1 "fst (bulk_items ci a ev items s1)"] by simp
  ultimately show ?case using 1(2) by (auto intro: rtranclp_trans)
qed simp

lemma bulk_record_writes: "bulk_record g a k h results s = (r, s') \<Longrightarrow> tx_writes ci s s'"
  by (auto simp: bulk_record_def split: sum.splits prod.splits bool.splits option.splits
      intro: tx_write.record_key)

lemma bulk_create_writes: "invitation_bulk_create ci g gs a ev k h items s = (r, s') \<Longrightarrow> tx_writes ci s s'"
proof (cases "loadIdempotencyResult a k h s")
  case (Inr found)
  assume w: "invitation_bulk_create ci g gs a ev k h items s = (r, s')"
  obtain rs s1 where i: "bulk_items ci a ev (map (\<lambda>i. (gs i, items ! i)) [0..<length items]) s = (rs, s1)"
    by fastforce
  from w Inr i consider "s' = s" | "s' = s1" | results where "bulk_record g a k h results s1 = (r, s')"
    by (cases found; cases rs) (auto simp: invitation_bulk_create_def)
  then show ?thesis
    using bulk_items_writes [OF i] bulk_record_writes by cases (auto intro: rtranclp_trans)
qed (simp add: invitation_bulk_create_def)

lemma create_series_writes: "session_create_series g gs a ev inp s = (r, s') \<Longrightarrow> tx_writes ci s s'"
proof (cases "insert_series (new_series g ev inp) s")
  case (Inr s1)
  assume w: "session_create_series g gs a ev inp s = (r, s')"
  then obtain items rs where "materialize a ev items s1 = (rs, s')"
    using Inr by (auto simp: session_create_series_def Let_def split: prod.splits)
  then have "tx_writes ci s1 s'" by (rule materialize_writes)
  moreover have "tx_write ci s s1" using Inr by (rule tx_write.create_series)
  ultimately show ?thesis by (rule converse_rtranclp_into_rtranclp [rotated])
qed (simp add: session_create_series_def Let_def)

lemma write_or_keep:
  assumes "\<And>r s'. f s = (Inr r, s') \<Longrightarrow> tx_write ci s s'" and "\<And>e s'. f s = (Inl e, s') \<Longrightarrow> s' = s"
  shows "tx_writes ci s (snd (f s))"
  by (rule tx_writes_one [of f]) (use assms in auto)

text \<open>The services' own operations are instances of the versioned-write contracts.\<close>

lemma event_write_ops:
  "event_update g a k v patch s = (Inr r, s') \<Longrightarrow> event_write (EUpdate g a patch) k v s = (Inr r, s')"
  "event_delete g a k v s = (Inr r, s') \<Longrightarrow> event_write (EDelete g a) k v s = (Inr r, s')"
  by simp_all

lemma member_write_ops:
  "member_assign_role g a ev k v role s = (Inr m, s') \<Longrightarrow> member_write (MAssign g a role) (ev, k) v s = (Inr (), s')"
  "member_delete g a ev k v s = (Inr u, s') \<Longrightarrow> member_write (MRemove g a) (ev, k) v s = (Inr (), s')"
  by simp_all

lemma room_write_ops:
  "room_update g a ev k v patch s = (Inr r, s') \<Longrightarrow> room_write (RUpdate g a patch) (ev, k) v s = (Inr (), s')"
  "room_delete g a ev k v s = (Inr u, s') \<Longrightarrow> room_write (RDelete g a) (ev, k) v s = (Inr (), s')"
  by simp_all

lemma session_write_ops:
  "session_update g a ev k v patch s = (Inr x, s') \<Longrightarrow> session_write (SUpdate g a patch) (ev, k) v s = (Inr x, s')"
  "session_delete g a ev k v s = (Inr x, s') \<Longrightarrow> session_write (SDelete g a) (ev, k) v s = (Inr x, s')"
  by simp_all

lemma create_op_writes:
  "tx_writes ci s (snd (user_get_or_create_by_subject ci g sub email name s))"
  "tx_writes ci s (snd (event_create g a ei s))"
  "tx_writes ci s (snd (member_create ci g a ev mi s))"
  "tx_writes ci s (snd (room_create g a ev ri s))"
  "tx_writes ci s (snd (session_create g a ev si s))"
  "tx_writes ci s (snd (invitation_create ci g a ev ii s))"
  by (rule write_or_keep;
      blast intro: tx_write.intros dest: user_get_or_create_fail event_create_fail member_create_fail
        room_create_fail session_create_fail invitation_create_fail)+

lemma versioned_op_writes:
  "tx_writes ci s (snd (event_update g a k v ep s))"
  "tx_writes ci s (snd (event_delete g a k v s))"
  "tx_writes ci s (snd (member_assign_role g a ev k v role s))"
  "tx_writes ci s (snd (member_delete g a ev k v s))"
  "tx_writes ci s (snd (room_update g a ev k v rp s))"
  "tx_writes ci s (snd (room_delete g a ev k v s))"
  "tx_writes ci s (snd (session_update g a ev k v sp s))"
  "tx_writes ci s (snd (session_delete g a ev k v s))"
  by (rule write_or_keep;
      blast intro: tx_write.write_event tx_write.write_member tx_write.write_room tx_write.write_session
        event_write_ops member_write_ops room_write_ops session_write_ops
        dest: event_versioned.write_fail [of "EUpdate g a ep" k v s, simplified]
          event_versioned.write_fail [of "EDelete g a" k v s, simplified]
          member_assign_role_fail member_delete_fail room_update_fail room_delete_fail
          session_versioned.write_fail [of "SUpdate g a sp" "(ev, k)" v s, simplified]
          session_versioned.write_fail [of "SDelete g a" "(ev, k)" v s, simplified])+

lemma apply_op_writes: "tx_writes ci s (apply_op ci p s)"
proof (cases p)
  case (OCreateSeries g gs a ev inp)
  then show ?thesis
    using create_series_writes [of g gs a ev inp s] by (simp add: service_defs prod_eq_iff)
next
  case (OBulkInvite g gs a ev k h items)
  then show ?thesis
    using bulk_create_writes [of ci g gs a ev k h items s] by (simp add: service_defs prod_eq_iff)
qed (simp_all add: service_defs create_op_writes versioned_op_writes)

section \<open>Invariants\<close>

lemma tx_write_ok: "tx_write ci s s' \<Longrightarrow> db_ok ci s \<Longrightarrow> db_ok ci s'"
  by (induction rule: tx_write.induct)
    (blast intro: user_get_or_create_ok event_create_ok event_versioned.write_ok member_create_ok member_write_ok
      room_create_ok room_write_ok session_create_ok session_versioned.write_ok insert_series_ok
      invitation_create_ok insert_idempotency_ok)+

lemma tx_writes_keep:
  assumes "tx_writes ci s s'" "db_ok ci s" "P s"
    and "\<And>t t'. db_ok ci t \<Longrightarrow> P t \<Longrightarrow> tx_write ci t t' \<Longrightarrow> P t'"
  shows "db_ok ci s' \<and> P s'"
  using assms(1-3) by (induction rule: rtranclp_induct) (auto intro: tx_write_ok assms(4))

lemma reachable_invariant:
  assumes "reachable ci s" "P empty_db" "\<And>t t'. db_ok ci t \<Longrightarrow> P t \<Longrightarrow> tx_write ci t t' \<Longrightarrow> P t'"
  shows "db_ok ci s \<and> P s"
  using assms(1)
proof (induction rule: reachable.induct)
  case start
  then show ?case using assms(2) by (simp add: db_ok_empty)
next
  case (step s p)
  then show ?case using tx_writes_keep [OF apply_op_writes, of ci s P] assms(3) by blast
qed

lemma reachable_db_ok: "reachable ci s \<Longrightarrow> db_ok ci s"
  using reachable_invariant [of ci s "\<lambda>_. True"] by simp

text \<open>What each write leaves alone.\<close>

lemma user_write_frame:
  assumes "user_get_or_create_by_subject ci g sub email name s = (Inr u, s')"
  obtains us where "s' = s\<lparr>t_users := us\<rparr>"
  using user_get_or_create_result [OF assms] that [of "t_users s"] that by (auto simp: insert_user_Inr)

lemma event_write_frame:
  assumes "event_write w k v s = (Inr r, s')"
  obtains old new action actor i where "lookup_row er_id k (t_events s) = Some old" "er_id new = k"
    "s' = s\<lparr>t_events := put_row er_id new (t_events s),
            t_audit := t_audit s @ [audit i actor ''event'' k action (Some (SEvent old)) (Some (SEvent new))]\<rparr>"
proof -
  obtain g actorID action upd where w: "\<And>s. event_write w k v s = event_versioned_write g actorID k v action upd s"
    "\<And>e. er_id (upd e) = er_id e" "\<And>e. er_version (upd e) = er_version e + 1"
    using event_write_cases [of w k v] by blast
  from assms [unfolded w(1) event_versioned_write_Inr]
  obtain old s1 where "find_live_event k s = Some old" "replace_event (upd old) s = Inr s1"
      "insert_audit (audit (g_audit_id g) actorID ''event'' k action (Some (SEvent old)) (Some (SEvent (upd old)))) s1 = Inr s'"
    by blast
  then have "lookup_row er_id k (t_events s) = Some old"
    and s': "s' = s\<lparr>t_events := put_row er_id (upd old) (t_events s),
      t_audit := t_audit s @ [audit (g_audit_id g) actorID ''event'' k action (Some (SEvent old)) (Some (SEvent (upd old)))]\<rparr>"
    by (simp_all add: find_live_event_Some stmt_Inr)
  moreover from this(1) have "er_id (upd old) = k" using w(2) lookup_row_Some by metis
  ultimately show ?thesis by (intro that)
qed

lemma room_write_frame:
  assumes "room_write w (ev, k) v s = (Inr r, s')"
  obtains (update) old new i actor where "lookup_row rr_id k (t_rooms s) = Some old" "rr_id new = k" "rr_event_id new = rr_event_id old"
    "s' = s\<lparr>t_rooms := put_row rr_id new (t_rooms s),
            t_audit := t_audit s @ [audit i actor ''room'' k ''update'' (Some (SRoom old)) (Some (SRoom new))]\<rparr>"
  | (delete) old i actor where "rr_id old = k" "k \<notin> sr_room_id ` set (t_sessions s)"
    "s' = s\<lparr>t_rooms := drop_row rr_id k (t_rooms s),
            t_audit := t_audit s @ [audit i actor ''room'' k ''delete'' (Some (SRoom old)) None]\<rparr>"
  using assms
proof (cases rule: room_write_Inr)
  case (update g actorID patch m)
  then obtain old s1 where "find_room ev k s = Some old" "replace_room (room_set g patch old) s = Inr s1"
      "insert_audit (audit (g_audit_id g) actorID ''room'' k ''update'' (Some (SRoom old)) (Some (SRoom (room_set g patch old)))) s1 = Inr s'"
    using room_update_Inr by blast
  then have "lookup_row rr_id k (t_rooms s) = Some old" "rr_id (room_set g patch old) = k"
    "rr_event_id (room_set g patch old) = rr_event_id old"
    "s' = s\<lparr>t_rooms := put_row rr_id (room_set g patch old) (t_rooms s),
      t_audit := t_audit s @ [audit (g_audit_id g) actorID ''room'' k ''update'' (Some (SRoom old)) (Some (SRoom (room_set g patch old)))]\<rparr>"
    using find_room_in [of ev k s old] by (simp_all add: find_room_Some stmt_Inr room_set_def)
  then show ?thesis by (rule that(1))
next
  case (delete g actorID)
  then obtain old s1 where "find_room ev k s = Some old" "delete_room k s = Inr s1"
      "insert_audit (audit (g_audit_id g) actorID ''room'' k ''delete'' (Some (SRoom old)) None) s1 = Inr s'"
    using room_delete_Inr by blast
  then have "rr_id old = k" "k \<notin> sr_room_id ` set (t_sessions s)"
    "s' = s\<lparr>t_rooms := drop_row rr_id k (t_rooms s),
      t_audit := t_audit s @ [audit (g_audit_id g) actorID ''room'' k ''delete'' (Some (SRoom old)) None]\<rparr>"
    using find_room_in [of ev k s old] by (simp_all add: stmt_Inr)
  then show ?thesis by (rule that(2))
qed

lemma session_write_frame:
  assumes "session_write w (ev, k) v s = (Inr r, s')"
  obtains old new action actor i cs where "lookup_row sr_id k (t_sessions s) = Some old" "sr_id new = k"
    "sr_room_id new = sr_room_id old" "sr_event_id new = sr_event_id old"
    "s' = s\<lparr>t_sessions := put_row sr_id new (t_sessions s),
            t_audit := t_audit s @ [audit i actor ''session'' k action (Some (SSession old)) (Some (SSession new))],
            t_exceptions := cs\<rparr>"
proof -
  obtain g actorID action upd where w: "\<And>s. session_write w (ev, k) v s = session_versioned_write g actorID ev k v action upd s"
    "session_kept upd"
    using session_write_cases [of w ev k v] by blast
  from assms [unfolded w(1) session_versioned_write_Inr]
  obtain old s1 s2 where f: "find_session ev k s = Some old" and r: "replace_session (upd old) s = Inr s1"
      and a: "insert_audit (audit (g_audit_id g) actorID ''session'' k action (Some (SSession old)) (Some (SSession (upd old)))) s1 = Inr s2"
      and x: "case sr_series_id (upd old) of None \<Rightarrow> s' = s2
         | Some series \<Rightarrow> insert_exception (session_exception g action old series) s2 = Inr s'"
    by blast
  have "\<exists>cs. s' = s2\<lparr>t_exceptions := cs\<rparr>"
    using x by (auto simp: insert_exception_Inr split: option.splits intro: exI [of _ "t_exceptions s2"])
  then obtain cs where "s' = s2\<lparr>t_exceptions := cs\<rparr>" by blast
  then have "s' = s\<lparr>t_sessions := put_row sr_id (upd old) (t_sessions s),
      t_audit := t_audit s @ [audit (g_audit_id g) actorID ''session'' k action (Some (SSession old)) (Some (SSession (upd old)))],
      t_exceptions := cs\<rparr>"
    using r a by (simp add: stmt_Inr)
  moreover have "lookup_row sr_id k (t_sessions s) = Some old" "sr_id (upd old) = k"
    "sr_room_id (upd old) = sr_room_id old" "sr_event_id (upd old) = sr_event_id old"
    using f w(2) find_session_in [OF f] by (simp_all add: find_session_Some session_kept_def)
  ultimately show ?thesis by (intro that)
qed

lemma event_create_frame:
  "event_create g a inp s = (Inr e, s') \<Longrightarrow>
     s' = s\<lparr>t_events := t_events s @ [new_event_row g inp], t_members := t_members s @ [new_admin_row g a],
       t_audit := t_audit s @ [audit (g_audit_id g) a ''event'' (g_id g) ''create'' None (Some (SEvent (new_event_row g inp))),
         audit (g_audit_id2 g) a ''event_member'' (g_id2 g) ''create'' None (Some (SGrant (grant_json (new_admin_row g a))))]\<rparr>"
  by (auto simp: event_create_Inr stmt_Inr)

lemma member_create_frame:
  assumes "member_create ci g a ev inp s = (Inr m, s')"
  obtains u where "s' = s\<lparr>t_members := t_members s @ [new_member_row g ev (usr_id u) (mci_role inp)],
       t_audit := t_audit s @ [audit (g_audit_id g) a ''event_member'' (g_id g) ''create'' None
         (Some (SMember (new_member_row g ev (usr_id u) (mci_role inp))))]\<rparr>"
    "user_by_email ci (mci_email inp) s = Some u" "can_grant_role a ev (mci_role inp) s"
  using assms unfolding member_create_Inr stmt_Inr by auto

lemma room_create_frame:
  "room_create g a ev inp s = (Inr r, s') \<Longrightarrow>
     s' = s\<lparr>t_rooms := t_rooms s @ [new_room_row g ev inp],
       t_audit := t_audit s @ [audit (g_audit_id g) a ''room'' (g_id g) ''create'' None (Some (SRoom (new_room_row g ev inp)))]\<rparr>"
  by (auto simp: room_create_Inr stmt_Inr)

lemma session_create_frame:
  "session_create g a ev inp s = (Inr x, s') \<Longrightarrow>
     s' = s\<lparr>t_sessions := t_sessions s @ [new_session_row g ev inp],
       t_audit := t_audit s @ [audit (g_audit_id g) a ''session'' (g_id g) ''create'' None (Some (SSession (new_session_row g ev inp)))]\<rparr>
     \<and> (\<exists>rm. find_room ev (sci_room_id inp) s = Some rm)"
  by (auto simp: session_create_Inr stmt_Inr)

lemma invitation_create_frame:
  "invitation_create ci g a ev inp s = (Inr i, s') \<Longrightarrow>
     s' = s\<lparr>t_invitations := t_invitations s @ [new_invitation_row ci g ev inp s],
       t_audit := t_audit s @ [audit (g_audit_id g) a ''invitation'' (g_id g) ''create'' None
         (Some (SInvitation (new_invitation_row ci g ev inp s)))]\<rparr>"
  by (auto simp: invitation_create_Inr stmt_Inr)

lemma record_key_frame:
  "insert_idempotency kr s = Inr (b, s') \<Longrightarrow> \<exists>ks. s' = s\<lparr>t_idempotency := ks\<rparr>"
  by (auto simp: insert_idempotency_Inr split: if_splits intro: exI [of _ "t_idempotency s"])

text \<open>
  The twelve writes by their effect on the tables: the invariants below are case analyses over
  this rule. \<open>member_gone\<close> and \<open>member\<close> carry the last-admin guard.
\<close>

definition guarded :: "uuid \<Rightarrow> event_member_row \<Rightarrow> bool \<Rightarrow> db \<Rightarrow> bool" where
  "guarded k old stays s = (mr_role old = ''admin'' \<longrightarrow> stays \<or> other_admin (mr_event_id old) k s)"

lemma member_write_guarded:
  assumes "member_write w (ev, k) v s = (Inr r, s')"
  obtains (member) old new i actor where "lookup_row mr_id k (t_members s) = Some old" "mr_id new = k"
    "mr_event_id new = mr_event_id old" "mr_user_id new = mr_user_id old" "guarded k old (mr_role new = ''admin'') s"
    "s' = s\<lparr>t_members := put_row mr_id new (t_members s),
            t_audit := t_audit s @ [audit i actor ''event_member'' k ''update'' (Some (SMember old)) (Some (SMember new))]\<rparr>"
  | (member_gone) old i actor where "lookup_row mr_id k (t_members s) = Some old" "mr_id old = k" "guarded k old False s"
    "s' = s\<lparr>t_members := drop_row mr_id k (t_members s),
            t_audit := t_audit s @ [audit i actor ''event_member'' k ''delete'' (Some (SMember old)) None]\<rparr>"
  using assms
proof (cases rule: member_write_Inr)
  case (assign g actorID role m)
  then obtain old s1 where "find_member ev k s = Some old" "replace_member (member_set g role old) s = Inr s1"
      "mr_role old \<noteq> ''admin'' \<or> role = ''admin'' \<or> other_admin ev k s"
      "insert_audit (audit (g_audit_id g) actorID ''event_member'' k ''update'' (Some (SMember old)) (Some (SMember (member_set g role old)))) s1 = Inr s'"
    using member_assign_role_Inr by blast
  then have "lookup_row mr_id k (t_members s) = Some old" "mr_id (member_set g role old) = k"
    "mr_event_id (member_set g role old) = mr_event_id old" "mr_user_id (member_set g role old) = mr_user_id old" "guarded k old (mr_role (member_set g role old) = ''admin'') s"
    "s' = s\<lparr>t_members := put_row mr_id (member_set g role old) (t_members s),
      t_audit := t_audit s @ [audit (g_audit_id g) actorID ''event_member'' k ''update'' (Some (SMember old)) (Some (SMember (member_set g role old)))]\<rparr>"
    using find_member_in [of ev k s old] by (auto simp add: find_member_Some stmt_Inr member_set_def guarded_def)
  then show ?thesis by (rule that(1))
next
  case (remove g actorID)
  then obtain old s1 where "find_member ev k s = Some old" "delete_member k s = Inr s1"
      "mr_role old \<noteq> ''admin'' \<or> other_admin ev k s"
      "insert_audit (audit (g_audit_id g) actorID ''event_member'' k ''delete'' (Some (SMember old)) None) s1 = Inr s'"
    using member_delete_Inr by blast
  then have "lookup_row mr_id k (t_members s) = Some old" "mr_id old = k" "guarded k old False s"
    "s' = s\<lparr>t_members := drop_row mr_id k (t_members s),
      t_audit := t_audit s @ [audit (g_audit_id g) actorID ''event_member'' k ''delete'' (Some (SMember old)) None]\<rparr>"
    using find_member_in [of ev k s old] by (auto simp add: delete_member_def stmt_Inr guarded_def find_member_Some)
  then show ?thesis by (rule that(2))
qed

lemma tx_write_effect:
  assumes "tx_write ci s s'"
  obtains (other) us xs cs ks where "s' = s\<lparr>t_users := us, t_series := xs, t_exceptions := cs, t_idempotency := ks\<rparr>"
  | (new_event) g a inp where
    "s' = s\<lparr>t_events := t_events s @ [new_event_row g inp], t_members := t_members s @ [new_admin_row g a],
       t_audit := t_audit s @ [audit (g_audit_id g) a ''event'' (g_id g) ''create'' None (Some (SEvent (new_event_row g inp))),
         audit (g_audit_id2 g) a ''event_member'' (g_id2 g) ''create'' None (Some (SGrant (grant_json (new_admin_row g a))))]\<rparr>"
  | (event) k old new action actor i where "lookup_row er_id k (t_events s) = Some old" "er_id new = k"
    "s' = s\<lparr>t_events := put_row er_id new (t_events s),
            t_audit := t_audit s @ [audit i actor ''event'' k action (Some (SEvent old)) (Some (SEvent new))]\<rparr>"
  | (new_member) g a ev u role where "can_grant_role a ev role s"
    "s' = s\<lparr>t_members := t_members s @ [new_member_row g ev u role],
       t_audit := t_audit s @ [audit (g_audit_id g) a ''event_member'' (g_id g) ''create'' None (Some (SMember (new_member_row g ev u role)))]\<rparr>"
  | (member) k old new i actor where "lookup_row mr_id k (t_members s) = Some old" "mr_id new = k"
    "mr_event_id new = mr_event_id old" "mr_user_id new = mr_user_id old" "guarded k old (mr_role new = ''admin'') s"
    "s' = s\<lparr>t_members := put_row mr_id new (t_members s),
            t_audit := t_audit s @ [audit i actor ''event_member'' k ''update'' (Some (SMember old)) (Some (SMember new))]\<rparr>"
  | (member_gone) k old i actor where "lookup_row mr_id k (t_members s) = Some old" "mr_id old = k" "guarded k old False s"
    "s' = s\<lparr>t_members := drop_row mr_id k (t_members s),
            t_audit := t_audit s @ [audit i actor ''event_member'' k ''delete'' (Some (SMember old)) None]\<rparr>"
  | (new_room) g a ev ri where
    "s' = s\<lparr>t_rooms := t_rooms s @ [new_room_row g ev ri],
       t_audit := t_audit s @ [audit (g_audit_id g) a ''room'' (g_id g) ''create'' None (Some (SRoom (new_room_row g ev ri)))]\<rparr>"
  | (room) k old new i actor where "lookup_row rr_id k (t_rooms s) = Some old" "rr_id new = k" "rr_event_id new = rr_event_id old"
    "s' = s\<lparr>t_rooms := put_row rr_id new (t_rooms s),
            t_audit := t_audit s @ [audit i actor ''room'' k ''update'' (Some (SRoom old)) (Some (SRoom new))]\<rparr>"
  | (room_gone) k old i actor where "rr_id old = k" "k \<notin> sr_room_id ` set (t_sessions s)"
    "s' = s\<lparr>t_rooms := drop_row rr_id k (t_rooms s),
            t_audit := t_audit s @ [audit i actor ''room'' k ''delete'' (Some (SRoom old)) None]\<rparr>"
  | (new_session) g a ev si rm where "find_room ev (sci_room_id si) s = Some rm"
    "s' = s\<lparr>t_sessions := t_sessions s @ [new_session_row g ev si],
       t_audit := t_audit s @ [audit (g_audit_id g) a ''session'' (g_id g) ''create'' None (Some (SSession (new_session_row g ev si)))]\<rparr>"
  | (session) k old new action actor i cs where "lookup_row sr_id k (t_sessions s) = Some old" "sr_id new = k"
    "sr_room_id new = sr_room_id old" "sr_event_id new = sr_event_id old"
    "s' = s\<lparr>t_sessions := put_row sr_id new (t_sessions s),
            t_audit := t_audit s @ [audit i actor ''session'' k action (Some (SSession old)) (Some (SSession new))],
            t_exceptions := cs\<rparr>"
  | (new_invitation) g a ev ii where "can_grant_role a ev (ici_role ii) s"
    "s' = s\<lparr>t_invitations := t_invitations s @ [new_invitation_row ci g ev ii s],
       t_audit := t_audit s @ [audit (g_audit_id g) a ''invitation'' (g_id g) ''create'' None
         (Some (SInvitation (new_invitation_row ci g ev ii s)))]\<rparr>"
  using assms
proof cases
  case (sign_in g subject email name u)
  then show ?thesis
    by (rule user_write_frame) (rule other [of "t_idempotency s" "t_exceptions s" "t_series s"], simp)
next
  case (create_series xr)
  then show ?thesis
    by (intro other [of "t_idempotency s" "t_exceptions s" _ "t_users s"]) (auto simp: insert_series_Inr)
next
  case (record_key kr b)
  then obtain ks where "s' = s\<lparr>t_idempotency := ks\<rparr>" using record_key_frame by blast
  then show ?thesis by (intro other [of ks "t_exceptions s" "t_series s" "t_users s"]) simp
next
  case (create_event g a inp e)
  then show ?thesis by (intro new_event) (rule event_create_frame)
next
  case (write_event w k v e)
  then show ?thesis by (rule event_write_frame) (rule event)
next
  case (create_member g a ev mi m)
  then show ?thesis by (rule member_create_frame) (rule new_member)
next
  case (write_member mw mk v u1)
  then show ?thesis by (cases mk) (hypsubst, erule member_write_guarded, erule (5) member, erule (3) member_gone)
next
  case (create_room g a ev ri r)
  then show ?thesis by (intro new_room) (rule room_create_frame)
next
  case (write_room rw rk v u2)
  then show ?thesis by (cases rk) (hypsubst, erule room_write_frame, erule (3) room, erule (2) room_gone)
next
  case (create_session g a ev si x)
  then show ?thesis using session_create_frame new_session by blast
next
  case (write_session sw sk v x)
  then show ?thesis by (cases sk) (hypsubst, erule session_write_frame, erule (4) session)
next
  case (create_invitation g a ev ii i)
  then show ?thesis using invitation_create_frame invitation_create_Inr new_invitation by blast
qed

end
