(* ===== verification/Http.thy ===== *)
theory Http
  imports Responses System
begin

text \<open>
  What the handlers and the middleware share: the request, the parts of the environment that are
  not in this repository, the binding of a handler's values to a statement's parameters, and the
  parsing of query parameters and bodies that every handler writes out in the same words.

  A handler runs alone on the database: each of its calls is one transaction, so other requests can
  come between two of them only in the ways the text of its theory names.
\<close>

section \<open>Environment\<close>

text \<open>
  \<open>en_ci\<close> folds the case of a \<open>citext\<close>; \<open>en_oidc\<close> is the go-oidc verifier, which returns the
  claims of a token it accepts as JSON text; \<open>en_zoneinfo\<close> is the time zone database and
  \<open>en_host\<close> the zone of the process; \<open>en_uuid\<close> and \<open>en_text\<close> read and print identifiers as Postgres
  does; \<open>en_sha256\<close> is the hexadecimal SHA-256 of a text; \<open>en_ping\<close> tells whether the database
  answers.
\<close>

record env =
  en_ci :: "string \<Rightarrow> string"
  en_oidc :: "string \<Rightarrow> string option"
  en_zoneinfo :: "string \<Rightarrow> location option"
  en_host :: location
  en_uuid :: "string \<Rightarrow> uuid option"
  en_text :: "uuid \<Rightarrow> string"
  en_sha256 :: "string \<Rightarrow> string"
  en_ping :: bool

definition zone_of :: "env \<Rightarrow> string \<Rightarrow> location option" where
  "zone_of env name = LoadLocation (en_zoneinfo env) (en_host env) name"

section \<open>Requests\<close>

text \<open>
  \<open>rq_path\<close> are the values the mux bound to the wildcards of the pattern, \<open>rq_query\<close> the query
  parameters; \<open>rq_user\<close> and \<open>rq_role\<close> are what the middleware put into the context.
\<close>

record request =
  rq_authorization :: string
  rq_idempotency_key :: string
  rq_path :: "(string \<times> string) list"
  rq_query :: "(string \<times> string) list"
  rq_body :: string
  rq_user :: "user option"
  rq_role :: "string option"

definition value_of :: "string \<Rightarrow> (string \<times> string) list \<Rightarrow> string" where
  "value_of k kvs = (case map_of kvs k of Some v \<Rightarrow> v | None \<Rightarrow> [])"

definition PathValue :: "request \<Rightarrow> string \<Rightarrow> string" where
  "PathValue rq k = value_of k (rq_path rq)"

definition QueryValue :: "request \<Rightarrow> string \<Rightarrow> string" where
  "QueryValue rq k = value_of k (rq_query rq)"

type_synonym handler = "request \<Rightarrow> db \<Rightarrow> http_response \<times> db"

section \<open>Answers\<close>

definition writeInternalError :: http_response where
  "writeInternalError = WriteError 500 ''internal'' ''an unexpected error occurred'' NoDetails"

definition writeValidationError :: "issues \<Rightarrow> http_response" where
  "writeValidationError xs = WriteError 422 ''validation_failed'' ''the request failed validation'' (Issues xs)"

definition invalidCursor :: http_response where
  "invalidCursor = WriteError 400 ''invalid_cursor'' ''the cursor query parameter is malformed'' NoDetails"

definition writeJSON :: "nat \<Rightarrow> body \<Rightarrow> http_response" where
  "writeJSON status b = \<lparr>rs_status = status, rs_body = b\<rparr>"

definition noContent :: http_response where
  "noContent = \<lparr>rs_status = 204, rs_body = NoBody\<rparr>"

section \<open>Statement parameters\<close>

text \<open>
  Identifiers are bound as text, which Postgres parses, and versions as 32-bit integers; a value
  that does not fit fails the statement before it runs. (A text with a NUL byte would fail the same
  way; texts are taken to have none.)
\<close>

definition bind_uuid :: "env \<Rightarrow> string \<Rightarrow> repo_error + uuid" where
  "bind_uuid env t =
     (case en_uuid env t of
        None \<Rightarrow> Inl (ErrOther (Pg (DataException ''invalid input syntax for type uuid'')))
      | Some u \<Rightarrow> Inr u)"

definition bind_int :: "int \<Rightarrow> repo_error + int" where
  "bind_int n = (if int4 n then Inr n else Inl (ErrOther (Pg (DataException ''integer out of range''))))"

definition bind_item :: "env \<Rightarrow> string \<Rightarrow> string \<Rightarrow> repo_error + (uuid \<times> uuid)" where
  "bind_item env t k = and_then (bind_uuid env t) (\<lambda>u. and_then (bind_uuid env k) (\<lambda>v. Inr (u, v)))"

definition bind_gated :: "env \<Rightarrow> string \<Rightarrow> string \<Rightarrow> int \<Rightarrow> repo_error + (uuid \<times> uuid \<times> int)" where
  "bind_gated env t k n =
     and_then (bind_item env t k) (\<lambda>(u, v). and_then (bind_int n) (\<lambda>n. Inr (u, v, n)))"

definition bound :: "(repo_error + 'p) \<Rightarrow> ('p \<Rightarrow> db \<Rightarrow> (repo_error + 'a) \<times> db) \<Rightarrow> db \<Rightarrow> (repo_error + 'a) \<times> db" where
  "bound p call s = (case p of Inl e \<Rightarrow> (Inl e, s) | Inr x \<Rightarrow> call x s)"

lemma bound_simps [simp]: "bound (Inl e) call s = (Inl e, s)" "bound (Inr x) call s = call x s"
  by (simp_all add: bound_def)

section \<open>What every handler begins with\<close>

text \<open>\<open>UserFromContext\<close>, the path values and the caller's role: a missing one is a wiring bug, answered with 500.\<close>

definition with_actor :: "(user \<Rightarrow> handler) \<Rightarrow> handler" where
  "with_actor k rq s = (case rq_user rq of None \<Rightarrow> (writeInternalError, s) | Some u \<Rightarrow> k u rq s)"

definition with_event :: "(string \<Rightarrow> handler) \<Rightarrow> handler" where
  "with_event k rq s =
     (let e = PathValue rq ''eventId'' in if e = [] then (writeInternalError, s) else k e rq s)"

definition with_item :: "string \<Rightarrow> (string \<Rightarrow> string \<Rightarrow> handler) \<Rightarrow> handler" where
  "with_item name k rq s =
     (let e = PathValue rq ''eventId''; i = PathValue rq name in
      if e = [] \<or> i = [] then (writeInternalError, s) else k e i rq s)"

definition with_role :: "(string \<Rightarrow> handler) \<Rightarrow> handler" where
  "with_role k rq s = (case rq_role rq of None \<Rightarrow> (writeInternalError, s) | Some r \<Rightarrow> k r rq s)"

text \<open>Decode the body into a struct, validate it, and go on with it.\<close>

definition with_body :: "(string \<times> 'r field) list \<Rightarrow> 'r \<Rightarrow> ('r \<Rightarrow> issues) \<Rightarrow> ('r \<Rightarrow> handler) \<Rightarrow> handler" where
  "with_body fs zero validate k rq s =
     (case Option.bind (json_first (rq_body rq)) (\<lambda>v. decode_struct fs v zero) of
        None \<Rightarrow> (writeValidationError [(''body'', Issue ''must be valid JSON'')], s)
      | Some r \<Rightarrow> if validate r \<noteq> [] then (writeValidationError (validate r), s) else k r rq s)"

section \<open>Query parameters\<close>

definition defaultListLimit :: nat where "defaultListLimit = 25"

definition maxListLimit :: int where "maxListLimit = 100"

definition list_limit :: "request \<Rightarrow> nat option" where
  "list_limit rq =
     (let raw = QueryValue rq ''limit'' in
      if raw = [] then Some defaultListLimit
      else case atoi raw of
             None \<Rightarrow> None
           | Some n \<Rightarrow> if n \<le> 0 \<or> maxListLimit < n then None else Some (nat n))"

definition list_cursor :: "request \<Rightarrow> (time \<times> string) option option" where
  "list_cursor rq =
     (let raw = QueryValue rq ''cursor'' in if raw = [] then Some None else map_option Some (DecodeCursor raw))"

text \<open>The cursor's instant is sent in microseconds and its id as text.\<close>

definition bind_cursor :: "env \<Rightarrow> (time \<times> string) option \<Rightarrow> repo_error + cursor option" where
  "bind_cursor env c =
     (case c of
        None \<Rightarrow> Inr None
      | Some (t, i) \<Rightarrow> and_then (bind_uuid env i) (\<lambda>u. Inr (Some \<lparr>cur_created_at = pg_time t, cur_id = u\<rparr>)))"

definition with_page :: "(nat \<Rightarrow> (time \<times> string) option \<Rightarrow> handler) \<Rightarrow> handler" where
  "with_page k rq s =
     (case list_limit rq of
        None \<Rightarrow> (writeValidationError [(''limit'', Issue ''must be a positive integer no greater than 100'')], s)
      | Some limit \<Rightarrow>
          (case list_cursor rq of
             None \<Rightarrow> (invalidCursor, s)
           | Some after \<Rightarrow> k limit after rq s))"

definition with_version :: "(int \<Rightarrow> handler) \<Rightarrow> handler" where
  "with_version k rq s =
     (let raw = QueryValue rq ''version'' in
      case (if raw = [] then None else atoi raw) of
        Some n \<Rightarrow>
          if n \<le> 0 then (writeValidationError [(''version'', Issue ''is required and must be a positive integer'')], s)
          else k n rq s
      | None \<Rightarrow> (writeValidationError [(''version'', Issue ''is required and must be a positive integer'')], s))"

lemmas handler_steps = with_actor_def with_event_def with_item_def with_role_def with_body_def with_page_def
  with_version_def Let_def

lemma list_limit_bounds: "list_limit rq = Some n \<Longrightarrow> 1 \<le> n \<and> n \<le> 100"
  by (auto simp: list_limit_def maxListLimit_def defaultListLimit_def Let_def split: if_splits option.splits)

section \<open>handler/health.go\<close>

definition HealthServeHTTP :: "env \<Rightarrow> handler" where
  "HealthServeHTTP env rq s =
     (if en_ping env then (writeJSON 200 HealthBody, s)
      else (WriteError 503 ''service_unavailable'' ''database unreachable'' NoDetails, s))"

end
