(* ===== verification/Auth.thy ===== *)
theory Auth
  imports Http
begin

text \<open>
  internal/adapter/auth/verifier.go and internal/http/middleware/auth.go: the bearer token of a
  request, its verification and the user it stands for. Signature, expiry, audience and issuer are
  checked by go-oidc (\<open>en_oidc\<close>), which hands back the claims as JSON.
\<close>

datatype auth_error = ErrTokenInvalid | ErrMissingClaims

record tokenClaims =
  tc_sub :: string
  tc_email :: string
  tc_name :: string

definition token_claims_fields :: "(string \<times> tokenClaims field) list" where
  "token_claims_fields =
     [(''sub'', in_field tc_sub tc_sub_update to_string),
      (''email'', in_field tc_email tc_email_update to_string),
      (''name'', in_field tc_name tc_name_update to_string)]"

definition Verify :: "env \<Rightarrow> string \<Rightarrow> auth_error + claims" where
  "Verify env rawToken =
     (case en_oidc env rawToken of
        None \<Rightarrow> Inl ErrTokenInvalid
      | Some payload \<Rightarrow>
          (case Option.bind (json_whole payload)
                  (\<lambda>v. decode_struct token_claims_fields v \<lparr>tc_sub = [], tc_email = [], tc_name = []\<rparr>) of
             None \<Rightarrow> Inl ErrTokenInvalid
           | Some tc \<Rightarrow>
               if tc_sub tc = [] \<or> tc_email tc = [] \<or> tc_name tc = [] then Inl ErrMissingClaims
               else Inr \<lparr>cl_subject = tc_sub tc, cl_email = tc_email tc, cl_name = tc_name tc\<rparr>))"

definition bearerPrefix :: string where "bearerPrefix = ''Bearer ''"

definition bearerToken :: "request \<Rightarrow> string option" where
  "bearerToken rq =
     (let h = rq_authorization rq in
      if take (length bearerPrefix) h \<noteq> bearerPrefix then None
      else let token = drop (length bearerPrefix) h in if token = [] then None else Some token)"

definition writeUnauthorized :: http_response where
  "writeUnauthorized = WriteError 401 ''unauthorized'' ''missing or invalid access token'' NoDetails"

definition Auth :: "env \<Rightarrow> txgen \<Rightarrow> handler \<Rightarrow> handler" where
  "Auth env g next rq s =
     (case bearerToken rq of
        None \<Rightarrow> (writeUnauthorized, s)
      | Some token \<Rightarrow>
          (case Verify env token of
             Inl e \<Rightarrow> (writeUnauthorized, s)
           | Inr c \<Rightarrow>
               (case service_get_or_create_by_subject (en_ci env) g (cl_subject c) (cl_email c) (cl_name c) s of
                  (Inl e, s1) \<Rightarrow> (writeUnauthorized, s1)
                | (Inr u, s1) \<Rightarrow> next (rq\<lparr>rq_user := Some u\<rparr>) s1)))"

section \<open>Who gets past\<close>

lemma Verify_claims:
  "Verify env token = Inr c \<Longrightarrow>
     en_oidc env token \<noteq> None \<and> cl_subject c \<noteq> [] \<and> cl_email c \<noteq> [] \<and> cl_name c \<noteq> []"
  by (auto simp: Verify_def split: option.splits if_splits)

lemma sign_in_unchanged:
  "user_get_or_create_by_subject ci g sub em nm s = (Inl e, s') \<Longrightarrow> s' = s"
  by (auto simp: user_get_or_create_by_subject_def Let_def split: if_splits option.splits sum.splits)

lemma Auth_cases:
  obtains (refused) "Auth env g next rq s = (writeUnauthorized, s)"
    | (passed) token c u s1 where
        "bearerToken rq = Some token" "Verify env token = Inr c"
        "service_get_or_create_by_subject (en_ci env) g (cl_subject c) (cl_email c) (cl_name c) s = (Inr u, s1)"
        "Auth env g next rq s = next (rq\<lparr>rq_user := Some u\<rparr>) s1"
proof (cases "bearerToken rq")
  case None
  then show thesis by (intro refused) (simp add: Auth_def)
next
  case (Some token)
  show thesis
  proof (cases "Verify env token")
    case (Inl e)
    then show thesis using Some by (intro refused) (simp add: Auth_def)
  next
    case (Inr c)
    obtain r s1 where r: "service_get_or_create_by_subject (en_ci env) g (cl_subject c) (cl_email c) (cl_name c) s = (r, s1)"
      by fastforce
    show thesis
    proof (cases r)
      case (Inl e)
      then have "s1 = s" using r sign_in_unchanged by (auto simp: service_get_or_create_by_subject_def)
      then show thesis using Some Inr r Inl by (intro refused) (simp add: Auth_def)
    next
      case (Inr u)
      then show thesis using Some \<open>Verify env token = Inr c\<close> r by (intro passed) (simp_all add: Auth_def)
    qed
  qed
qed

end
