(* ===== verification/Authz.thy ===== *)
theory Authz
  imports Auth
begin

text \<open>
  internal/domain/authz, internal/adapter/authz/policy.go and internal/http/middleware/authz.go: the
  permission table loaded at boot, the membership looked up on every request, and the middleware
  that every route of an event stands behind.
\<close>

section \<open>Actions, resources, permissions\<close>

datatype action = ActionCreate | ActionRead | ActionUpdate | ActionDelete | ActionAssignRole

datatype resource = ResourceEvent | ResourceMember | ResourceRoom | ResourceSession | ResourceInvitation

fun action_text :: "action \<Rightarrow> string" where
  "action_text ActionCreate = ''create''"
| "action_text ActionRead = ''read''"
| "action_text ActionUpdate = ''update''"
| "action_text ActionDelete = ''delete''"
| "action_text ActionAssignRole = ''assign-role''"

fun resource_text :: "resource \<Rightarrow> string" where
  "resource_text ResourceEvent = ''event''"
| "resource_text ResourceMember = ''member''"
| "resource_text ResourceRoom = ''room''"
| "resource_text ResourceSession = ''session''"
| "resource_text ResourceInvitation = ''invitation''"

record permKey =
  pk_role :: string
  pk_resource :: string
  pk_action :: string

definition perm :: "string \<Rightarrow> string \<Rightarrow> string \<Rightarrow> permKey" where
  "perm role resource action = \<lparr>pk_role = role, pk_resource = resource, pk_action = action\<rparr>"

text \<open>The rows that the seed migration inserts into \<open>role_permissions\<close>.\<close>

definition role_permissions :: "permKey list" where
  "role_permissions =
     [perm ''admin'' ''event'' ''read'', perm ''admin'' ''event'' ''update'', perm ''admin'' ''event'' ''delete'',
      perm ''admin'' ''member'' ''read'', perm ''admin'' ''member'' ''create'', perm ''admin'' ''member'' ''delete'',
      perm ''admin'' ''member'' ''assign-role'',
      perm ''admin'' ''room'' ''create'', perm ''admin'' ''room'' ''read'', perm ''admin'' ''room'' ''update'',
      perm ''admin'' ''room'' ''delete'',
      perm ''admin'' ''session'' ''read'', perm ''admin'' ''session'' ''create'', perm ''admin'' ''session'' ''update'',
      perm ''admin'' ''session'' ''delete'',
      perm ''admin'' ''invitation'' ''create'', perm ''admin'' ''invitation'' ''read'',
      perm ''contributor'' ''event'' ''read'', perm ''contributor'' ''member'' ''read'',
      perm ''contributor'' ''room'' ''create'', perm ''contributor'' ''room'' ''read'',
      perm ''contributor'' ''room'' ''update'', perm ''contributor'' ''room'' ''delete'',
      perm ''contributor'' ''session'' ''read'', perm ''contributor'' ''session'' ''create'',
      perm ''contributor'' ''session'' ''update'', perm ''contributor'' ''session'' ''delete'',
      perm ''contributor'' ''invitation'' ''create'', perm ''contributor'' ''invitation'' ''read'',
      perm ''attendee'' ''event'' ''read'', perm ''attendee'' ''session'' ''read'']"

section \<open>The policy\<close>

record policy =
  po_permissions :: "permKey list"

definition loadPermissions :: "permKey list \<Rightarrow> permKey list" where
  "loadPermissions rows = remdups rows"

definition validateRoleCoverage :: "permKey list \<Rightarrow> string list \<Rightarrow> string option" where
  "validateRoleCoverage permissions roles =
     find (\<lambda>role. role \<notin> pk_role ` set permissions) roles"

text \<open>\<open>New\<close>: \<open>Inl\<close> names the first known role without a row, and the process does not start.\<close>

definition NewPolicy :: "permKey list \<Rightarrow> string + policy" where
  "NewPolicy rows =
     (let permissions = loadPermissions rows in
      case validateRoleCoverage permissions knownRoles of
        Some role \<Rightarrow> Inl role
      | None \<Rightarrow> Inr \<lparr>po_permissions = permissions\<rparr>)"

definition Can :: "env \<Rightarrow> policy \<Rightarrow> uuid \<Rightarrow> string \<Rightarrow> action \<Rightarrow> resource \<Rightarrow> db \<Rightarrow> repo_error + (bool \<times> string)" where
  "Can env p userID eventID action resource s =
     and_then (bind_uuid env eventID) (\<lambda>ev.
       case member_role userID ev s of
         None \<Rightarrow> Inr (False, [])
       | Some role \<Rightarrow> Inr (perm role (resource_text resource) (action_text action) \<in> set (po_permissions p), role))"

section \<open>The middleware\<close>

definition writeForbidden :: http_response where
  "writeForbidden = WriteError 403 ''forbidden'' ''you do not have permission to perform this action'' NoDetails"

definition Authz :: "env \<Rightarrow> policy \<Rightarrow> resource \<Rightarrow> action \<Rightarrow> handler \<Rightarrow> handler" where
  "Authz env p resource action next rq s =
     (case rq_user rq of
        None \<Rightarrow> (writeInternalError, s)
      | Some actor \<Rightarrow>
          let eventID = PathValue rq ''eventId'' in
          if eventID = [] then (writeInternalError, s)
          else case Can env p (usr_id actor) eventID action resource s of
                 Inl e \<Rightarrow> (writeInternalError, s)
               | Inr (allowed, role) \<Rightarrow>
                   if \<not> allowed then (writeForbidden, s)
                   else next (rq\<lparr>rq_role := Some role\<rparr>) s)"

lemma Authz_cases:
  obtains (wiring) "Authz env p res act next rq s = (writeInternalError, s)"
    | (denied) "Authz env p res act next rq s = (writeForbidden, s)"
    | (allowed) u ev role where
        "rq_user rq = Some u" "en_uuid env (PathValue rq ''eventId'') = Some ev"
        "member_role (usr_id u) ev s = Some role"
        "perm role (resource_text res) (action_text act) \<in> set (po_permissions p)"
        "Authz env p res act next rq s = next (rq\<lparr>rq_role := Some role\<rparr>) s"
proof (cases "rq_user rq")
  case None
  then show thesis by (intro wiring) (simp add: Authz_def)
next
  case (Some u)
  show thesis
  proof (cases "PathValue rq ''eventId'' = [] \<or> en_uuid env (PathValue rq ''eventId'') = None")
    case True
    then show thesis using Some by (intro wiring) (auto simp: Authz_def Can_def bind_uuid_def Let_def)
  next
    case False
    then obtain ev where ev: "PathValue rq ''eventId'' \<noteq> []" "en_uuid env (PathValue rq ''eventId'') = Some ev" by auto
    show thesis
    proof (cases "member_role (usr_id u) ev s")
      case None
      then show thesis using Some ev by (intro denied) (simp add: Authz_def Can_def bind_uuid_def Let_def)
    next
      case role: (Some role)
      then show thesis using Some ev
        by (cases "perm role (resource_text res) (action_text act) \<in> set (po_permissions p)")
          (auto intro: denied allowed simp: Authz_def Can_def bind_uuid_def Let_def)
    qed
  qed
qed

lemma NewPolicy_permissions:
  "NewPolicy rows = Inr p \<Longrightarrow> set (po_permissions p) = set rows"
  by (auto simp: NewPolicy_def loadPermissions_def Let_def split: option.splits)

lemma NewPolicy_covers:
  assumes "NewPolicy rows = Inr p" "role \<in> set knownRoles"
  shows "\<exists>k \<in> set (po_permissions p). pk_role k = role"
  using assms
  by (force simp: NewPolicy_def validateRoleCoverage_def find_None_iff Let_def split: option.splits)

end
