(* ===== verification/Contract.thy ===== *)
theory Contract
  imports Authz
begin

text \<open>
  What every handler promises, stated once. The locale \<open>answer_contract\<close> is a relation between a
  request, the state it meets and the answer with the state left behind, that holds of every
  refusal which changes nothing; its lemmas carry the relation through the steps that handlers
  begin with, so that a handler's own proof is about its service call only. Three relations
  interpret it: the handler reads, the handler does nothing but one operation of \<open>System\<close>, and the
  handler shows an e-mail address only to an admin.
\<close>

definition holds :: "(request \<Rightarrow> db \<Rightarrow> http_response \<times> db \<Rightarrow> bool) \<Rightarrow> handler \<Rightarrow> bool" where
  "holds P h = (\<forall>rq s. P rq s (h rq s))"

definition plain_details :: "details \<Rightarrow> bool" where
  "plain_details d = (case d of Current b \<Rightarrow> False | _ \<Rightarrow> True)"

lemma plain_details_simps [simp]:
  "plain_details NoDetails" "plain_details (Issues xs)" "\<not> plain_details (Current b)"
  by (simp_all add: plain_details_def)

locale answer_contract =
  fixes P :: "request \<Rightarrow> db \<Rightarrow> http_response \<times> db \<Rightarrow> bool"
  assumes refusal: "plain_details d \<Longrightarrow> P rq s (WriteError status code message d, s)"
begin

lemma refused [simp]:
  "P rq s (writeInternalError, s)" "P rq s (writeValidationError xs, s)" "P rq s (invalidCursor, s)"
  "P rq s (writeForbidden, s)" "P rq s (writeUnauthorized, s)"
  unfolding writeInternalError_def writeValidationError_def invalidCursor_def writeForbidden_def writeUnauthorized_def
  by (rule refusal, simp)+

lemma holds_with_actor: "(\<And>u. holds P (k u)) \<Longrightarrow> holds P (with_actor k)"
  by (auto simp: holds_def with_actor_def split: option.split)

lemma holds_with_event: "(\<And>e. holds P (k e)) \<Longrightarrow> holds P (with_event k)"
  by (auto simp: holds_def with_event_def Let_def)

lemma holds_with_item: "(\<And>e i. holds P (k e i)) \<Longrightarrow> holds P (with_item name k)"
  by (auto simp: holds_def with_item_def Let_def)

lemma holds_with_role: "(\<And>r. holds P (k r)) \<Longrightarrow> holds P (with_role k)"
  by (auto simp: holds_def with_role_def split: option.split)

lemma holds_with_body: "(\<And>r. holds P (k r)) \<Longrightarrow> holds P (with_body fs zero validate k)"
  by (auto simp: holds_def with_body_def split: option.split)

lemma holds_with_page: "(\<And>l c. holds P (k l c)) \<Longrightarrow> holds P (with_page k)"
  by (auto simp: holds_def with_page_def split: option.split)

lemma holds_with_version: "(\<And>n. holds P (k n)) \<Longrightarrow> holds P (with_version k)"
  by (auto simp: holds_def with_version_def Let_def split: option.split)

lemmas holds_steps = holds_with_actor holds_with_event holds_with_item holds_with_role holds_with_body holds_with_page holds_with_version

end

section \<open>Reading and writing\<close>

definition reads :: "request \<Rightarrow> db \<Rightarrow> http_response \<times> db \<Rightarrow> bool" where
  "reads rq s a = (snd a = s)"

definition writes :: "(string \<Rightarrow> string) \<Rightarrow> request \<Rightarrow> db \<Rightarrow> http_response \<times> db \<Rightarrow> bool" where
  "writes ci rq s a = (snd a = s \<or> (\<exists>p. snd a = apply_op ci p s))"

interpretation reading: answer_contract reads
  by unfold_locales (simp add: reads_def)

interpretation writing: answer_contract "writes ci" for ci
  by unfold_locales (simp add: writes_def)

lemma reads_writes: "holds reads h \<Longrightarrow> holds (writes ci) h"
  by (simp add: holds_def reads_def writes_def)

lemma writes_reachable: "holds (writes ci) h \<Longrightarrow> reachable ci s \<Longrightarrow> reachable ci (snd (h rq s))"
  unfolding holds_def writes_def by (metis reachable.step)

text \<open>Every call of a service is an operation of \<open>System\<close>, whatever it answers.\<close>

lemma service_ops:
  "service_get_or_create_by_subject ci g sub email nm s = (r0, s') \<Longrightarrow> \<exists>p. s' = apply_op ci p s"
  "service_create_event g a ei s = (r1, s') \<Longrightarrow> \<exists>p. s' = apply_op ci p s"
  "service_update_event g a ev v ep s = (r2, s') \<Longrightarrow> \<exists>p. s' = apply_op ci p s"
  "service_delete_event g a ev v s = (r3, s') \<Longrightarrow> \<exists>p. s' = apply_op ci p s"
  "service_create_member ci g a ev mi s = (r4, s') \<Longrightarrow> \<exists>p. s' = apply_op ci p s"
  "service_assign_role g a ev k v role s = (r5, s') \<Longrightarrow> \<exists>p. s' = apply_op ci p s"
  "service_remove_member g a ev k v s = (r6, s') \<Longrightarrow> \<exists>p. s' = apply_op ci p s"
  "service_create_room g a ev ri s = (r7, s') \<Longrightarrow> \<exists>p. s' = apply_op ci p s"
  "service_update_room g a ev k v rp s = (r8, s') \<Longrightarrow> \<exists>p. s' = apply_op ci p s"
  "service_delete_room g a ev k v s = (r9, s') \<Longrightarrow> \<exists>p. s' = apply_op ci p s"
  "service_create_session g a ev si s = (r10, s') \<Longrightarrow> \<exists>p. s' = apply_op ci p s"
  "service_update_session g a ev k v sp s = (r11, s') \<Longrightarrow> \<exists>p. s' = apply_op ci p s"
  "service_delete_session g a ev k v s = (r12, s') \<Longrightarrow> \<exists>p. s' = apply_op ci p s"
  "service_create_series g gs a ev xi s = (r13, s') \<Longrightarrow> \<exists>p. s' = apply_op ci p s"
  "service_create_invitation ci g a ev ii s = (r14, s') \<Longrightarrow> \<exists>p. s' = apply_op ci p s"
  "service_bulk_invite ci g gs a ev key h items s = (r15, s') \<Longrightarrow> \<exists>p. s' = apply_op ci p s"
  by (metis apply_op.simps snd_conv)+

section \<open>E-mail addresses\<close>

fun shows_email :: "body \<Rightarrow> bool" where
  "shows_email (MemberBody m) = (mbr_user_email m \<noteq> None)"
| "shows_email (MemberListBody l) = (\<exists>m \<in> set (lr_data l). mbr_user_email m \<noteq> None)"
| "shows_email (Envelope code message (Current (Some b))) = shows_email b"
| "shows_email _ = False"

definition discreet :: "request \<Rightarrow> db \<Rightarrow> http_response \<times> db \<Rightarrow> bool" where
  "discreet rq s a = (shows_email (rs_body (fst a)) \<longrightarrow> rq_role rq = Some ''admin'')"

text \<open>What may be shown once the caller's role is known to be \<open>r\<close>.\<close>

definition discreet_as :: "string \<Rightarrow> request \<Rightarrow> db \<Rightarrow> http_response \<times> db \<Rightarrow> bool" where
  "discreet_as r rq s a = (shows_email (rs_body (fst a)) \<longrightarrow> r = ''admin'')"

lemma refusals_show_nothing: "plain_details d \<Longrightarrow> \<not> shows_email (rs_body (WriteError status code message d))"
  by (cases d) (auto simp: WriteError_def)

interpretation discretion: answer_contract discreet
  by unfold_locales (simp add: discreet_def refusals_show_nothing)

interpretation role_discretion: answer_contract "discreet_as r" for r
  by unfold_locales (simp add: discreet_as_def refusals_show_nothing)

lemma discreet_asI: "(shows_email (rs_body (fst a)) \<Longrightarrow> r = ''admin'') \<Longrightarrow> discreet_as r rq s a"
  by (simp add: discreet_as_def)

lemma discreet_with_role: "(\<And>r. holds (discreet_as r) (k r)) \<Longrightarrow> holds discreet (with_role k)"
  by (auto simp: holds_def with_role_def discreet_as_def discreet_def writeInternalError_def WriteError_def split: option.split)

lemma plain_bodies [simp]:
  "rs_body writeInternalError = Envelope ''internal'' ''an unexpected error occurred'' NoDetails"
  "rs_body (writeJSON st b) = b" "rs_body noContent = NoBody"
  "rs_body (WriteError st code message d) = Envelope code message d"
  by (simp_all add: writeInternalError_def writeJSON_def noContent_def WriteError_def)

lemma discreet_plain: "\<not> shows_email (rs_body (fst a)) \<Longrightarrow> discreet rq s a"
  by (simp add: discreet_def)

lemma email_needs_admin:
  "mbr_user_email (NewMemberResponse m role) \<noteq> None \<longleftrightarrow> role = ''admin''"
  by (simp add: NewMemberResponse_def canSeeMemberEmail_def)

lemma listed_email_needs_admin:
  "m \<in> set (lr_data (NewMemberListResponse host text page role)) \<Longrightarrow> mbr_user_email m = Some y \<Longrightarrow> role = ''admin''"
  using email_needs_admin by (fastforce simp: NewMemberListResponse_def)

end
