(* ===== verification/Event_Handler.thy ===== *)
theory Event_Handler
  imports Contract
begin

text \<open>
  internal/http/handler/event.go. \<open>gs 1\<close> is what the database draws for the write of the request
  (\<open>gs 0\<close> is for the sign-in before it). The current state embedded in a version conflict is read
  after the write has failed, in the state that write left.
\<close>

definition event_fetch :: "env \<Rightarrow> string \<Rightarrow> db \<Rightarrow> repo_error + event" where
  "event_fetch env eventID s = and_then (bind_uuid env eventID) (\<lambda>ev. service_get_event ev s)"

definition event_current :: "env \<Rightarrow> string \<Rightarrow> db \<Rightarrow> body option" where
  "event_current env eventID s =
     (case event_fetch env eventID s of Inr e \<Rightarrow> Some (EventBody (NewEventResponse e)) | Inl e \<Rightarrow> None)"

definition event_domain_error :: "env \<Rightarrow> string \<Rightarrow> repo_error \<Rightarrow> db \<Rightarrow> http_response" where
  "event_domain_error env eventID e s =
     (case e of
        ErrNotFound \<Rightarrow> WriteError 404 ''not_found'' ''no such event'' NoDetails
      | ErrVersionMismatch \<Rightarrow>
          WriteError 409 ''version_conflict'' ''the event was modified by someone else; reload and retry''
            (Current (event_current env eventID s))
      | _ \<Rightarrow> writeInternalError)"

definition CreateEvent :: "env \<Rightarrow> (nat \<Rightarrow> txgen) \<Rightarrow> handler" where
  "CreateEvent env gs =
     with_actor (\<lambda>actor.
     with_body create_event_fields create_event_zero (create_event_validate (zone_of env)) (\<lambda>req rq s.
       case service_create_event (gs 1) (usr_id actor) (create_event_to_input req) s of
         (Inl e, s1) \<Rightarrow> (writeInternalError, s1)
       | (Inr created, s1) \<Rightarrow> (writeJSON 201 (EventBody (NewEventResponse created)), s1)))"

definition GetEvent :: "env \<Rightarrow> handler" where
  "GetEvent env =
     with_event (\<lambda>eventID rq s.
       case event_fetch env eventID s of
         Inl e \<Rightarrow> (event_domain_error env eventID e s, s)
       | Inr got \<Rightarrow> (writeJSON 200 (EventBody (NewEventResponse got)), s))"

definition ListEvents :: "env \<Rightarrow> handler" where
  "ListEvents env =
     with_actor (\<lambda>actor. with_page (\<lambda>limit after rq s.
       case and_then (bind_cursor env after) (\<lambda>c. service_list_events (usr_id actor) limit c s) of
         Inl e \<Rightarrow> (writeInternalError, s)
       | Inr page \<Rightarrow> (writeJSON 200 (EventListBody (NewEventListResponse (en_host env) (en_text env) page)), s)))"

definition PatchEvent :: "env \<Rightarrow> (nat \<Rightarrow> txgen) \<Rightarrow> handler" where
  "PatchEvent env gs =
     with_actor (\<lambda>actor. with_event (\<lambda>eventID.
     with_body patch_event_fields patch_event_zero (patch_event_validate (zone_of env)) (\<lambda>req rq s.
       case bound (and_then (bind_uuid env eventID) (\<lambda>ev. and_then (bind_int (per_version req)) (\<lambda>v. Inr (ev, v))))
              (\<lambda>(ev, v). service_update_event (gs 1) (usr_id actor) ev v (patch_event_to_patch req)) s of
         (Inl e, s1) \<Rightarrow> (event_domain_error env eventID e s1, s1)
       | (Inr updated, s1) \<Rightarrow> (writeJSON 200 (EventBody (NewEventResponse updated)), s1))))"

definition DeleteEvent :: "env \<Rightarrow> (nat \<Rightarrow> txgen) \<Rightarrow> handler" where
  "DeleteEvent env gs =
     with_actor (\<lambda>actor. with_event (\<lambda>eventID. with_version (\<lambda>version rq s.
       case bound (and_then (bind_uuid env eventID) (\<lambda>ev. and_then (bind_int version) (\<lambda>v. Inr (ev, v))))
              (\<lambda>(ev, v). service_delete_event (gs 1) (usr_id actor) ev v) s of
         (Inl e, s1) \<Rightarrow> (event_domain_error env eventID e s1, s1)
       | (Inr deleted, s1) \<Rightarrow> (noContent, s1))))"

section \<open>Contracts\<close>

lemma event_current_discreet: "event_current env eventID s = Some b \<Longrightarrow> \<not> shows_email b"
  by (auto simp: event_current_def split: sum.splits)

lemma event_error_discreet: "\<not> shows_email (rs_body (event_domain_error env eventID e s))"
  by (cases "event_current env eventID s"; cases e)
    (auto simp: event_domain_error_def WriteError_def writeInternalError_def dest: event_current_discreet)

lemma event_writes:
  "holds (writes (en_ci env)) (CreateEvent env gs)"
  "holds (writes (en_ci env)) (PatchEvent env gs)"
  "holds (writes (en_ci env)) (DeleteEvent env gs)"
  unfolding CreateEvent_def PatchEvent_def DeleteEvent_def
  by (intro writing.holds_steps; auto simp: holds_def writes_def bound_def split: prod.split sum.split dest: service_ops)+

lemma event_reads:
  "holds reads (GetEvent env)"
  "holds reads (ListEvents env)"
  unfolding GetEvent_def ListEvents_def
  by (intro reading.holds_steps; auto simp: holds_def reads_def split: sum.split)+

lemma event_discreet:
  "holds discreet (CreateEvent env gs)"
  "holds discreet (GetEvent env)"
  "holds discreet (ListEvents env)"
  "holds discreet (PatchEvent env gs)"
  "holds discreet (DeleteEvent env gs)"
  unfolding CreateEvent_def GetEvent_def ListEvents_def PatchEvent_def DeleteEvent_def
  by (intro discretion.holds_steps; auto simp: holds_def event_error_discreet intro!: discreet_plain split: prod.split sum.split)+

end
