(* ===== verification/Member_Handler.thy ===== *)
theory Member_Handler
  imports Contract
begin

text \<open>
  internal/http/handler/member.go. Every body that shows a member is shaped by the caller's role,
  which the authorization middleware has put into the request.
\<close>

definition member_fetch :: "env \<Rightarrow> string \<Rightarrow> string \<Rightarrow> db \<Rightarrow> repo_error + member" where
  "member_fetch env eventID memberID s =
     and_then (bind_item env eventID memberID) (\<lambda>(ev, k). service_get_member ev k s)"

definition member_current :: "env \<Rightarrow> string \<Rightarrow> string \<Rightarrow> string \<Rightarrow> db \<Rightarrow> body option" where
  "member_current env callerRole eventID memberID s =
     (case member_fetch env eventID memberID s of
        Inr m \<Rightarrow> Some (MemberBody (NewMemberResponse m callerRole)) | Inl e \<Rightarrow> None)"

definition member_create_error :: "repo_error \<Rightarrow> http_response" where
  "member_create_error e =
     (case e of
        ErrNotFound \<Rightarrow> WriteError 404 ''user_not_found'' ''no user has signed in with that email'' NoDetails
      | ErrForbidden \<Rightarrow> WriteError 403 ''cannot_assign_role'' ''you cannot grant that role'' NoDetails
      | ErrConflict \<Rightarrow> WriteError 409 ''already_member'' ''that user is already a member of this event'' NoDetails
      | _ \<Rightarrow> writeInternalError)"

definition writeAssignOrRemoveError :: "env \<Rightarrow> string \<Rightarrow> string \<Rightarrow> string \<Rightarrow> repo_error \<Rightarrow> db \<Rightarrow> http_response" where
  "writeAssignOrRemoveError env callerRole eventID memberID e s =
     (case e of
        ErrNotFound \<Rightarrow> WriteError 404 ''not_found'' ''no such member'' NoDetails
      | ErrVersionMismatch \<Rightarrow>
          WriteError 409 ''version_conflict'' ''the member was modified by someone else; reload and retry''
            (Current (member_current env callerRole eventID memberID s))
      | ErrConflict \<Rightarrow> WriteError 409 ''last_admin'' ''this event must always have at least one admin'' NoDetails
      | _ \<Rightarrow> writeInternalError)"

definition CreateMember :: "env \<Rightarrow> (nat \<Rightarrow> txgen) \<Rightarrow> handler" where
  "CreateMember env gs =
     with_actor (\<lambda>actor. with_event (\<lambda>eventID.
     with_body add_member_fields add_member_zero add_member_validate (\<lambda>req. with_role (\<lambda>callerRole rq s.
       case bound (bind_uuid env eventID)
              (\<lambda>ev. service_create_member (en_ci env) (gs 1) (usr_id actor) ev (add_member_to_input req)) s of
         (Inl e, s1) \<Rightarrow> (member_create_error e, s1)
       | (Inr created, s1) \<Rightarrow> (writeJSON 201 (MemberBody (NewMemberResponse created callerRole)), s1)))))"

definition ListMembers :: "env \<Rightarrow> handler" where
  "ListMembers env =
     with_event (\<lambda>eventID. with_role (\<lambda>callerRole. with_page (\<lambda>limit after rq s.
       case and_then (bind_uuid env eventID) (\<lambda>ev. and_then (bind_cursor env after) (\<lambda>c. service_list_members ev limit c s)) of
         Inl e \<Rightarrow> (writeInternalError, s)
       | Inr page \<Rightarrow>
           (writeJSON 200 (MemberListBody (NewMemberListResponse (en_host env) (en_text env) page callerRole)), s))))"

definition AssignRole :: "env \<Rightarrow> (nat \<Rightarrow> txgen) \<Rightarrow> handler" where
  "AssignRole env gs =
     with_actor (\<lambda>actor. with_item ''memberId'' (\<lambda>eventID memberID. with_role (\<lambda>callerRole.
     with_body assign_role_fields assign_role_zero assign_role_validate (\<lambda>req rq s.
       case bound (bind_gated env eventID memberID (arr_version req))
              (\<lambda>(ev, k, v). service_assign_role (gs 1) (usr_id actor) ev k v (arr_role req)) s of
         (Inl e, s1) \<Rightarrow> (writeAssignOrRemoveError env callerRole eventID memberID e s1, s1)
       | (Inr updated, s1) \<Rightarrow> (writeJSON 200 (MemberBody (NewMemberResponse updated callerRole)), s1)))))"

definition RemoveMember :: "env \<Rightarrow> (nat \<Rightarrow> txgen) \<Rightarrow> handler" where
  "RemoveMember env gs =
     with_actor (\<lambda>actor. with_item ''memberId'' (\<lambda>eventID memberID. with_role (\<lambda>callerRole.
     with_version (\<lambda>version rq s.
       case bound (bind_gated env eventID memberID version)
              (\<lambda>(ev, k, v). service_remove_member (gs 1) (usr_id actor) ev k v) s of
         (Inl e, s1) \<Rightarrow> (writeAssignOrRemoveError env callerRole eventID memberID e s1, s1)
       | (Inr u, s1) \<Rightarrow> (noContent, s1)))))"

section \<open>Contracts\<close>

lemma member_current_discreet:
  "member_current env callerRole eventID memberID s = Some b \<Longrightarrow> shows_email b \<Longrightarrow> callerRole = ''admin''"
  by (auto simp: member_current_def email_needs_admin [simplified] split: sum.splits)

lemma member_errors_discreet:
  "\<not> shows_email (rs_body (member_create_error e))"
  "shows_email (rs_body (writeAssignOrRemoveError env callerRole eventID memberID e s)) \<Longrightarrow> callerRole = ''admin''"
  by (cases "member_current env callerRole eventID memberID s"; cases e;
      auto simp: member_create_error_def writeAssignOrRemoveError_def dest: member_current_discreet)+

lemma member_writes:
  "holds (writes (en_ci env)) (CreateMember env gs)"
  "holds (writes (en_ci env)) (AssignRole env gs)"
  "holds (writes (en_ci env)) (RemoveMember env gs)"
  unfolding CreateMember_def AssignRole_def RemoveMember_def
  by (intro writing.holds_steps; auto simp: holds_def writes_def bound_def split: prod.split sum.split option.split dest: service_ops)+

lemma member_reads:
  "holds reads (ListMembers env)"
  unfolding ListMembers_def
  by (intro reading.holds_steps; auto simp: holds_def reads_def split: sum.split)+

lemma member_discreet:
  "holds discreet (CreateMember env gs)"
  "holds discreet (AssignRole env gs)"
  "holds discreet (RemoveMember env gs)"
  "holds discreet (ListMembers env)"
  unfolding CreateMember_def AssignRole_def RemoveMember_def ListMembers_def
  by (intro discretion.holds_with_actor discretion.holds_with_event discretion.holds_with_item
        discretion.holds_with_body discreet_with_role role_discretion.holds_steps;
      auto simp: holds_def member_errors_discreet(1) email_needs_admin [simplified]
        intro!: discreet_asI split: prod.split sum.split dest: member_errors_discreet(2) listed_email_needs_admin)+

end
