(* ===== verification/Room_Handler.thy ===== *)
theory Room_Handler
  imports Contract
begin

text \<open>internal/http/handler/room.go.\<close>

definition room_fetch :: "env \<Rightarrow> string \<Rightarrow> string \<Rightarrow> db \<Rightarrow> repo_error + room" where
  "room_fetch env eventID roomID s =
     and_then (bind_item env eventID roomID) (\<lambda>(ev, k). service_get_room ev k s)"

definition room_current :: "env \<Rightarrow> string \<Rightarrow> string \<Rightarrow> db \<Rightarrow> body option" where
  "room_current env eventID roomID s =
     (case room_fetch env eventID roomID s of Inr r \<Rightarrow> Some (RoomBody (NewRoomResponse r)) | Inl e \<Rightarrow> None)"

definition room_create_error :: "repo_error \<Rightarrow> http_response" where
  "room_create_error e =
     (case e of
        ErrConflict \<Rightarrow> WriteError 409 ''room_name_taken'' ''another room in this event already has that name'' NoDetails
      | _ \<Rightarrow> writeInternalError)"

definition room_get_error :: "repo_error \<Rightarrow> http_response" where
  "room_get_error e =
     (case e of ErrNotFound \<Rightarrow> WriteError 404 ''not_found'' ''no such room'' NoDetails | _ \<Rightarrow> writeInternalError)"

definition room_write_error ::
    "env \<Rightarrow> string \<Rightarrow> string \<Rightarrow> repo_error \<Rightarrow> string \<Rightarrow> string \<Rightarrow> db \<Rightarrow> http_response" where
  "room_write_error env eventID roomID e conflictCode conflictMessage s =
     (case e of
        ErrNotFound \<Rightarrow> WriteError 404 ''not_found'' ''no such room'' NoDetails
      | ErrVersionMismatch \<Rightarrow>
          WriteError 409 ''version_conflict'' ''the room was modified by someone else; reload and retry''
            (Current (room_current env eventID roomID s))
      | ErrConflict \<Rightarrow> WriteError 409 conflictCode conflictMessage NoDetails
      | _ \<Rightarrow> writeInternalError)"

definition CreateRoom :: "env \<Rightarrow> (nat \<Rightarrow> txgen) \<Rightarrow> handler" where
  "CreateRoom env gs =
     with_actor (\<lambda>actor. with_event (\<lambda>eventID.
     with_body create_room_fields create_room_zero create_room_validate (\<lambda>req rq s.
       case bound (bind_uuid env eventID)
              (\<lambda>ev. service_create_room (gs 1) (usr_id actor) ev (create_room_to_input req)) s of
         (Inl e, s1) \<Rightarrow> (room_create_error e, s1)
       | (Inr created, s1) \<Rightarrow> (writeJSON 201 (RoomBody (NewRoomResponse created)), s1))))"

definition GetRoom :: "env \<Rightarrow> handler" where
  "GetRoom env =
     with_item ''roomId'' (\<lambda>eventID roomID rq s.
       case room_fetch env eventID roomID s of
         Inl e \<Rightarrow> (room_get_error e, s)
       | Inr got \<Rightarrow> (writeJSON 200 (RoomBody (NewRoomResponse got)), s))"

definition ListRooms :: "env \<Rightarrow> handler" where
  "ListRooms env =
     with_event (\<lambda>eventID. with_page (\<lambda>limit after rq s.
       case and_then (bind_uuid env eventID) (\<lambda>ev. and_then (bind_cursor env after) (\<lambda>c. service_list_rooms ev limit c s)) of
         Inl e \<Rightarrow> (writeInternalError, s)
       | Inr page \<Rightarrow> (writeJSON 200 (RoomListBody (NewRoomListResponse (en_host env) (en_text env) page)), s)))"

text \<open>A capacity that does not fit its column fails the UPDATE before it looks for the row.\<close>

definition PatchRoom :: "env \<Rightarrow> (nat \<Rightarrow> txgen) \<Rightarrow> handler" where
  "PatchRoom env gs =
     with_actor (\<lambda>actor. with_item ''roomId'' (\<lambda>eventID roomID.
     with_body patch_room_fields patch_room_zero patch_room_validate (\<lambda>req rq s.
       case bound (and_then (bind_gated env eventID roomID (prr_version req)) (\<lambda>p.
                case (if opt_set (prr_capacity req) then opt_value (prr_capacity req) else None) of
                  None \<Rightarrow> Inr p | Some c \<Rightarrow> and_then (bind_int c) (\<lambda>c. Inr p)))
              (\<lambda>(ev, k, v). service_update_room (gs 1) (usr_id actor) ev k v (patch_room_to_patch req)) s of
         (Inl e, s1) \<Rightarrow>
           (room_write_error env eventID roomID e ''room_name_taken'' ''another room in this event already has that name'' s1, s1)
       | (Inr updated, s1) \<Rightarrow> (writeJSON 200 (RoomBody (NewRoomResponse updated)), s1))))"

definition DeleteRoom :: "env \<Rightarrow> (nat \<Rightarrow> txgen) \<Rightarrow> handler" where
  "DeleteRoom env gs =
     with_actor (\<lambda>actor. with_item ''roomId'' (\<lambda>eventID roomID. with_version (\<lambda>version rq s.
       case bound (bind_gated env eventID roomID version)
              (\<lambda>(ev, k, v). service_delete_room (gs 1) (usr_id actor) ev k v) s of
         (Inl e, s1) \<Rightarrow>
           (room_write_error env eventID roomID e ''room_in_use'' ''this room has sessions; remove them before deleting the room'' s1, s1)
       | (Inr u, s1) \<Rightarrow> (noContent, s1))))"

section \<open>Contracts\<close>

lemma room_current_discreet: "room_current env eventID roomID s = Some b \<Longrightarrow> \<not> shows_email b"
  by (auto simp: room_current_def split: sum.splits)

lemma room_errors_discreet:
  "\<not> shows_email (rs_body (room_create_error e))"
  "\<not> shows_email (rs_body (room_get_error e))"
  "\<not> shows_email (rs_body (room_write_error env eventID roomID e code message s))"
  by (cases "room_current env eventID roomID s"; cases e;
      auto simp: room_create_error_def room_get_error_def room_write_error_def dest: room_current_discreet)+

lemma room_writes:
  "holds (writes (en_ci env)) (CreateRoom env gs)"
  "holds (writes (en_ci env)) (PatchRoom env gs)"
  "holds (writes (en_ci env)) (DeleteRoom env gs)"
  unfolding CreateRoom_def PatchRoom_def DeleteRoom_def
  by (intro writing.holds_steps; auto simp: holds_def writes_def bound_def split: prod.split sum.split option.split dest: service_ops)+

lemma room_reads:
  "holds reads (GetRoom env)"
  "holds reads (ListRooms env)"
  unfolding GetRoom_def ListRooms_def
  by (intro reading.holds_steps; auto simp: holds_def reads_def split: sum.split)+

lemma room_discreet:
  "holds discreet (CreateRoom env gs)"
  "holds discreet (PatchRoom env gs)"
  "holds discreet (DeleteRoom env gs)"
  "holds discreet (GetRoom env)"
  "holds discreet (ListRooms env)"
  unfolding CreateRoom_def PatchRoom_def DeleteRoom_def GetRoom_def ListRooms_def
  by (intro discretion.holds_steps; auto simp: holds_def room_errors_discreet intro!: discreet_plain split: prod.split sum.split option.split)+

end
