(* ===== verification/Session_Handler.thy ===== *)
theory Session_Handler
  imports Event_Handler
begin

text \<open>
  internal/http/handler/session.go. Every operation first reads the event, for its time zone; that
  read is also what makes the sessions of a soft-deleted event unreachable.
\<close>

datatype zone_error = LookupFailed repo_error | NoLocation

definition eventTimezone :: "env \<Rightarrow> string \<Rightarrow> db \<Rightarrow> zone_error + location" where
  "eventTimezone env eventID s =
     (case event_fetch env eventID s of
        Inl e \<Rightarrow> Inl (LookupFailed e)
      | Inr ev \<Rightarrow> (case zone_of env (ev_timezone ev) of None \<Rightarrow> Inl NoLocation | Some loc \<Rightarrow> Inr loc))"

definition writeEventLookupError :: "zone_error \<Rightarrow> http_response" where
  "writeEventLookupError e =
     (case e of
        LookupFailed ErrNotFound \<Rightarrow> WriteError 404 ''not_found'' ''no such event'' NoDetails
      | _ \<Rightarrow> writeInternalError)"

definition with_zone :: "env \<Rightarrow> string \<Rightarrow> (location \<Rightarrow> handler) \<Rightarrow> handler" where
  "with_zone env eventID k rq s =
     (case eventTimezone env eventID s of
        Inl e \<Rightarrow> (writeEventLookupError e, s)
      | Inr loc \<Rightarrow> k loc rq s)"

definition writeCreateOrUpdateError :: "repo_error \<Rightarrow> http_response" where
  "writeCreateOrUpdateError e =
     (case e of
        ErrInvalidRoom \<Rightarrow> WriteError 404 ''room_not_found'' ''room_id must reference an existing room within this event'' NoDetails
      | ErrInvalidSpeaker \<Rightarrow> WriteError 404 ''speaker_not_found'' ''speaker_id must reference an existing user'' NoDetails
      | ErrConflict \<Rightarrow> WriteError 409 ''session_conflict'' ''that room or speaker is already booked for an overlapping time'' NoDetails
      | _ \<Rightarrow> writeInternalError)"

definition session_fetch :: "env \<Rightarrow> string \<Rightarrow> string \<Rightarrow> db \<Rightarrow> repo_error + session" where
  "session_fetch env eventID sessionID s =
     and_then (bind_item env eventID sessionID) (\<lambda>(ev, k). service_get_session ev k s)"

definition session_get_error :: "repo_error \<Rightarrow> http_response" where
  "session_get_error e =
     (case e of ErrNotFound \<Rightarrow> WriteError 404 ''not_found'' ''no such session'' NoDetails | _ \<Rightarrow> writeInternalError)"

definition session_current :: "env \<Rightarrow> location \<Rightarrow> string \<Rightarrow> string \<Rightarrow> db \<Rightarrow> body option" where
  "session_current env loc eventID sessionID s =
     (case session_fetch env eventID sessionID s of
        Inr x \<Rightarrow> Some (SessionBody (NewSessionResponse x loc)) | Inl e \<Rightarrow> None)"

definition writeUpdateOrDeleteError :: "env \<Rightarrow> location \<Rightarrow> string \<Rightarrow> string \<Rightarrow> repo_error \<Rightarrow> db \<Rightarrow> http_response" where
  "writeUpdateOrDeleteError env loc eventID sessionID e s =
     (case e of
        ErrNotFound \<Rightarrow> WriteError 404 ''not_found'' ''no such session'' NoDetails
      | ErrVersionMismatch \<Rightarrow>
          WriteError 409 ''version_conflict'' ''the session was modified by someone else; reload and retry''
            (Current (session_current env loc eventID sessionID s))
      | _ \<Rightarrow> writeInternalError)"

text \<open>An input whose room or speaker text is no identifier fails the first statement it is bound to.\<close>

definition bind_input :: "'a option \<Rightarrow> repo_error + 'a" where
  "bind_input x =
     (case x of None \<Rightarrow> Inl (ErrOther (Pg (DataException ''invalid input syntax for type uuid''))) | Some a \<Rightarrow> Inr a)"

definition CreateSession :: "env \<Rightarrow> (nat \<Rightarrow> txgen) \<Rightarrow> handler" where
  "CreateSession env gs =
     with_actor (\<lambda>actor. with_event (\<lambda>eventID. with_zone env eventID (\<lambda>loc.
     with_body create_session_fields create_session_zero (create_session_validate loc) (\<lambda>req rq s.
       case bound (and_then (bind_uuid env eventID) (\<lambda>ev.
                and_then (bind_input (create_session_to_input (en_uuid env) loc req)) (\<lambda>inp. Inr (ev, inp))))
              (\<lambda>(ev, inp). service_create_session (gs 1) (usr_id actor) ev inp) s of
         (Inl e, s1) \<Rightarrow> (writeCreateOrUpdateError e, s1)
       | (Inr created, s1) \<Rightarrow> (writeJSON 201 (SessionBody (NewSessionResponse created loc)), s1)))))"

definition CreateSeries :: "env \<Rightarrow> (nat \<Rightarrow> txgen) \<Rightarrow> handler" where
  "CreateSeries env gs =
     with_actor (\<lambda>actor. with_event (\<lambda>eventID. with_zone env eventID (\<lambda>loc.
     with_body series_create_fields series_create_zero (series_create_validate loc) (\<lambda>req rq s.
       case bound (and_then (bind_uuid env eventID) (\<lambda>ev.
                and_then (bind_input (series_create_to_input (en_uuid env) loc req)) (\<lambda>inp. Inr (ev, inp))))
              (\<lambda>(ev, inp). service_create_series (gs 1) (\<lambda>i. gs (i + 2)) (usr_id actor) ev inp) s of
         (Inl e, s1) \<Rightarrow> (writeCreateOrUpdateError e, s1)
       | (Inr (series, results), s1) \<Rightarrow> (writeJSON 201 (SeriesBody (NewSeriesResponse series results loc)), s1)))))"

definition GetSession :: "env \<Rightarrow> handler" where
  "GetSession env =
     with_item ''sessionId'' (\<lambda>eventID sessionID. with_zone env eventID (\<lambda>loc rq s.
       case session_fetch env eventID sessionID s of
         Inl e \<Rightarrow> (session_get_error e, s)
       | Inr got \<Rightarrow> (writeJSON 200 (SessionBody (NewSessionResponse got loc)), s)))"

definition ListSessions :: "env \<Rightarrow> handler" where
  "ListSessions env =
     with_event (\<lambda>eventID. with_zone env eventID (\<lambda>loc. with_page (\<lambda>limit after rq s.
       case and_then (bind_uuid env eventID) (\<lambda>ev. and_then (bind_cursor env after) (\<lambda>c. service_list_sessions ev limit c s)) of
         Inl e \<Rightarrow> (writeInternalError, s)
       | Inr page \<Rightarrow>
           (writeJSON 200 (SessionListBody (NewSessionListResponse (en_host env) (en_text env) page loc)), s))))"

definition PatchSession :: "env \<Rightarrow> (nat \<Rightarrow> txgen) \<Rightarrow> handler" where
  "PatchSession env gs =
     with_actor (\<lambda>actor. with_item ''sessionId'' (\<lambda>eventID sessionID. with_zone env eventID (\<lambda>loc.
     with_body patch_session_fields patch_session_zero (patch_session_validate loc) (\<lambda>req rq s.
       case bound (bind_gated env eventID sessionID (psr_version req))
              (\<lambda>(ev, k, v). service_update_session (gs 1) (usr_id actor) ev k v (patch_session_to_patch loc req)) s of
         (Inl e, s1) \<Rightarrow> (writeUpdateOrDeleteError env loc eventID sessionID e s1, s1)
       | (Inr updated, s1) \<Rightarrow> (writeJSON 200 (SessionBody (NewSessionResponse updated loc)), s1)))))"

definition DeleteSession :: "env \<Rightarrow> (nat \<Rightarrow> txgen) \<Rightarrow> handler" where
  "DeleteSession env gs =
     with_actor (\<lambda>actor. with_item ''sessionId'' (\<lambda>eventID sessionID. with_zone env eventID (\<lambda>loc.
     with_version (\<lambda>version rq s.
       case bound (bind_gated env eventID sessionID version)
              (\<lambda>(ev, k, v). service_delete_session (gs 1) (usr_id actor) ev k v) s of
         (Inl e, s1) \<Rightarrow> (writeUpdateOrDeleteError env loc eventID sessionID e s1, s1)
       | (Inr deleted, s1) \<Rightarrow> (noContent, s1)))))"

section \<open>Contracts\<close>

context answer_contract
begin

lemma zone_refused [simp]: "P rq s (writeEventLookupError e, s)"
  by (auto simp: writeEventLookupError_def refusal split: zone_error.split repo_error.split)

lemma holds_with_zone: "(\<And>loc. holds P (k loc)) \<Longrightarrow> holds P (with_zone env eventID k)"
  by (auto simp: holds_def with_zone_def split: sum.split)

end

lemma session_current_discreet: "session_current env loc eventID sessionID s = Some b \<Longrightarrow> \<not> shows_email b"
  by (auto simp: session_current_def split: sum.splits)

lemma session_errors_discreet:
  "\<not> shows_email (rs_body (writeCreateOrUpdateError e))"
  "\<not> shows_email (rs_body (session_get_error e))"
  "\<not> shows_email (rs_body (writeUpdateOrDeleteError env loc eventID sessionID e s))"
  by (cases "session_current env loc eventID sessionID s"; cases e;
      auto simp: writeCreateOrUpdateError_def session_get_error_def writeUpdateOrDeleteError_def dest: session_current_discreet)+

lemma session_writes:
  "holds (writes (en_ci env)) (CreateSession env gs)"
  "holds (writes (en_ci env)) (CreateSeries env gs)"
  "holds (writes (en_ci env)) (PatchSession env gs)"
  "holds (writes (en_ci env)) (DeleteSession env gs)"
  unfolding CreateSession_def CreateSeries_def PatchSession_def DeleteSession_def
  by (intro writing.holds_steps writing.holds_with_zone; auto simp: holds_def writes_def bound_def split: prod.split sum.split option.split dest: service_ops)+

lemma session_reads:
  "holds reads (GetSession env)"
  "holds reads (ListSessions env)"
  unfolding GetSession_def ListSessions_def
  by (intro reading.holds_steps reading.holds_with_zone; auto simp: holds_def reads_def split: sum.split)+

lemma session_discreet:
  "holds discreet (CreateSession env gs)"
  "holds discreet (CreateSeries env gs)"
  "holds discreet (PatchSession env gs)"
  "holds discreet (DeleteSession env gs)"
  "holds discreet (GetSession env)"
  "holds discreet (ListSessions env)"
  unfolding CreateSession_def CreateSeries_def PatchSession_def DeleteSession_def GetSession_def ListSessions_def
  by (intro discretion.holds_steps discretion.holds_with_zone; auto simp: holds_def session_errors_discreet intro!: discreet_plain split: prod.split sum.split option.split)+

end
