(* ===== verification/Invitation_Handler.thy ===== *)
theory Invitation_Handler
  imports Contract
begin

text \<open>
  internal/http/handler/invitation.go. The bulk endpoint hashes the raw body before it decodes it,
  and hands the key it trimmed from the header to the repository.
\<close>

definition invitation_create_error :: "repo_error \<Rightarrow> http_response" where
  "invitation_create_error e =
     (case e of
        ErrForbidden \<Rightarrow> WriteError 403 ''cannot_invite_at_role'' ''you cannot invite someone at that role'' NoDetails
      | ErrConflict \<Rightarrow> WriteError 409 ''already_invited'' ''this event already has an invitation for that email'' NoDetails
      | _ \<Rightarrow> writeInternalError)"

definition CreateInvitation :: "env \<Rightarrow> (nat \<Rightarrow> txgen) \<Rightarrow> handler" where
  "CreateInvitation env gs =
     with_actor (\<lambda>actor. with_event (\<lambda>eventID.
     with_body invitation_create_fields invitation_create_zero invitation_create_validate (\<lambda>req rq s.
       case bound (bind_uuid env eventID)
              (\<lambda>ev. service_create_invitation (en_ci env) (gs 1) (usr_id actor) ev (invitation_create_to_input req)) s of
         (Inl e, s1) \<Rightarrow> (invitation_create_error e, s1)
       | (Inr created, s1) \<Rightarrow> (writeJSON 201 (InvitationBody (NewInvitationResponse created)), s1))))"

definition bulk_error :: "repo_error \<Rightarrow> http_response" where
  "bulk_error e =
     (case e of
        ErrConflict \<Rightarrow> WriteError 422 ''idempotency_key_conflict''
          ''this Idempotency-Key was already used with a different request body'' NoDetails
      | _ \<Rightarrow> writeInternalError)"

text \<open>\<open>json.Unmarshal\<close> wants the whole body to be one value.\<close>

definition BulkCreateInvitations :: "env \<Rightarrow> (nat \<Rightarrow> txgen) \<Rightarrow> handler" where
  "BulkCreateInvitations env gs =
     with_actor (\<lambda>actor. with_event (\<lambda>eventID rq s.
       let idempotencyKey = trim_space (rq_idempotency_key rq) in
       if idempotencyKey = []
       then (writeValidationError [(''idempotency_key'', Issue ''the Idempotency-Key header is required'')], s)
       else case Option.bind (json_whole (rq_body rq)) (\<lambda>v. decode_struct bulk_invite_fields v bulk_invite_zero) of
         None \<Rightarrow> (writeValidationError [(''body'', Issue ''must be valid JSON'')], s)
       | Some req \<Rightarrow>
           if bulk_invite_validate req \<noteq> [] then (writeValidationError (bulk_invite_validate req), s)
           else case bound (bind_uuid env eventID)
                  (\<lambda>ev. service_bulk_invite (en_ci env) (gs 1) (\<lambda>i. gs (i + 2)) (usr_id actor) ev idempotencyKey
                    (en_sha256 env (rq_body rq)) (bulk_invite_to_inputs req)) s of
                  (Inl e, s1) \<Rightarrow> (bulk_error e, s1)
                | (Inr result, s1) \<Rightarrow> (writeJSON 207 (BulkInviteBody (NewBulkInviteResponse result)), s1)))"

definition ListInvitations :: "env \<Rightarrow> handler" where
  "ListInvitations env =
     with_event (\<lambda>eventID. with_page (\<lambda>limit after rq s.
       case and_then (bind_uuid env eventID) (\<lambda>ev. and_then (bind_cursor env after) (\<lambda>c. service_list_invitations ev limit c s)) of
         Inl e \<Rightarrow> (writeInternalError, s)
       | Inr page \<Rightarrow>
           (writeJSON 200 (InvitationListBody (NewInvitationListResponse (en_host env) (en_text env) page)), s)))"

section \<open>Contracts\<close>

lemma invitation_errors_discreet:
  "\<not> shows_email (rs_body (invitation_create_error e))"
  "\<not> shows_email (rs_body (bulk_error e))"
  by (cases e; simp add: invitation_create_error_def bulk_error_def)+

lemma invitation_writes:
  "holds (writes (en_ci env)) (CreateInvitation env gs)"
  "holds (writes (en_ci env)) (BulkCreateInvitations env gs)"
  unfolding CreateInvitation_def BulkCreateInvitations_def
  by (intro writing.holds_steps; auto simp: holds_def writes_def bound_def Let_def split: prod.split sum.split option.split dest: service_ops)+

lemma invitation_reads:
  "holds reads (ListInvitations env)"
  unfolding ListInvitations_def
  by (intro reading.holds_steps; auto simp: holds_def reads_def split: sum.split)+

lemma invitation_discreet:
  "holds discreet (CreateInvitation env gs)"
  "holds discreet (BulkCreateInvitations env gs)"
  "holds discreet (ListInvitations env)"
  unfolding CreateInvitation_def BulkCreateInvitations_def ListInvitations_def
  by (intro discretion.holds_steps; auto simp: holds_def invitation_errors_discreet Let_def writeValidationError_def intro!: discreet_plain split: prod.split sum.split option.split)+

end
