(* ===== verification/Router.thy ===== *)
theory Router
  imports Event_Handler Member_Handler Room_Handler Session_Handler Invitation_Handler
begin

text \<open>
  internal/http/router.go: the route table, the middleware in front of each route, and the mux. A
  path is the list of its segments, percent-decoded, as \<open>http.ServeMux\<close> sees them once the path is
  clean (a path with \<open>//\<close> or dots is redirected by the mux before it reaches a route). \<open>gs 0\<close> is what
  the database draws for the sign-in, \<open>gs 1\<close> for the write of the handler and \<open>gs (i + 2)\<close> for its
  \<open>i\<close>-th item.
\<close>

section \<open>The route table\<close>

datatype seg = Lit string | Wild string

datatype guard = Open | Signed_In | Permitted resource action

record route =
  ro_method :: string
  ro_path :: "seg list"
  ro_guard :: guard
  ro_handler :: handler

definition Handle :: "string \<Rightarrow> seg list \<Rightarrow> guard \<Rightarrow> handler \<Rightarrow> route" where
  "Handle m path g h = \<lparr>ro_method = m, ro_path = path, ro_guard = g, ro_handler = h\<rparr>"

definition events_path :: "seg list" where "events_path = [Lit ''v1'', Lit ''events'']"

definition event_path :: "seg list \<Rightarrow> seg list" where
  "event_path rest = events_path @ Wild ''eventId'' # rest"

definition event_routes :: "env \<Rightarrow> (nat \<Rightarrow> txgen) \<Rightarrow> route list" where
  "event_routes env gs =
     [Handle ''POST'' events_path Signed_In (CreateEvent env gs),
      Handle ''GET'' events_path Signed_In (ListEvents env),
      Handle ''GET'' (event_path []) (Permitted ResourceEvent ActionRead) (GetEvent env),
      Handle ''PATCH'' (event_path []) (Permitted ResourceEvent ActionUpdate) (PatchEvent env gs),
      Handle ''DELETE'' (event_path []) (Permitted ResourceEvent ActionDelete) (DeleteEvent env gs)]"

definition member_routes :: "env \<Rightarrow> (nat \<Rightarrow> txgen) \<Rightarrow> route list" where
  "member_routes env gs =
     [Handle ''POST'' (event_path [Lit ''members'']) (Permitted ResourceMember ActionCreate) (CreateMember env gs),
      Handle ''GET'' (event_path [Lit ''members'']) (Permitted ResourceMember ActionRead) (ListMembers env),
      Handle ''PATCH'' (event_path [Lit ''members'', Wild ''memberId'']) (Permitted ResourceMember ActionAssignRole) (AssignRole env gs),
      Handle ''DELETE'' (event_path [Lit ''members'', Wild ''memberId'']) (Permitted ResourceMember ActionDelete) (RemoveMember env gs)]"

definition room_routes :: "env \<Rightarrow> (nat \<Rightarrow> txgen) \<Rightarrow> route list" where
  "room_routes env gs =
     [Handle ''POST'' (event_path [Lit ''rooms'']) (Permitted ResourceRoom ActionCreate) (CreateRoom env gs),
      Handle ''GET'' (event_path [Lit ''rooms'']) (Permitted ResourceRoom ActionRead) (ListRooms env),
      Handle ''GET'' (event_path [Lit ''rooms'', Wild ''roomId'']) (Permitted ResourceRoom ActionRead) (GetRoom env),
      Handle ''PATCH'' (event_path [Lit ''rooms'', Wild ''roomId'']) (Permitted ResourceRoom ActionUpdate) (PatchRoom env gs),
      Handle ''DELETE'' (event_path [Lit ''rooms'', Wild ''roomId'']) (Permitted ResourceRoom ActionDelete) (DeleteRoom env gs)]"

definition session_routes :: "env \<Rightarrow> (nat \<Rightarrow> txgen) \<Rightarrow> route list" where
  "session_routes env gs =
     [Handle ''POST'' (event_path [Lit ''sessions'']) (Permitted ResourceSession ActionCreate) (CreateSession env gs),
      Handle ''POST'' (event_path [Lit ''sessions'', Lit ''series'']) (Permitted ResourceSession ActionCreate) (CreateSeries env gs),
      Handle ''GET'' (event_path [Lit ''sessions'']) (Permitted ResourceSession ActionRead) (ListSessions env),
      Handle ''GET'' (event_path [Lit ''sessions'', Wild ''sessionId'']) (Permitted ResourceSession ActionRead) (GetSession env),
      Handle ''PATCH'' (event_path [Lit ''sessions'', Wild ''sessionId'']) (Permitted ResourceSession ActionUpdate) (PatchSession env gs),
      Handle ''DELETE'' (event_path [Lit ''sessions'', Wild ''sessionId'']) (Permitted ResourceSession ActionDelete) (DeleteSession env gs)]"

definition invitation_routes :: "env \<Rightarrow> (nat \<Rightarrow> txgen) \<Rightarrow> route list" where
  "invitation_routes env gs =
     [Handle ''POST'' (event_path [Lit ''invitations'']) (Permitted ResourceInvitation ActionCreate) (CreateInvitation env gs),
      Handle ''GET'' (event_path [Lit ''invitations'']) (Permitted ResourceInvitation ActionRead) (ListInvitations env),
      Handle ''POST'' (event_path [Lit ''invitations'', Lit ''bulk'']) (Permitted ResourceInvitation ActionCreate) (BulkCreateInvitations env gs)]"

definition NewRouter :: "env \<Rightarrow> (nat \<Rightarrow> txgen) \<Rightarrow> route list" where
  "NewRouter env gs = Handle ''GET'' [Lit ''health''] Open (HealthServeHTTP env) #
     event_routes env gs @ member_routes env gs @ room_routes env gs @ session_routes env gs @ invitation_routes env gs"

lemmas route_defs = event_routes_def member_routes_def room_routes_def session_routes_def invitation_routes_def
  NewRouter_def Handle_def

section \<open>Serving a request\<close>

fun match_path :: "seg list \<Rightarrow> string list \<Rightarrow> (string \<times> string) list option" where
  "match_path [] [] = Some []"
| "match_path (Lit l # segs) (x # xs) = (if x = l then match_path segs xs else None)"
| "match_path (Wild w # segs) (x # xs) =
     (if x = [] then None else map_option (\<lambda>vs. (w, x) # vs) (match_path segs xs))"
| "match_path _ _ = None"

text \<open>A \<open>GET\<close> pattern takes \<open>HEAD\<close> requests too.\<close>

definition takes_method :: "route \<Rightarrow> string \<Rightarrow> bool" where
  "takes_method r m = (m = ro_method r \<or> ro_method r = ''GET'' \<and> m = ''HEAD'')"

text \<open>
  No path of a method matches two patterns of the table, so the mux's preference for the more
  specific one never decides, and the first match is the match.
\<close>

definition find_route :: "string \<Rightarrow> string list \<Rightarrow> route list \<Rightarrow> route option" where
  "find_route m path routes = find (\<lambda>r. takes_method r m \<and> match_path (ro_path r) path \<noteq> None) routes"

definition behind :: "env \<Rightarrow> policy \<Rightarrow> (nat \<Rightarrow> txgen) \<Rightarrow> guard \<Rightarrow> handler \<Rightarrow> handler" where
  "behind env p gs g h =
     (case g of
        Open \<Rightarrow> h
      | Signed_In \<Rightarrow> Auth env (gs 0) h
      | Permitted res act \<Rightarrow> Auth env (gs 0) (Authz env p res act h))"

definition path_request :: "route \<Rightarrow> string list \<Rightarrow> request \<Rightarrow> request" where
  "path_request r path rq =
     rq\<lparr>rq_path := (case match_path (ro_path r) path of Some vs \<Rightarrow> vs | None \<Rightarrow> []), rq_user := None, rq_role := None\<rparr>"

definition ServeHTTP :: "env \<Rightarrow> policy \<Rightarrow> (nat \<Rightarrow> txgen) \<Rightarrow> string \<Rightarrow> string list \<Rightarrow> handler" where
  "ServeHTTP env p gs m path rq s =
     (case find_route m path (NewRouter env gs) of
        Some r \<Rightarrow> behind env p gs (ro_guard r) (ro_handler r) (path_request r path rq) s
      | None \<Rightarrow>
          if \<exists>r \<in> set (NewRouter env gs). match_path (ro_path r) path \<noteq> None
          then (\<lparr>rs_status = 405, rs_body = TextBody ''Method Not Allowed''\<rparr>, s)
          else (\<lparr>rs_status = 404, rs_body = TextBody ''404 page not found''\<rparr>, s))"

end
