(* ===== verification/Access.thy ===== *)
theory Access
  imports Router
begin

text \<open>
  Who reaches what: the route table's guards and the contracts of its handlers, put together into
  one case rule for a served request, \<open>serve_cases\<close>.
\<close>

section \<open>The caller of a request\<close>

definition caller :: "env \<Rightarrow> txgen \<Rightarrow> request \<Rightarrow> db \<Rightarrow> (user \<times> db) option" where
  "caller env g rq s =
     (case bearerToken rq of
        None \<Rightarrow> None
      | Some token \<Rightarrow>
          (case Verify env token of
             Inl e \<Rightarrow> None
           | Inr c \<Rightarrow>
               (case service_get_or_create_by_subject (en_ci env) g (cl_subject c) (cl_email c) (cl_name c) s of
                  (Inl e, s1) \<Rightarrow> None
                | (Inr u, s1) \<Rightarrow> Some (u, s1))))"

lemma Auth_caller:
  "Auth env g h rq s =
     (case caller env g rq s of None \<Rightarrow> (writeUnauthorized, s) | Some (u, s1) \<Rightarrow> h (rq\<lparr>rq_user := Some u\<rparr>) s1)"
  by (cases rule: Auth_cases [of env g h rq s])
    (auto simp: Auth_def caller_def service_get_or_create_by_subject_def dest: sign_in_unchanged split: option.splits sum.splits prod.splits)

lemma caller_writes_users:
  "caller env g rq s = Some (u, s1) \<Longrightarrow> \<exists>us. s1 = s\<lparr>t_users := us\<rparr>"
  by (auto simp: caller_def service_get_or_create_by_subject_def elim!: user_write_frame split: option.splits sum.splits prod.splits)

lemma caller_is_op:
  "caller env g rq s = Some (u, s1) \<Longrightarrow> \<exists>p. s1 = apply_op (en_ci env) p s"
  by (auto simp: caller_def split: option.splits sum.splits prod.splits dest: service_ops)

lemma caller_path_request [simp]: "caller env g (path_request r path rq) s = caller env g rq s"
  by (simp add: caller_def bearerToken_def path_request_def)

section \<open>The table\<close>

lemma route_guards:
  assumes "r \<in> set (NewRouter env gs)"
  obtains (open_route) "ro_guard r = Open" "ro_handler r = HealthServeHTTP env"
  | (signed_in) "ro_guard r = Signed_In" "ro_path r = events_path"
  | (permitted) res act rest where "ro_guard r = Permitted res act" "ro_path r = event_path rest"
      "ro_method r = ''GET'' \<longleftrightarrow> act = ActionRead"
  using assms by (fastforce simp: route_defs)

lemma health_contracts: "holds reads (HealthServeHTTP env)" "holds discreet (HealthServeHTTP env)"
  by (simp_all add: holds_def reads_def discreet_def HealthServeHTTP_def)

lemma route_writes: "r \<in> set (NewRouter env gs) \<Longrightarrow> holds (writes (en_ci env)) (ro_handler r)"
  by (auto simp: route_defs event_writes member_writes room_writes session_writes invitation_writes
      event_reads member_reads room_reads session_reads invitation_reads health_contracts reads_writes)

lemma get_route_reads: "r \<in> set (NewRouter env gs) \<Longrightarrow> ro_method r = ''GET'' \<Longrightarrow> holds reads (ro_handler r)"
  by (auto simp: route_defs event_reads member_reads room_reads session_reads invitation_reads health_contracts)

lemma route_discreet: "r \<in> set (NewRouter env gs) \<Longrightarrow> holds discreet (ro_handler r)"
  by (auto simp: route_defs event_discreet member_discreet room_discreet session_discreet invitation_discreet health_contracts)

lemma signed_in_route_methods:
  "r \<in> set (NewRouter env gs) \<Longrightarrow> ro_guard r = Signed_In \<Longrightarrow>
     ro_method r = ''GET'' \<or> ro_method r = ''POST'' \<and> ro_handler r = CreateEvent env gs"
  by (auto simp: route_defs)

lemma find_route_in:
  "find_route m path rs = Some r \<Longrightarrow> r \<in> set rs \<and> takes_method r m \<and> match_path (ro_path r) path \<noteq> None"
  by (auto simp: find_route_def find_Some_iff)

lemma find_get_route:
  assumes "find_route m path (NewRouter env gs) = Some r" "m = ''GET'' \<or> m = ''HEAD''"
  shows "holds reads (ro_handler r)"
proof -
  have "ro_method r \<noteq> ''HEAD''" if "r \<in> set (NewRouter env gs)" using that by (auto simp: route_defs)
  then show ?thesis using find_route_in [OF assms(1)] assms(2) by (auto simp: takes_method_def intro: get_route_reads)
qed

lemma match_event_path:
  "match_path (event_path rest) path = Some vs \<Longrightarrow>
     \<exists>e xs. path = ''v1'' # ''events'' # e # xs \<and> e \<noteq> [] \<and> map_of vs ''eventId'' = Some e"
  by (cases path; cases "tl path"; cases "tl (tl path)")
    (auto simp: event_path_def events_path_def split: if_splits)

lemma match_events_path: "match_path events_path path \<noteq> None \<Longrightarrow> path = [''v1'', ''events'']"
  by (cases path; cases "tl path"; cases "tl (tl path)") (auto simp: events_path_def split: if_splits)

lemma event_path_value:
  assumes "match_path (ro_path r) (''v1'' # ''events'' # e # xs) \<noteq> None" "ro_path r = event_path rest"
  shows "PathValue (path_request r (''v1'' # ''events'' # e # xs) rq) ''eventId'' = e" "e \<noteq> []"
  using assms by (auto simp: path_request_def PathValue_def value_of_def dest: match_event_path split: option.split)

text \<open>The routes under an event are exactly those behind the authorization middleware.\<close>

lemma permitted_route:
  assumes "find_route m path (NewRouter env gs) = Some r" "ro_guard r = Permitted res act"
  obtains e xs where "path = ''v1'' # ''events'' # e # xs" "PathValue (path_request r path rq) ''eventId'' = e"
    "e \<noteq> []" "ro_method r = ''GET'' \<longleftrightarrow> act = ActionRead"
proof -
  have r: "r \<in> set (NewRouter env gs)" "match_path (ro_path r) path \<noteq> None"
    using find_route_in [OF assms(1)] by simp_all
  from r(1) obtain rest where g: "ro_path r = event_path rest" "ro_method r = ''GET'' \<longleftrightarrow> act = ActionRead"
    using assms(2) by (cases rule: route_guards) simp_all
  obtain e xs where p: "path = ''v1'' # ''events'' # e # xs" using r(2) g(1) match_event_path by fastforce
  show thesis
    by (rule that [OF p _ _ g(2)]) (use event_path_value [OF r(2) [unfolded p] g(1)] in \<open>simp_all add: p\<close>)
qed

lemma event_route:
  assumes "find_route m (''v1'' # ''events'' # e # xs) (NewRouter env gs) = Some r"
  obtains res act where "ro_guard r = Permitted res act" "e \<noteq> []"
    "PathValue (path_request r (''v1'' # ''events'' # e # xs) rq) ''eventId'' = e"
proof -
  let ?path = "''v1'' # ''events'' # e # xs"
  have r: "r \<in> set (NewRouter env gs)" "match_path (ro_path r) ?path \<noteq> None"
    using find_route_in [OF assms] by simp_all
  from r(1) show thesis
  proof (cases rule: route_guards)
    case open_route
    then have "ro_path r = [Lit ''health'']" using r(1) by (auto simp: route_defs)
    then show thesis using r(2) by simp
  next
    case signed_in
    then show thesis using r(2) by (simp add: events_path_def)
  next
    case (permitted res act rest)
    then show thesis using event_path_value [OF r(2) permitted(2)] by (intro that) simp_all
  qed
qed

text \<open>Two routes of one method never match the same path.\<close>

fun apart :: "seg list \<Rightarrow> seg list \<Rightarrow> bool" where
  "apart (Lit l # xs) (Lit k # ys) = (l \<noteq> k \<or> apart xs ys)"
| "apart (x # xs) (y # ys) = apart xs ys"
| "apart [] [] = False"
| "apart _ _ = True"

lemma match_Cons: "match_path (s # segs) p \<noteq> None \<Longrightarrow> \<exists>x xs. p = x # xs \<and> (s = Lit x \<or> (\<exists>w. s = Wild w)) \<and> match_path segs xs \<noteq> None"
  by (cases s; cases p) (auto split: if_splits)

lemma match_Nil: "match_path [] p \<noteq> None \<Longrightarrow> p = []"
  by (cases p) auto

lemma apart_no_common_path: "apart xs ys \<Longrightarrow> match_path xs p = None \<or> match_path ys p = None"
proof (induction xs arbitrary: ys p)
  case Nil
  then show ?case using match_Nil [of p] match_Cons by (cases ys) fastforce+
next
  case (Cons x xs)
  show ?case
  proof (cases ys)
    case Nil
    then show ?thesis using match_Nil [of p] match_Cons [of x xs p] by auto
  next
    case (Cons y zs)
    then have a: "apart xs zs \<or> (\<exists>l k. x = Lit l \<and> y = Lit k \<and> l \<noteq> k)" using Cons.prems by (cases x; cases y) auto
    show ?thesis
    proof (rule ccontr)
      assume "\<not> ?thesis"
      then have "match_path (x # xs) p \<noteq> None" "match_path (y # zs) p \<noteq> None" using \<open>ys = y # zs\<close> by auto
      from match_Cons [OF this(1)] match_Cons [OF this(2)] a Cons.IH [of zs "tl p"] show False by auto
    qed
  qed
qed

lemma routes_apart:
  "sorted_wrt (\<lambda>r r'. ro_method r = ro_method r' \<longrightarrow> apart (ro_path r) (ro_path r')) (NewRouter env gs)"
  by (simp add: route_defs event_path_def events_path_def)

section \<open>The permission table\<close>

text \<open>The table of the seed migration in words.\<close>

definition may :: "string \<Rightarrow> resource \<Rightarrow> action \<Rightarrow> bool" where
  "may role res act =
     (if role = ''admin'' then
        (case res of
           ResourceEvent \<Rightarrow> act \<in> {ActionRead, ActionUpdate, ActionDelete}
         | ResourceMember \<Rightarrow> act \<noteq> ActionUpdate
         | ResourceInvitation \<Rightarrow> act \<in> {ActionCreate, ActionRead}
         | _ \<Rightarrow> act \<noteq> ActionAssignRole)
      else if role = ''contributor'' then
        (case res of
           ResourceEvent \<Rightarrow> act = ActionRead
         | ResourceMember \<Rightarrow> act = ActionRead
         | ResourceInvitation \<Rightarrow> act \<in> {ActionCreate, ActionRead}
         | _ \<Rightarrow> act \<noteq> ActionAssignRole)
      else role = ''attendee'' \<and> act = ActionRead \<and> res \<in> {ResourceEvent, ResourceSession})"

lemma seeded_permissions:
  assumes "NewPolicy role_permissions = Inr p"
  shows "perm role (resource_text res) (action_text act) \<in> set (po_permissions p) \<longleftrightarrow> may role res act"
  unfolding NewPolicy_permissions [OF assms]
  by (cases res; cases act) (auto simp: role_permissions_def perm_def may_def)

section \<open>A served request\<close>

lemma serve_cases:
  obtains (mux) status message where "find_route m path (NewRouter env gs) = None"
      "ServeHTTP env p gs m path rq s = (\<lparr>rs_status = status, rs_body = TextBody message\<rparr>, s)"
  | (open_route) r where "find_route m path (NewRouter env gs) = Some r" "ro_guard r = Open"
      "ServeHTTP env p gs m path rq s = HealthServeHTTP env (path_request r path rq) s"
  | (refused) r where "find_route m path (NewRouter env gs) = Some r" "ro_guard r \<noteq> Open"
      "caller env (gs 0) rq s = None" "ServeHTTP env p gs m path rq s = (writeUnauthorized, s)"
  | (signed_in) r u s1 where "find_route m path (NewRouter env gs) = Some r" "ro_guard r = Signed_In"
      "caller env (gs 0) rq s = Some (u, s1)"
      "ServeHTTP env p gs m path rq s = ro_handler r ((path_request r path rq)\<lparr>rq_user := Some u\<rparr>) s1"
  | (blocked) r u s1 res act a where "find_route m path (NewRouter env gs) = Some r" "ro_guard r = Permitted res act"
      "caller env (gs 0) rq s = Some (u, s1)"
      "ServeHTTP env p gs m path rq s = (a, s1)" "a = writeInternalError \<or> a = writeForbidden"
  | (handled) r u s1 res act ev role where "find_route m path (NewRouter env gs) = Some r"
      "ro_guard r = Permitted res act" "caller env (gs 0) rq s = Some (u, s1)"
      "en_uuid env (PathValue (path_request r path rq) ''eventId'') = Some ev"
      "member_role (usr_id u) ev s1 = Some role"
      "perm role (resource_text res) (action_text act) \<in> set (po_permissions p)"
      "ServeHTTP env p gs m path rq s =
         ro_handler r ((path_request r path rq)\<lparr>rq_user := Some u, rq_role := Some role\<rparr>) s1"
proof (cases "find_route m path (NewRouter env gs)")
  case None
  then show thesis
    by (cases "\<exists>r \<in> set (NewRouter env gs). match_path (ro_path r) path \<noteq> None") (rule mux, assumption, simp add: ServeHTTP_def)+
next
  case r: (Some r)
  then have r_in: "r \<in> set (NewRouter env gs)" by (auto dest: find_route_in)
  show thesis
  proof (cases "ro_guard r = Open")
    case True
    then have "ro_handler r = HealthServeHTTP env" using r_in by (auto elim: route_guards)
    then show thesis using r True by (intro open_route) (auto simp: ServeHTTP_def behind_def)
  next
    case closed: False
    show thesis
    proof (cases "caller env (gs 0) rq s")
      case None
      then show thesis using r closed by (intro refused) (auto simp: ServeHTTP_def behind_def Auth_caller split: guard.split)
    next
      case (Some us)
      then obtain u s1 where c: "caller env (gs 0) rq s = Some (u, s1)" by (cases us) auto
      show thesis
      proof (cases "ro_guard r")
        case Signed_In
        then show thesis using r c by (intro signed_in) (auto simp: ServeHTTP_def behind_def Auth_caller)
      next
        case g: (Permitted res act)
        let ?rq = "(path_request r path rq)\<lparr>rq_user := Some u\<rparr>"
        have serve: "ServeHTTP env p gs m path rq s = Authz env p res act (ro_handler r) ?rq s1"
          using r c g by (simp add: ServeHTTP_def behind_def Auth_caller)
        show thesis
        proof (cases rule: Authz_cases [of env p res act "ro_handler r" ?rq s1])
          case (allowed u' ev role)
          then show thesis using r c g serve by (intro handled) (simp_all add: PathValue_def)
        qed (use r c g serve in \<open>auto intro: blocked\<close>)
      qed (use closed in simp)
    qed
  qed
qed

lemma get_serves_users:
  assumes "m = ''GET'' \<or> m = ''HEAD''"
  shows "\<exists>us. snd (ServeHTTP env p gs m path rq s) = s\<lparr>t_users := us\<rparr>"
proof (cases rule: serve_cases [of m path env gs p rq s])
  case (signed_in r u s1)
  then show ?thesis using find_get_route [OF signed_in(1) assms] signed_in(3,4) caller_writes_users by (fastforce simp: holds_def reads_def)
next
  case (handled r u s1)
  then show ?thesis using find_get_route [OF handled(1) assms] handled(3,7) caller_writes_users by (fastforce simp: holds_def reads_def)
qed (auto simp: HealthServeHTTP_def intro: exI [of _ "t_users s"] dest: caller_writes_users)

end
