(* ===== verification/Invariants.thy ===== *)
theory Invariants
  imports System
begin

text \<open>
  What holds in every reachable state, besides the constraints of the schema: every event has an
  admin, a session's room is a room of its event, and replaying the audit log rebuilds the five
  audited tables.
\<close>

section \<open>Every event keeps an admin\<close>

definition admins_ok :: "db \<Rightarrow> bool" where
  "admins_ok s = (\<forall>ev \<in> event_ids s. has_admin s ev)"

text \<open>A guarded change of the membership \<open>k\<close> leaves an admin behind.\<close>

lemma guarded_keeps_admin:
  assumes "db_ok ci s" "lookup_row mr_id k (t_members s) = Some old" "guarded k old stays s" "has_admin s ev"
    and others: "\<And>m. m \<in> set (t_members s) \<Longrightarrow> mr_id m \<noteq> k \<Longrightarrow> m \<in> set (t_members s')"
    and itself: "stays \<Longrightarrow> has_admin s' (mr_event_id old)"
  shows "has_admin s' ev"
proof -
  obtain m where m: "m \<in> set (t_members s)" "mr_event_id m = ev" "mr_role m = ''admin''"
    using assms(4) by (auto simp: has_admin_def)
  show ?thesis
  proof (cases "mr_id m = k")
    case False
    then show ?thesis using others m by (auto simp: has_admin_def)
  next
    case True
    then have "m = old"
      using assms(2) m(1) lookup_row_in [of mr_id "t_members s" m] db_okD(3) [OF assms(1)]
      by (simp add: members_ok_def)
    then have "stays \<or> other_admin ev k s" using assms(3) m by (simp add: guarded_def)
    then show ?thesis
      using itself m \<open>m = old\<close> others by (auto simp: other_admin_def has_admin_def)
  qed
qed

lemma has_admin_put:
  "lookup_row mr_id (mr_id new) (t_members s) = Some old \<Longrightarrow> mr_role new = ''admin'' \<Longrightarrow>
     has_admin (s\<lparr>t_members := put_row mr_id new (t_members s), t_audit := au\<rparr>) (mr_event_id new)"
  using lookup_row_Some [of mr_id "mr_id new" "t_members s" old]
  by (force simp: has_admin_def put_row_def)

lemma admins_ok_grow:
  "admins_ok s \<Longrightarrow> event_ids s' = event_ids s \<Longrightarrow> set (t_members s) \<subseteq> set (t_members s') \<Longrightarrow> admins_ok s'"
  by (fastforce simp: admins_ok_def has_admin_def)

lemma tx_write_admins:
  assumes "db_ok ci s" "admins_ok s" "tx_write ci s s'"
  shows "admins_ok s'"
  using assms(3)
proof (cases rule: tx_write_effect)
  case (member k old new i actor)
  have "has_admin s' ev" if "has_admin s ev" for ev
  proof (rule guarded_keeps_admin [OF assms(1) member(1,5) that])
    show "m \<in> set (t_members s')" if "m \<in> set (t_members s)" "mr_id m \<noteq> k" for m
      using that member(2) unfolding member(6) by (simp add: put_row_keeps)
    show "has_admin s' (mr_event_id old)" if "mr_role new = ''admin''"
      using has_admin_put [of new s old] that member(1-3) unfolding member(6) by simp
  qed
  then show ?thesis using assms(2) member by (simp add: admins_ok_def)
next
  case (member_gone k old i actor)
  have "has_admin s' ev" if "has_admin s ev" for ev
    by (rule guarded_keeps_admin [OF assms(1) member_gone(1,3) that]) (simp_all add: member_gone(4))
  then show ?thesis using assms(2) member_gone by (simp add: admins_ok_def)
next
  case (new_event g a inp)
  then show ?thesis
    using assms(2) by (auto simp: admins_ok_def has_admin_def new_admin_row_def new_event_row_def)
qed ((rule admins_ok_grow [OF assms(2)]; auto simp: key_put_row)+)

lemma reachable_admins:
  assumes "reachable ci s"
  shows "admins_ok s"
proof (rule reachable_invariant [THEN conjunct2, OF assms])
  show "admins_ok empty_db" by (simp add: admins_ok_def empty_db_def)
qed (blast intro: tx_write_admins)

section \<open>A session's room is a room of its event\<close>

definition rooms_match :: "db \<Rightarrow> bool" where
  "rooms_match s = (\<forall>x \<in> set (t_sessions s).
     \<exists>r \<in> set (t_rooms s). rr_id r = sr_room_id x \<and> rr_event_id r = sr_event_id x)"

lemma tx_write_rooms_match:
  assumes "db_ok ci s" "rooms_match s" "tx_write ci s s'"
  shows "rooms_match s'"
  using assms(3)
proof (cases rule: tx_write_effect)
  case (room k old new i actor)
  have "\<exists>r' \<in> set (t_rooms s'). rr_id r' = rr_id r \<and> rr_event_id r' = rr_event_id r" if "r \<in> set (t_rooms s)" for r
  proof (cases "rr_id r = k")
    case True
    then have "r = old"
      using room(1) that lookup_row_in [of rr_id "t_rooms s" r] db_okD(4) [OF assms(1)] by (simp add: rooms_ok_def)
    moreover have "new \<in> set (t_rooms s')" using room that True by (force simp: put_row_def)
    ultimately show ?thesis using room True by auto
  next
    case False
    then show ?thesis using room that by (auto intro: put_row_keeps)
  qed
  then show ?thesis using assms(2) room unfolding rooms_match_def by simp metis
next
  case (room_gone k old i actor)
  then show ?thesis using assms(2) by (fastforce simp: rooms_match_def)
next
  case (new_session g a ev si rm)
  then show ?thesis
    using assms(2) find_room_in [of ev "sci_room_id si" s rm] by (auto simp: rooms_match_def new_session_row_def)
next
  case (session k old new action actor i cs)
  then show ?thesis
    using assms(2) lookup_row_Some [of sr_id k "t_sessions s" old] set_put_row_subset [of sr_id new "t_sessions s"]
    by (fastforce simp: rooms_match_def)
qed (use assms(2) in \<open>auto simp: rooms_match_def\<close>)

lemma reachable_rooms_match:
  assumes "reachable ci s"
  shows "rooms_match s"
proof (rule reachable_invariant [THEN conjunct2, OF assms])
  show "rooms_match empty_db" by (simp add: rooms_match_def empty_db_def)
qed (blast intro: tx_write_rooms_match)

section \<open>The audit log explains the tables\<close>

fun as_event :: "snapshot \<Rightarrow> event_row option" where
  "as_event (SEvent e) = Some e"
| "as_event _ = None"

text \<open>The row of an event's creator is logged without its version, which is 1.\<close>

fun as_member :: "snapshot \<Rightarrow> event_member_row option" where
  "as_member (SMember m) = Some m"
| "as_member (SGrant m) = Some \<lparr>mr_id = gr_id m, mr_event_id = gr_event_id m, mr_user_id = gr_user_id m,
     mr_role = gr_role m, mr_version = 1, mr_created_at = gr_created_at m, mr_updated_at = gr_updated_at m\<rparr>"
| "as_member _ = None"

fun as_room :: "snapshot \<Rightarrow> room_row option" where
  "as_room (SRoom r) = Some r"
| "as_room _ = None"

fun as_session :: "snapshot \<Rightarrow> session_row option" where
  "as_session (SSession x) = Some x"
| "as_session _ = None"

fun as_invitation :: "snapshot \<Rightarrow> invitation_row option" where
  "as_invitation (SInvitation i) = Some i"
| "as_invitation _ = None"

definition replay_row :: "(snapshot \<Rightarrow> 'r option) \<Rightarrow> ('r \<Rightarrow> uuid) \<Rightarrow> audit_row \<Rightarrow> 'r list \<Rightarrow> 'r list" where
  "replay_row get key a rs =
     (case (Option.bind (au_before a) get, Option.bind (au_after a) get) of
        (None, None) \<Rightarrow> rs
      | (None, Some r) \<Rightarrow> rs @ [r]
      | (Some b, Some r) \<Rightarrow> put_row key r rs
      | (Some b, None) \<Rightarrow> drop_row key (key b) rs)"

definition replay :: "(snapshot \<Rightarrow> 'r option) \<Rightarrow> ('r \<Rightarrow> uuid) \<Rightarrow> audit_row list \<Rightarrow> 'r list" where
  "replay get key log = fold (replay_row get key) log []"

lemma replay_snoc: "replay get key (log @ as) = fold (replay_row get key) as (replay get key log)"
  by (simp add: replay_def)

definition explained :: "db \<Rightarrow> bool" where
  "explained s = (t_events s = replay as_event er_id (t_audit s) \<and>
     t_members s = replay as_member mr_id (t_audit s) \<and>
     t_rooms s = replay as_room rr_id (t_audit s) \<and>
     t_sessions s = replay as_session sr_id (t_audit s) \<and>
     t_invitations s = replay as_invitation ir_id (t_audit s))"

lemmas explained_simps = replay_snoc replay_row_def audit_def grant_json_def new_admin_row_def

lemma tx_write_explained:
  assumes "explained s" "tx_write ci s s'"
  shows "explained s'"
  using assms(2)
proof (cases rule: tx_write_effect)
  case (other us xs cs ks)
  show ?thesis using assms(1) other(1) unfolding explained_def by (simp add: explained_simps)
next
  case (new_event g a inp)
  show ?thesis using assms(1) new_event(1) unfolding explained_def by (simp add: explained_simps)
next
  case (event k old new action actor i)
  show ?thesis using assms(1) event(3) unfolding explained_def by (simp add: explained_simps)
next
  case (new_member g a ev u role)
  show ?thesis using assms(1) new_member(2) unfolding explained_def by (simp add: explained_simps)
next
  case (member k old new i actor)
  show ?thesis using assms(1) member(6) unfolding explained_def by (simp add: explained_simps)
next
  case (member_gone k old i actor)
  show ?thesis using assms(1) member_gone(2,4) unfolding explained_def by (simp add: explained_simps)
next
  case (new_room g a ev ri)
  show ?thesis using assms(1) new_room(1) unfolding explained_def by (simp add: explained_simps)
next
  case (room k old new i actor)
  show ?thesis using assms(1) room(4) unfolding explained_def by (simp add: explained_simps)
next
  case (room_gone k old i actor)
  show ?thesis using assms(1) room_gone(1,3) unfolding explained_def by (simp add: explained_simps)
next
  case (new_session g a ev si rm)
  show ?thesis using assms(1) new_session(2) unfolding explained_def by (simp add: explained_simps)
next
  case (session k old new action actor i cs)
  show ?thesis using assms(1) session(5) unfolding explained_def by (simp add: explained_simps)
next
  case (new_invitation g a ev ii)
  show ?thesis using assms(1) new_invitation(2) unfolding explained_def by (simp add: explained_simps)
qed

lemma reachable_explained:
  assumes "reachable ci s"
  shows "explained s"
proof (rule reachable_invariant [THEN conjunct2, OF assms])
  show "explained empty_db" by (simp add: explained_def replay_def empty_db_def)
qed (blast intro: tx_write_explained)

end
