(* ===== verification/Demo.thy ===== *)
theory Demo
  imports Invariants
begin

text \<open>
  A concrete run of the backend, on which the properties are evaluated: Alice (user 1) signs in and
  creates an event (10), Bob (user 2) signs in and becomes a contributor, Alice adds a room (20), Bob
  books two sessions in it (30 and 31, back to back) and Alice invites a guest. E-mail addresses are compared as they are.
\<close>

definition demo_gen :: "nat \<Rightarrow> txgen" where
  "demo_gen i = \<lparr>g_now = int i, g_id = i, g_id2 = i + 100, g_audit_id = i + 200, g_audit_id2 = i + 300,
     g_exception_id = i + 400\<rparr>"

definition demo_event :: event_create_input where
  "demo_event = \<lparr>eci_name = ''Conf'', eci_description = None, eci_timezone = ''UTC'',
     eci_starts_at = 1000, eci_ends_at = 900000\<rparr>"

definition demo_session :: session_create_input where
  "demo_session = \<lparr>sci_room_id = 20, sci_speaker_id = 2, sci_title = ''Talk'', sci_description = None,
     sci_starts_at = 10000, sci_ends_at = 20000, sci_series_id = None\<rparr>"

definition demo_ops :: "op list" where
  "demo_ops =
     [OSignIn (demo_gen 1) ''sub-a'' ''a@x'' ''Alice'',
      OSignIn (demo_gen 2) ''sub-b'' ''b@x'' ''Bob'',
      OCreateEvent (demo_gen 10) 1 demo_event,
      OCreateMember (demo_gen 11) 1 10 \<lparr>mci_email = ''b@x'', mci_role = ''contributor''\<rparr>,
      OCreateRoom (demo_gen 20) 1 10 \<lparr>rci_name = ''R'', rci_capacity = Some 5\<rparr>,
      OCreateSession (demo_gen 30) 2 10 demo_session,
      OCreateSession (demo_gen 31) 2 10 (demo_session\<lparr>sci_starts_at := 20000, sci_ends_at := 30000\<rparr>),
      OCreateInvitation (demo_gen 40) 1 10 \<lparr>ici_email = ''g@x'', ici_role = ''attendee''\<rparr>]"

definition demo_db :: db where
  "demo_db = fold (apply_op id) demo_ops empty_db"

text \<open>The outcome of an evaluated operation, as an equation.\<close>

lemma run_ok:
  assumes "\<not> isl (fst p)"
  obtains r s' where "p = (Inr r, s')"
  using assms by (cases p; cases "fst p") auto

lemma reachable_fold: "reachable ci s \<Longrightarrow> reachable ci (fold (apply_op ci) ops s)"
  by (induction ops arbitrary: s) (auto intro: reachable.step)

lemma demo_reachable: "reachable id demo_db"
  unfolding demo_db_def by (rule reachable_fold [OF reachable.start])

lemma demo_ok: "db_ok id demo_db"
  by (rule reachable_db_ok [OF demo_reachable])

definition demo_event_row :: event_row where
  "demo_event_row = new_event_row (demo_gen 10) demo_event"
definition demo_admin_row :: event_member_row where
  "demo_admin_row = new_admin_row (demo_gen 10) 1"
definition demo_member_row :: event_member_row where
  "demo_member_row = new_member_row (demo_gen 11) 10 2 ''contributor''"
definition demo_room_row :: room_row where
  "demo_room_row = new_room_row (demo_gen 20) 10 \<lparr>rci_name = ''R'', rci_capacity = Some 5\<rparr>"
definition demo_session_row :: session_row where
  "demo_session_row = new_session_row (demo_gen 30) 10 demo_session"
definition demo_session_row2 :: session_row where
  "demo_session_row2 = new_session_row (demo_gen 31) 10 (demo_session\<lparr>sci_starts_at := 20000, sci_ends_at := 30000\<rparr>)"

definition demo_series :: series_create_input where
  "demo_series = \<lparr>sxi_room_id = 20, sxi_speaker_id = 2, sxi_title = ''Weekly'', sxi_description = None,
     sxi_first_starts_at = 30000, sxi_first_ends_at = 40000, sxi_freq = ''weekly'', sxi_interval_count = 1,
     sxi_occurrences = 2\<rparr>"

definition demo_room_patch :: room_patch where
  "demo_room_patch = \<lparr>rp_name = opt_of ''Main'', rp_capacity = opt_of None\<rparr>"

lemmas demo_defs = demo_gen_def demo_event_def demo_session_def demo_ops_def demo_db_def
  demo_event_row_def demo_admin_row_def demo_member_row_def demo_room_row_def demo_session_row_def demo_session_row2_def

lemma demo_tables:
  "t_events demo_db = [demo_event_row]"
  "t_members demo_db = [demo_admin_row, demo_member_row]"
  "t_rooms demo_db = [demo_room_row]"
  "t_sessions demo_db = [demo_session_row, demo_session_row2]"
  "length (t_invitations demo_db) = 1"
  "map usr_id (t_users demo_db) = [1, 2]"
  "map au_id (t_audit demo_db) = [210, 310, 211, 220, 230, 231, 240]"
  "t_series demo_db = []" "t_exceptions demo_db = []" "t_idempotency demo_db = []"
  by code_simp+

end
