(* ===== verification/Roles.thy ===== *)
theory Roles
  imports Demo
begin

text \<open>
  The abstract specification of who may do what on an event: a map from an event and a user to a
  role, and the four ways in which it may change. \<open>tx_write_refines\<close> says that every transaction of
  the detailed model is one of them or leaves the map alone.
\<close>

type_synonym roles = "uuid \<times> uuid \<rightharpoonup> string"

definition roles_of :: "db \<Rightarrow> roles" where
  "roles_of s = (\<lambda>(ev, u). member_role u ev s)"

definition keeps_admin :: "roles \<Rightarrow> uuid \<Rightarrow> uuid \<Rightarrow> bool" where
  "keeps_admin m ev u = (\<exists>v. v \<noteq> u \<and> m (ev, v) = Some ''admin'')"

inductive grant :: "roles \<Rightarrow> roles \<Rightarrow> bool" where
  found: "(\<And>u. m (ev, u) = None) \<Longrightarrow> grant m (m((ev, a) \<mapsto> ''admin''))"
| join: "m (ev, u) = None \<Longrightarrow> m (ev, a) = Some actor \<Longrightarrow> actor = ''admin'' \<or> role = ''attendee'' \<Longrightarrow>
     grant m (m((ev, u) \<mapsto> role))"
| reassign: "m (ev, u) = Some old \<Longrightarrow> old = ''admin'' \<longrightarrow> role = ''admin'' \<or> keeps_admin m ev u \<Longrightarrow>
     grant m (m((ev, u) \<mapsto> role))"
| leave: "m (ev, u) = Some old \<Longrightarrow> old = ''admin'' \<longrightarrow> keeps_admin m ev u \<Longrightarrow> grant m (m((ev, u) := None))"

section \<open>The abstraction of a member list\<close>

lemma member_role_in:
  assumes "members_ok U E (t_members s)" "x \<in> set (t_members s)"
  shows "member_role (mr_user_id x) (mr_event_id x) s = Some (mr_role x)"
proof -
  obtain y where y: "find (\<lambda>m. mr_event_id m = mr_event_id x \<and> mr_user_id m = mr_user_id x) (t_members s) = Some y"
    using assms(2) by (cases "find (\<lambda>m. mr_event_id m = mr_event_id x \<and> mr_user_id m = mr_user_id x) (t_members s)")
      (auto simp: find_None_iff)
  then have "y \<in> set (t_members s)" "mr_event_id y = mr_event_id x" "mr_user_id y = mr_user_id x"
    by (auto simp: find_Some_iff)
  then have "y = x" using assms by (auto simp: members_ok_def distinct_map dest: inj_onD)
  then show ?thesis using y by (simp add: member_role_def)
qed

lemma member_role_Some:
  assumes "members_ok U E (t_members s)"
  shows "member_role u ev s = Some role \<longleftrightarrow> (\<exists>x \<in> set (t_members s). mr_event_id x = ev \<and> mr_user_id x = u \<and> mr_role x = role)"
  using member_role_in [OF assms] by (auto simp: member_role_def find_Some_iff)

lemma member_role_None:
  "member_role u ev s = None \<longleftrightarrow> (\<forall>x \<in> set (t_members s). mr_event_id x = ev \<longrightarrow> mr_user_id x \<noteq> u)"
  by (auto simp: member_role_def find_None_iff)

lemma roles_eqI:
  assumes "members_ok U E (t_members s)" "\<And>ev u role. m (ev, u) = Some role \<longleftrightarrow>
    (\<exists>x \<in> set (t_members s). mr_event_id x = ev \<and> mr_user_id x = u \<and> mr_role x = role)"
  shows "roles_of s = m"
proof
  fix k :: "uuid \<times> uuid"
  obtain ev u where k: "k = (ev, u)" by (cases k)
  have "roles_of s k = Some role \<longleftrightarrow> m k = Some role" for role
    using member_role_Some [OF assms(1)] assms(2) by (simp add: k roles_of_def)
  then show "roles_of s k = m k" by (metis option.exhaust)
qed

lemma other_admin_keeps:
  assumes "members_ok U E (t_members s)" "lookup_row mr_id k (t_members s) = Some old" "other_admin (mr_event_id old) k s"
  shows "keeps_admin (roles_of s) (mr_event_id old) (mr_user_id old)"
proof -
  obtain x where x: "x \<in> set (t_members s)" "mr_event_id x = mr_event_id old" "mr_role x = ''admin''" "mr_id x \<noteq> k"
    using assms(3) by (auto simp: other_admin_def)
  have old: "old \<in> set (t_members s)" "mr_id old = k" using assms(2) lookup_row_Some by fastforce+
  then have "mr_user_id x \<noteq> mr_user_id old"
    using assms(1) x by (auto simp: members_ok_def distinct_map dest: inj_onD)
  then show ?thesis using member_role_in [OF assms(1) x(1)] x by (auto simp: keeps_admin_def roles_of_def)
qed

section \<open>Refinement\<close>

lemma roles_of_same: "t_members s' = t_members s \<Longrightarrow> roles_of s' = roles_of s"
  by (simp add: roles_of_def member_role_def)

lemma members_snoc:
  assumes "members_ok U E (ms @ [x])"
  shows "\<forall>y \<in> set ms. mr_event_id y = mr_event_id x \<longrightarrow> mr_user_id y \<noteq> mr_user_id x"
  using assms by (force simp: members_ok_def image_iff)

lemma roles_of_snoc:
  assumes "members_ok U E (t_members s')" "t_members s' = t_members s @ [x]"
  shows "roles_of s' = (roles_of s)((mr_event_id x, mr_user_id x) \<mapsto> mr_role x)"
    and "roles_of s (mr_event_id x, mr_user_id x) = None"
proof -
  have fresh: "\<forall>y \<in> set (t_members s). mr_event_id y = mr_event_id x \<longrightarrow> mr_user_id y \<noteq> mr_user_id x"
    using members_snoc [OF assms(1) [unfolded assms(2)]] .
  have "members_ok U E (t_members s)" using assms by (simp add: members_ok_def)
  from member_role_Some [OF this]
  show "roles_of s' = (roles_of s)((mr_event_id x, mr_user_id x) \<mapsto> mr_role x)"
    by (intro roles_eqI [OF assms(1)]) (use fresh in \<open>auto simp: roles_of_def assms(2)\<close>)
  show "roles_of s (mr_event_id x, mr_user_id x) = None"
    using fresh by (simp add: roles_of_def member_role_None)
qed

lemma roles_of_put:
  assumes "members_ok U E (t_members s)" "members_ok U' E' (t_members s')" "lookup_row mr_id (mr_id new) (t_members s) = Some old"
    and "t_members s' = put_row mr_id new (t_members s)" "mr_event_id new = mr_event_id old" "mr_user_id new = mr_user_id old"
  shows "roles_of s' = (roles_of s)((mr_event_id old, mr_user_id old) \<mapsto> mr_role new)"
proof -
  have set: "set (t_members s') = insert new (set (t_members s) - {old})"
    using assms(1,3,4) by (simp add: set_put_row members_ok_def)
  have "old \<in> set (t_members s)" using assms(3) lookup_row_Some by fastforce
  then have "x = old" if "x \<in> set (t_members s)" "mr_event_id x = mr_event_id old" "mr_user_id x = mr_user_id old" for x
    using that assms(1) by (auto simp: members_ok_def distinct_map dest: inj_onD)
  then show ?thesis
    using member_role_Some [OF assms(1)]
    by (intro roles_eqI [OF assms(2)]) (auto simp: roles_of_def set assms(5,6))
qed

lemma roles_of_drop:
  assumes "members_ok U E (t_members s)" "members_ok U' E' (t_members s')" "lookup_row mr_id k (t_members s) = Some old"
    and "t_members s' = drop_row mr_id k (t_members s)"
  shows "roles_of s' = (roles_of s)((mr_event_id old, mr_user_id old) := None)"
proof -
  have old: "old \<in> set (t_members s)" "mr_id old = k" using assms(3) lookup_row_Some by fastforce+
  then have "x = old" if "x \<in> set (t_members s)" "mr_event_id x = mr_event_id old \<and> mr_user_id x = mr_user_id old \<or> mr_id x = k" for x
    using that assms(1) by (auto simp: members_ok_def distinct_map dest: inj_onD)
  then show ?thesis
    using member_role_Some [OF assms(1)] old
    by (intro roles_eqI [OF assms(2)]) (auto simp: roles_of_def assms(4))
qed

lemma tx_write_refines:
  assumes "db_ok ci s" "tx_write ci s s'"
  shows "roles_of s' = roles_of s \<or> grant (roles_of s) (roles_of s')"
proof -
  have ok: "members_ok (user_ids s) (event_ids s) (t_members s)" "members_ok (user_ids s') (event_ids s') (t_members s')"
    and ev: "events_ok (t_events s')"
    using db_okD [OF assms(1)] db_okD [OF tx_write_ok [OF assms(2,1)]] by simp_all
  from assms(2) show ?thesis
  proof (cases rule: tx_write_effect)
    case (new_event g a inp)
    then have r: "roles_of s' = (roles_of s)((g_id g, a) \<mapsto> ''admin'')"
      using roles_of_snoc(1) [OF ok(2)] by (simp add: new_admin_row_def)
    have "g_id g \<notin> event_ids s" using ev new_event by (auto simp: events_ok_def new_event_row_def)
    moreover have "mr_event_id x \<in> event_ids s" if "x \<in> set (t_members s)" for x
      using ok(1) that by (simp add: members_ok_def)
    ultimately have "roles_of s (g_id g, u) = None" for u
      unfolding roles_of_def prod.case member_role_None by metis
    then show ?thesis unfolding r by (blast intro: grant.found)
  next
    case (new_member g a ev u role)
    let ?x = "new_member_row g ev u role"
    have r: "roles_of s' = (roles_of s)((ev, u) \<mapsto> role)" "roles_of s (ev, u) = None"
      using roles_of_snoc [OF ok(2), of s ?x] new_member(2) by (simp_all add: new_member_row_def)
    obtain actor where "roles_of s (ev, a) = Some actor" "actor = ''admin'' \<or> role = ''attendee''"
      using new_member(1) by (auto simp: can_grant_role_def roles_of_def split: option.splits)
    then show ?thesis using r grant.join by metis
  next
    case (member k old new i actor)
    then have r: "roles_of s' = (roles_of s)((mr_event_id old, mr_user_id old) \<mapsto> mr_role new)"
      by (intro roles_of_put [OF ok]) simp_all
    have "old \<in> set (t_members s)" using member(1) lookup_row_Some by fastforce
    then have o: "roles_of s (mr_event_id old, mr_user_id old) = Some (mr_role old)"
      using member_role_in [OF ok(1)] by (simp add: roles_of_def)
    show ?thesis unfolding r
      using grant.reassign [of "roles_of s" "mr_event_id old" "mr_user_id old", OF o] member(5) other_admin_keeps [OF ok(1) member(1)] by (auto simp: guarded_def)
  next
    case (member_gone k old i actor)
    then have r: "roles_of s' = (roles_of s)((mr_event_id old, mr_user_id old) := None)"
      by (intro roles_of_drop [OF ok]) simp_all
    have "old \<in> set (t_members s)" using member_gone(1) lookup_row_Some by fastforce
    then have o: "roles_of s (mr_event_id old, mr_user_id old) = Some (mr_role old)"
      using member_role_in [OF ok(1)] by (simp add: roles_of_def)
    show ?thesis unfolding r
      using grant.leave [of "roles_of s" "mr_event_id old" "mr_user_id old", OF o] member_gone(3) other_admin_keeps [OF ok(1) member_gone(1)] by (auto simp: guarded_def)
  qed (rule disjI1, rule roles_of_same, simp)+
qed

lemma tx_writes_refine:
  assumes "tx_writes ci s s'" "db_ok ci s"
  shows "grant\<^sup>*\<^sup>* (roles_of s) (roles_of s')"
  using assms
proof (induction rule: converse_rtranclp_induct)
  case (step t u)
  then show ?case using tx_write_refines [of ci t u] tx_write_ok by (metis converse_rtranclp_into_rtranclp)
qed simp

end
