(* ===== verification/Journeys.thy ===== *)
theory Journeys
  imports Access Roles
begin

text \<open>
  What a request leaves for the next one: the answers that follow from an earlier answer, across the
  mux, the middleware, a handler and the tables.
\<close>

section \<open>Routes by name\<close>

lemma named_routes:
  "find_route ''POST'' [''v1'', ''events''] (NewRouter env gs) =
     Some (Handle ''POST'' events_path Signed_In (CreateEvent env gs))"
  "e \<noteq> [] \<Longrightarrow> find_route ''GET'' [''v1'', ''events'', e] (NewRouter env gs) =
     Some (Handle ''GET'' (event_path []) (Permitted ResourceEvent ActionRead) (GetEvent env))"
  "e \<noteq> [] \<Longrightarrow> find_route ''PATCH'' [''v1'', ''events'', e] (NewRouter env gs) =
     Some (Handle ''PATCH'' (event_path []) (Permitted ResourceEvent ActionUpdate) (PatchEvent env gs))"
  "e \<noteq> [] \<Longrightarrow> k \<noteq> [] \<Longrightarrow> find_route ''DELETE'' [''v1'', ''events'', e, ''members'', k] (NewRouter env gs) =
     Some (Handle ''DELETE'' (event_path [Lit ''members'', Wild ''memberId'']) (Permitted ResourceMember ActionDelete)
       (RemoveMember env gs))"
  by (simp_all add: find_route_def takes_method_def route_defs event_path_def events_path_def)

lemma serve_permitted:
  assumes "find_route m (''v1'' # ''events'' # e # xs) (NewRouter env gs) = Some r" "ro_guard r = Permitted res act"
    and "caller env (gs 0) rq s = Some (u, s1)" "en_uuid env e = Some ev" "member_role (usr_id u) ev s1 = Some role"
    and "perm role (resource_text res) (action_text act) \<in> set (po_permissions p)"
  shows "ServeHTTP env p gs m (''v1'' # ''events'' # e # xs) rq s =
    ro_handler r ((path_request r (''v1'' # ''events'' # e # xs) rq)\<lparr>rq_user := Some u, rq_role := Some role\<rparr>) s1"
proof -
  from assms(1) obtain res' act' where "e \<noteq> []"
    "PathValue (path_request r (''v1'' # ''events'' # e # xs) rq) ''eventId'' = e" by (rule event_route)
  then show ?thesis
    using assms by (simp add: ServeHTTP_def behind_def Auth_caller Authz_def Can_def bind_uuid_def PathValue_def Let_def)
qed

lemma outsider_forbidden:
  assumes "caller env (gs 0) rq s = Some (u, s1)" "member_role (usr_id u) ev s1 = None" "en_uuid env e = Some ev"
    and "find_route m (''v1'' # ''events'' # e # xs) (NewRouter env gs) = Some r"
  shows "ServeHTTP env p gs m (''v1'' # ''events'' # e # xs) rq s = (writeForbidden, s1)"
proof -
  from assms(4) obtain res act where "ro_guard r = Permitted res act" "e \<noteq> []"
    "PathValue (path_request r (''v1'' # ''events'' # e # xs) rq) ''eventId'' = e" by (rule event_route)
  then show ?thesis
    using assms by (simp add: ServeHTTP_def behind_def Auth_caller Authz_def Can_def bind_uuid_def PathValue_def Let_def)
qed

section \<open>The caller again\<close>

lemma caller_again:
  assumes "caller env g rq s = Some (u, s1)" "t_users s' = t_users s1" "bearerToken rq' = bearerToken rq"
  shows "caller env g' rq' s' = Some (u, s')"
proof -
  obtain token c where t: "bearerToken rq = Some token" "Verify env token = Inr c"
    and get: "user_get_or_create_by_subject (en_ci env) g (cl_subject c) (cl_email c) (cl_name c) s = (Inr u, s1)"
    using assms(1) by (auto simp: caller_def service_get_or_create_by_subject_def split: option.splits sum.splits prod.splits)
  from get have "user_by_subject (cl_subject c) s1 = Some u" using user_get_or_create_result by blast
  then have "user_by_subject (cl_subject c) s' = Some u" using assms(2) by (simp add: user_by_subject_def)
  from user_get_or_create_existing [OF this]
  show ?thesis using t assms(3) by (simp add: caller_def service_get_or_create_by_subject_def)
qed

section \<open>Handlers that succeeded\<close>

lemma CreateEvent_created:
  assumes "CreateEvent env gs rq s = (a, s')" "rs_status a = 201" "rq_user rq = Some u"
  obtains inp created where "event_create (gs 1) (usr_id u) inp s = (Inr created, s')"
    "rs_body a = EventBody (NewEventResponse created)"
  using assms
  by (auto simp: CreateEvent_def handler_steps service_create_event_def writeInternalError_def
      writeValidationError_def WriteError_def writeJSON_def split: option.splits if_splits prod.splits sum.splits)

lemma RemoveMember_removed:
  assumes "RemoveMember env gs rq s = (a, s')" "rs_status a = 204"
  obtains u ev k v where "en_uuid env (PathValue rq ''eventId'') = Some ev" "en_uuid env (PathValue rq ''memberId'') = Some k"
    "member_delete (gs 1) u ev k v s = (Inr (), s')"
proof -
  have "rs_status (writeAssignOrRemoveError env callerRole e k err t) \<noteq> 204" for callerRole e k err t
    by (cases err) (simp_all add: writeAssignOrRemoveError_def writeInternalError_def WriteError_def)
  then show thesis
    using assms that
    by (auto simp: RemoveMember_def handler_steps service_remove_member_def writeInternalError_def
        writeValidationError_def WriteError_def bound_def bind_gated_def bind_item_def bind_uuid_def bind_int_def and_then_Inr_iff
        split: option.splits if_splits prod.splits sum.splits)
qed

end
