(* ===== verification/Demo_Http.thy ===== *)
theory Demo_Http
  imports Journeys Demo
begin

text \<open>
  A concrete environment for requests to the demo database: tokens \<open>a\<close>, \<open>b\<close> and \<open>c\<close> belong to Alice,
  Bob and Carol (who has not signed in yet), identifiers are written in decimal, and the zone
  database knows Berlin around the autumn of 2026.
\<close>

definition demo_oidc :: "string \<Rightarrow> string option" where
  \<open>demo_oidc token =
     (if token = ''a'' then Some ''{"sub":"sub-a","email":"a@x","name":"Alice"}''
      else if token = ''b'' then Some ''{"sub":"sub-b","email":"b@x","name":"Bob"}''
      else if token = ''c'' then Some ''{"sub":"sub-c","email":"c@x","name":"Carol"}'' else None)\<close>

definition demo_uuid :: "string \<Rightarrow> uuid option" where
  "demo_uuid t = (case digits_val t of Some n \<Rightarrow> Some (nat n) | None \<Rightarrow> None)"

text \<open>Until 2026-10-25T01:00:00Z Berlin is two hours ahead of UTC, then one.\<close>

definition demo_berlin :: location where
  "demo_berlin = zone_lookup 63910342800 7200 [(63928486800, 3600)]"

definition demo_env :: env where
  "demo_env = \<lparr>en_ci = id, en_oidc = demo_oidc,
     en_zoneinfo = (\<lambda>name. if name = ''Europe/Berlin'' then Some demo_berlin else None), en_host = utc,
     en_uuid = demo_uuid, en_text = decimal, en_sha256 = id, en_ping = True\<rparr>"

definition demo_request :: "string \<Rightarrow> string \<Rightarrow> request" where
  "demo_request token json = \<lparr>rq_authorization = ''Bearer '' @ token, rq_idempotency_key = ''k'', rq_path = [],
     rq_query = [], rq_body = json, rq_user = None, rq_role = None\<rparr>"

definition demo_policy :: policy where
  "demo_policy = \<lparr>po_permissions = remdups role_permissions\<rparr>"

definition demo_gens :: "nat \<Rightarrow> txgen" where
  "demo_gens i = demo_gen (50 + i)"

lemma demo_parts [simp]: "en_ci demo_env = id" "en_oidc demo_env = demo_oidc" "en_host demo_env = utc"
  "en_uuid demo_env = demo_uuid" "en_text demo_env = decimal"
  by (simp_all add: demo_env_def)

lemma demo_new_policy: "NewPolicy role_permissions = Inr demo_policy"
proof -
  have "validateRoleCoverage (loadPermissions role_permissions) knownRoles = None" by code_simp
  then show ?thesis by (simp add: NewPolicy_def demo_policy_def loadPermissions_def Let_def)
qed

definition demo_serve :: "string \<Rightarrow> string \<Rightarrow> string list \<Rightarrow> string \<Rightarrow> db \<Rightarrow> http_response \<times> db" where
  "demo_serve token m path json = ServeHTTP demo_env demo_policy demo_gens m path (demo_request token json)"

text \<open>Alice and Bob have signed in, Carol has not.\<close>

definition demo_alice :: user where
  "demo_alice = \<lparr>usr_id = 1, usr_subject = ''sub-a'', usr_email = ''a@x'', usr_name = ''Alice'',
     usr_created_at = 1, usr_updated_at = 1\<rparr>"

definition demo_carol :: "txgen \<Rightarrow> user" where
  "demo_carol g = \<lparr>usr_id = g_id g, usr_subject = ''sub-c'', usr_email = ''c@x'', usr_name = ''Carol'',
     usr_created_at = g_now g, usr_updated_at = g_now g\<rparr>"

lemma demo_alice_known: "user_by_subject ''sub-a'' demo_db = Some demo_alice"
  by code_simp

lemma demo_verify_a:
  "Verify demo_env ''a'' = Inr \<lparr>cl_subject = ''sub-a'', cl_email = ''a@x'', cl_name = ''Alice''\<rparr>"
  by code_simp

lemma demo_verify_b:
  "Verify demo_env ''b'' = Inr \<lparr>cl_subject = ''sub-b'', cl_email = ''b@x'', cl_name = ''Bob''\<rparr>"
  by code_simp

lemma demo_verify_c:
  "Verify demo_env ''c'' = Inr \<lparr>cl_subject = ''sub-c'', cl_email = ''c@x'', cl_name = ''Carol''\<rparr>"
  by code_simp

lemma demo_bearer: "token \<noteq> [] \<Longrightarrow> bearerToken (demo_request token json) = Some token"
  by (simp add: bearerToken_def bearerPrefix_def demo_request_def)

lemma demo_caller_known:
  assumes "bearerToken rq = Some token" "Verify demo_env token = Inr c" "user_by_subject (cl_subject c) s = Some u"
  shows "caller demo_env g rq s = Some (u, s)"
  using assms user_get_or_create_existing by (simp add: caller_def service_get_or_create_by_subject_def)

lemmas demo_caller_alice =
  demo_caller_known [OF demo_bearer [of "''a''"] demo_verify_a, simplified, OF demo_alice_known]

lemma demo_caller_carol:
  "caller demo_env (demo_gen 50) (demo_request ''c'' json) demo_db =
     Some (demo_carol (demo_gen 50), demo_db\<lparr>t_users := t_users demo_db @ [demo_carol (demo_gen 50)]\<rparr>)"
proof -
  have "\<not> isl (insert_user id (demo_carol (demo_gen 50)) demo_db)" and new: "user_by_subject ''sub-c'' demo_db = None"
    by code_simp+
  then obtain t where "insert_user id (demo_carol (demo_gen 50)) demo_db = Inr t"
    by (cases "insert_user id (demo_carol (demo_gen 50)) demo_db") auto
  then have "insert_user id (demo_carol (demo_gen 50)) demo_db =
      Inr (demo_db\<lparr>t_users := t_users demo_db @ [demo_carol (demo_gen 50)]\<rparr>)"
    by (simp add: insert_user_Inr)
  moreover have "''sub-c'' \<notin> usr_subject ` set (t_users demo_db)" using new by (simp add: user_by_subject_None)
  ultimately have "user_get_or_create_by_subject id (demo_gen 50) ''sub-c'' ''c@x'' ''Carol'' demo_db =
      (Inr (demo_carol (demo_gen 50)), demo_db\<lparr>t_users := t_users demo_db @ [demo_carol (demo_gen 50)]\<rparr>)"
    by (simp add: user_get_or_create_by_subject_def Let_def demo_carol_def)
  then show ?thesis
    by (simp add: caller_def demo_bearer demo_verify_c service_get_or_create_by_subject_def demo_parts)
qed

lemma demo_ids: "demo_uuid ''10'' = Some 10" "demo_uuid ''11'' = Some 11" "demo_uuid ''99'' = Some 99"
  by code_simp+

lemma demo_roles: "member_role 1 10 demo_db = Some ''admin''" "member_role 2 10 demo_db = Some ''contributor''"
  by (simp_all add: member_role_def demo_tables demo_admin_row_def demo_member_row_def new_admin_row_def new_member_row_def demo_gen_def)

lemma demo_bearer_query: "bearerToken ((demo_request token json)\<lparr>rq_query := q\<rparr>) = bearerToken (demo_request token json)"
  by (simp add: bearerToken_def)

section \<open>Bodies and states of the examples\<close>

definition demo_rename :: string where
  \<open>demo_rename = ''{"version":1,"name":"X"}''\<close>

definition demo_stale :: string where
  \<open>demo_stale = ''{"version":7,"name":"X"}''\<close>

definition demo_stale_patch :: patch_event_request where
  "demo_stale_patch = patch_event_zero\<lparr>per_version := 7, per_name := opt_of ''X''\<rparr>"

definition demo_new_event :: string where
  \<open>demo_new_event = ''{"name":"N","timezone":"UTC","starts_at":"2026-01-01T10:00:00Z","ends_at":"2026-01-01T11:00:00Z"}''\<close>

text \<open>Alice has handed her event to Bob and stayed as an attendee.\<close>

definition demo_left :: db where
  "demo_left = demo_db\<lparr>t_members := [demo_admin_row\<lparr>mr_role := ''attendee''\<rparr>, demo_member_row\<lparr>mr_role := ''admin''\<rparr>]\<rparr>"

lemma demo_caller_left:
  "caller demo_env g ((demo_request ''a'' json)\<lparr>rq_query := q\<rparr>) demo_left = Some (demo_alice, demo_left)"
  by (rule demo_caller_known [OF _ demo_verify_a])
    (use demo_alice_known in \<open>simp_all add: demo_bearer_query demo_bearer demo_left_def user_by_subject_def\<close>)

lemma demo_left_role: "member_role (usr_id demo_alice) 10 demo_left = Some ''attendee''"
  by (simp add: member_role_def demo_left_def demo_alice_def demo_admin_row_def new_admin_row_def demo_gen_def)

lemma demo_one_change: "one_change demo_berlin 63928492200 63928486800 7200 3600"
  unfolding one_change_def
  by (intro conjI exI [of _ 63910342800] exI [of _ 9223372036854775807]) (simp_all add: demo_berlin_def)

end
