(* ===== verification/Event_Lock.thy ===== *)
theory Event_Lock
  imports Demo
begin

text \<open>
  AssignRole and Delete of internal/adapter/postgres/member_repo.go as concurrent transactions.
  Each first takes \<open>SELECT .. FOR UPDATE\<close> on the event's row, then runs its guarded statement
  against what is committed at that moment (READ COMMITTED) and inserts its audit row, and only its
  COMMIT makes both visible and lets the lock go. The theory interleaves any number of them with
  each other and with every other transaction of the backend, and shows that the result is one
  that some serial order gives, which is what Member_Repo, System and Invariants work with.
  The other transactions take effect at their COMMIT, in one step.
\<close>

section \<open>Transactions in flight\<close>

text \<open>A call: what it does, the event and the member of its path, the version it names.\<close>

type_synonym role_job = "member_write_op \<times> uuid \<times> uuid \<times> int"

abbreviation job_event :: "role_job \<Rightarrow> uuid" where
  "job_event j \<equiv> fst (snd j)"

text \<open>
  Where a transaction is: about to take the lock, past it (\<open>afterEventLock\<close>), or with its
  statement and its audit row done but not committed; \<open>Written\<close> keeps \<open>before_row\<close>.
\<close>

datatype phase = Waiting | Locked | Written event_member_row

record config =
  cf_db :: db
  cf_locks :: "uuid \<rightharpoonup> nat"
  cf_jobs :: "nat \<rightharpoonup> role_job \<times> phase"

fun write_after_row :: "member_write_op \<Rightarrow> event_member_row \<Rightarrow> event_member_row option" where
  "write_after_row (MAssign g actorID role) old = Some (member_set g role old)"
| "write_after_row (MRemove g actorID) old = None"

fun write_audit_row :: "member_write_op \<Rightarrow> event_member_row \<Rightarrow> audit_row" where
  "write_audit_row (MAssign g actorID role) old =
     audit (g_audit_id g) actorID ''event_member'' (mr_id old) ''update'' (Some (SMember old)) (Some (SMember (member_set g role old)))"
| "write_audit_row (MRemove g actorID) old =
     audit (g_audit_id g) actorID ''event_member'' (mr_id old) ''delete'' (Some (SMember old)) None"

text \<open>What COMMIT makes visible.\<close>

definition commit_write :: "member_write_op \<Rightarrow> event_member_row \<Rightarrow> db \<Rightarrow> db" where
  "commit_write w old s =
     s\<lparr>t_members := (case write_after_row w old of
                       None \<Rightarrow> drop_row mr_id (mr_id old) (t_members s)
                     | Some new \<Rightarrow> put_row mr_id new (t_members s)),
       t_audit := t_audit s @ [write_audit_row w old]\<rparr>"

text \<open>COMMIT and ROLLBACK release the row locks of the transaction.\<close>

definition finish :: "nat \<Rightarrow> config \<Rightarrow> config" where
  "finish t c = c\<lparr>cf_locks := (\<lambda>ev. if cf_locks c ev = Some t then None else cf_locks c ev),
                  cf_jobs := (cf_jobs c)(t := None)\<rparr>"

definition pending_audit :: "config \<Rightarrow> uuid set" where
  "pending_audit c = {au_id (write_audit_row w old) | t w ev k v old. cf_jobs c t = Some ((w, ev, k, v), Written old)}"

definition audit_ids :: "db \<Rightarrow> uuid set" where
  "audit_ids s = au_id ` set (t_audit s)"

text \<open>
  One step of a call. \<open>miss\<close>: the event does not exist, so FOR UPDATE locks nothing and the statement
  still runs. \<open>store\<close>: a second insert of an audit id that is not committed yet would wait.
  Around the calls, more of them \<open>arrive\<close>, and some \<open>quit\<close>: the client went away or the
  connection broke, and the deferred Rollback runs. \<open>other\<close>: any other transaction commits; it inserts memberships at most (see
  \<open>other_writes\<close>) and gives a new event an id that no call in flight could have named.
\<close>

inductive call_step :: "config \<Rightarrow> config \<Rightarrow> bool" where
  lock: "cf_jobs c t = Some (j, Waiting) \<Longrightarrow> job_event j \<in> event_ids (cf_db c) \<Longrightarrow> cf_locks c (job_event j) = None \<Longrightarrow>
    call_step c (c\<lparr>cf_locks := (cf_locks c)(job_event j \<mapsto> t), cf_jobs := (cf_jobs c)(t \<mapsto> (j, Locked))\<rparr>)"
| miss: "cf_jobs c t = Some (j, Waiting) \<Longrightarrow> job_event j \<notin> event_ids (cf_db c) \<Longrightarrow>
    call_step c (c\<lparr>cf_jobs := (cf_jobs c)(t \<mapsto> (j, Locked))\<rparr>)"
| store: "cf_jobs c t = Some ((w, ev, k, v), Locked) \<Longrightarrow> member_write w (ev, k) v (cf_db c) = (Inr r, s') \<Longrightarrow>
    find_member ev k (cf_db c) = Some old \<Longrightarrow> au_id (write_audit_row w old) \<notin> pending_audit c \<Longrightarrow>
    call_step c (c\<lparr>cf_jobs := (cf_jobs c)(t \<mapsto> ((w, ev, k, v), Written old))\<rparr>)"
| refuse: "cf_jobs c t = Some ((w, ev, k, v), Locked) \<Longrightarrow> member_write w (ev, k) v (cf_db c) = (Inl e, s') \<Longrightarrow>
    call_step c (finish t c)"
| commit: "cf_jobs c t = Some ((w, ev, k, v), Written old) \<Longrightarrow>
    call_step c (finish t (c\<lparr>cf_db := commit_write w old (cf_db c)\<rparr>))"

inductive lock_step :: "(string \<Rightarrow> string) \<Rightarrow> config \<Rightarrow> config \<Rightarrow> bool" for ci where
  call: "call_step c c' \<Longrightarrow> lock_step ci c c'"
| arrive: "cf_jobs c t = None \<Longrightarrow> lock_step ci c (c\<lparr>cf_jobs := (cf_jobs c)(t \<mapsto> (j, Waiting))\<rparr>)"
| quit: "cf_jobs c t = Some (j, ph) \<Longrightarrow> lock_step ci c (finish t c)"
| other: "tx_write ci (cf_db c) s' \<Longrightarrow> t_members s' = t_members (cf_db c) @ ms \<Longrightarrow>
    \<forall>t j ph. cf_jobs c t = Some (j, ph) \<longrightarrow> job_event j \<in> event_ids s' \<longrightarrow> job_event j \<in> event_ids (cf_db c) \<Longrightarrow>
    pending_audit c \<inter> audit_ids s' = {} \<Longrightarrow>
    lock_step ci c (c\<lparr>cf_db := s'\<rparr>)"

definition quiet :: "db \<Rightarrow> config" where
  "quiet s = \<lparr>cf_db = s, cf_locks = Map.empty, cf_jobs = Map.empty\<rparr>"

abbreviation interleaved :: "(string \<Rightarrow> string) \<Rightarrow> db \<Rightarrow> config \<Rightarrow> bool" where
  "interleaved ci s \<equiv> (lock_step ci)\<^sup>*\<^sup>* (quiet s)"

text \<open>\<open>other\<close> leaves out the two operations modelled step by step, and nothing else.\<close>

lemma other_writes:
  assumes "tx_write ci s s'"
  obtains (appends) ms where "t_members s' = t_members s @ ms" "user_ids s \<subseteq> user_ids s'"
  | (role_write) w ev k v where "member_write w (ev, k) v s = (Inr (), s')"
proof (cases "\<exists>w ev k v. member_write w (ev, k) v s = (Inr (), s')")
  case False
  have same: ?thesis if "t_members s' = t_members s" "t_users s' = t_users s"
    using that by (intro appends [of "[]"]) simp_all
  from assms show ?thesis
  proof cases
    case (sign_in g subject email name u)
    then have "user_ids s \<subseteq> user_ids s'" using user_get_or_create_result [of ci g] by (fastforce simp: insert_user_Inr)
    then show ?thesis using sign_in by - (erule user_write_frame, rule appends [of "[]"], auto)
  next
    case (create_event g a inp e)
    then show ?thesis using event_create_frame [of g a inp s e s'] by (intro appends) simp_all
  next
    case (write_event w k v e)
    then show ?thesis by (rule event_write_frame) (rule same, simp_all)
  next
    case (create_member g a ev mi m)
    then show ?thesis by (rule member_create_frame) (rule appends, simp_all)
  next
    case (write_member w k v u1)
    then show ?thesis using False by (cases k) auto
  next
    case (create_room g a ev ri r)
    then show ?thesis using room_create_frame [of g a ev ri s r s'] by (intro same) simp_all
  next
    case (write_room w k v u2)
    then show ?thesis by (cases k) (hypsubst, erule room_write_frame, (rule same, simp_all)+)
  next
    case (create_session g a ev si x)
    then show ?thesis using session_create_frame [of g a ev si s x s'] by (intro same) simp_all
  next
    case (write_session w k v x)
    then show ?thesis by (cases k) (hypsubst, erule session_write_frame, rule same, simp_all)
  next
    case (create_series xr)
    then show ?thesis by (intro same) (auto simp: insert_series_Inr)
  next
    case (create_invitation g a ev ii i)
    then show ?thesis using invitation_create_frame [of ci g a ev ii s i s'] by (intro same) simp_all
  next
    case (record_key kr b)
    then obtain ks where "s' = s\<lparr>t_idempotency := ks\<rparr>" using record_key_frame by blast
    then show ?thesis by (intro same) simp_all
  qed
qed (use role_write in blast)

section \<open>What a statement decided stays decided\<close>

fun stays_admin :: "member_write_op \<Rightarrow> bool" where
  "stays_admin (MAssign g actorID role) = (role = ''admin'')"
| "stays_admin (MRemove g actorID) = False"

fun role_known :: "member_write_op \<Rightarrow> bool" where
  "role_known (MAssign g actorID role) = (role \<in> set knownRoles)"
| "role_known (MRemove g actorID) = True"

lemma find_member_event: "find_member ev k s = Some old \<Longrightarrow> mr_event_id old = ev \<and> mr_id old = k"
  using find_member_in by blast

lemma member_write_assign:
  "member_write (MAssign g actorID role) (ev, k) v s = (Inr r, s') \<longleftrightarrow>
     (\<exists>m. member_assign_role g actorID ev k v role s = (Inr m, s'))"
  by (cases "member_assign_role g actorID ev k v role s"; cases "fst (member_assign_role g actorID ev k v role s)") auto

lemma member_write_iff:
  "member_write w (ev, k) v s = (Inr r, s') \<longleftrightarrow>
     (\<exists>old. find_member ev k s = Some old \<and> mr_version old = v \<and> guarded k old (stays_admin w) s \<and> role_known w \<and>
        au_id (write_audit_row w old) \<notin> audit_ids s \<and> au_actor_id (write_audit_row w old) \<in> user_ids s \<and>
        s' = commit_write w old s)"
proof (cases "find_member ev k s")
  case (Some old)
  then have k: "mr_event_id old = ev" "mr_id old = k" by (simp_all add: find_member_event)
  show ?thesis
  proof (cases w)
    case (MAssign g actorID role)
    then show ?thesis unfolding MAssign member_write_assign
      by (auto simp: Some k member_assign_role_Inr stmt_Inr audit_ids_def commit_write_def guarded_def member_set_def)
  next
    case (MRemove g actorID)
    then show ?thesis
      by (auto simp: Some k member_delete_Inr stmt_Inr delete_member_def audit_ids_def commit_write_def guarded_def)
  qed
next
  case None
  then show ?thesis by (cases w) (simp_all add: member_write_assign member_assign_role_Inr member_delete_Inr del: member_write.simps(1))
qed

text \<open>
  The guard, the version and the foreign key of the audit row survive any change that keeps the
  row and the other admins of its event, so committing later has the same outcome.
\<close>

definition same_event :: "uuid \<Rightarrow> uuid \<Rightarrow> db \<Rightarrow> db \<Rightarrow> bool" where
  "same_event ev k s s' = (lookup_row mr_id k (t_members s') = lookup_row mr_id k (t_members s) \<and>
     (other_admin ev k s \<longrightarrow> other_admin ev k s') \<and> user_ids s \<subseteq> user_ids s')"

lemma still_writes:
  assumes "member_write w (ev, k) v s = (Inr r, commit_write w old s)" "find_member ev k s = Some old"
    and "same_event ev k s s'" "au_id (write_audit_row w old) \<notin> audit_ids s'"
  shows "member_write w (ev, k) v s' = (Inr r, commit_write w old s')"
proof -
  have "find_member ev k s' = Some old" "mr_event_id old = ev"
    using assms(2,3) find_member_event [OF assms(2)] by (auto simp: same_event_def find_member_def)
  moreover from assms(1,2) have "mr_version old = v" "guarded k old (stays_admin w) s" "role_known w"
      "au_actor_id (write_audit_row w old) \<in> user_ids s"
    unfolding member_write_iff by auto
  ultimately show ?thesis
    using assms(3,4) unfolding member_write_iff by (auto simp: guarded_def same_event_def)
qed

lemma same_event_append:
  assumes "t_members s' = t_members s @ ms" "lookup_row mr_id k (t_members s) = Some old" "user_ids s \<subseteq> user_ids s'"
  shows "same_event ev k s s'"
  using assms by (auto simp: same_event_def lookup_row_append other_admin_def)

lemma commit_write_simps [simp]:
  "t_users (commit_write w old s) = t_users s" "t_events (commit_write w old s) = t_events s"
  "audit_ids (commit_write w old s) = insert (au_id (write_audit_row w old)) (audit_ids s)"
  by (simp_all add: commit_write_def audit_ids_def)

lemma commit_write_rest:
  "k \<noteq> mr_id old \<Longrightarrow> lookup_row mr_id k (t_members (commit_write w old s)) = lookup_row mr_id k (t_members s)"
  "mr_id x \<noteq> mr_id old \<Longrightarrow> x \<in> set (t_members s) \<Longrightarrow> x \<in> set (t_members (commit_write w old s))"
  by (cases w; simp add: commit_write_def member_set_def lookup_put_row lookup_drop_row)
    (cases w; simp add: commit_write_def member_set_def put_row_keeps)

lemma same_event_commit:
  assumes "db_ok ci s" "find_member ev' k' s = Some old'" "find_member ev k s = Some old" "ev \<noteq> ev'"
  shows "same_event ev k s (commit_write w old' s)"
proof -
  have row: "mr_event_id old' = ev'" "lookup_row mr_id (mr_id old') (t_members s) = Some old'" and "k \<noteq> mr_id old'"
    using assms(2-4) find_member_event [OF assms(2)] by (auto simp: find_member_Some)
  have "mr_id x \<noteq> mr_id old'" if "x \<in> set (t_members s)" "mr_event_id x = ev" for x
  proof
    assume same: "mr_id x = mr_id old'"
    have "lookup_row mr_id (mr_id old') (t_members s) = Some x"
      using lookup_row_in [of mr_id "t_members s" x] that(1) db_okD(3) [OF assms(1)]
      unfolding members_ok_def same [symmetric] by blast
    then show False using row(1,2) that(2) assms(4) by simp
  qed
  then show ?thesis
    using \<open>k \<noteq> mr_id old'\<close> by (auto simp: same_event_def other_admin_def commit_write_rest)
qed

section \<open>Every interleaving is a serial run\<close>

text \<open>
  Past the lock of an existing event means holding it, a lock has a holder that has not finished,
  and what a statement decided against an older state is what it would decide now.
\<close>

definition holds_lock :: "config \<Rightarrow> bool" where
  "holds_lock c = (\<forall>t j ph. cf_jobs c t = Some (j, ph) \<longrightarrow> ph \<noteq> Waiting \<longrightarrow> job_event j \<in> event_ids (cf_db c) \<longrightarrow>
     cf_locks c (job_event j) = Some t)"

definition locks_held :: "config \<Rightarrow> bool" where
  "locks_held c = (\<forall>ev t. cf_locks c ev = Some t \<longrightarrow> map_option snd (cf_jobs c t) \<notin> {None, Some Waiting})"

definition written :: "config \<Rightarrow> nat \<Rightarrow> member_write_op \<Rightarrow> uuid \<Rightarrow> uuid \<Rightarrow> int \<Rightarrow> event_member_row \<Rightarrow> bool" where
  "written c t w ev k v old = (cf_jobs c t = Some ((w, ev, k, v), Written old))"

definition still_decided :: "config \<Rightarrow> bool" where
  "still_decided c = (\<forall>t w ev k v old. written c t w ev k v old \<longrightarrow>
     find_member ev k (cf_db c) = Some old \<and> member_write w (ev, k) v (cf_db c) = (Inr (), commit_write w old (cf_db c)))"

definition audits_apart :: "config \<Rightarrow> bool" where
  "audits_apart c = (\<forall>t w ev k v old t' w' ev' k' v' old'. written c t w ev k v old \<longrightarrow> written c t' w' ev' k' v' old' \<longrightarrow>
     t \<noteq> t' \<longrightarrow> au_id (write_audit_row w old) \<noteq> au_id (write_audit_row w' old'))"

definition lock_inv :: "config \<Rightarrow> bool" where
  "lock_inv c = (holds_lock c \<and> locks_held c \<and> still_decided c \<and> audits_apart c)"

lemma finish_simps [simp]:
  "cf_db (finish t c) = cf_db c" "cf_jobs (finish t c) = (cf_jobs c)(t := None)"
  "cf_locks (finish t c) ev = (if cf_locks c ev = Some t then None else cf_locks c ev)"
  by (simp_all add: finish_def)

lemma written_finish: "written (finish t c) t' w ev k v old \<longleftrightarrow> t' \<noteq> t \<and> written c t' w ev k v old"
  by (simp add: written_def)

lemma written_event:
  assumes "db_ok ci (cf_db c)" "still_decided c" "written c t w ev k v old"
  shows "ev \<in> event_ids (cf_db c)"
  using assms find_member_in [of ev k "cf_db c" old] db_okD(3) [OF assms(1)]
  unfolding still_decided_def members_ok_def by blast

lemma holds_lock_finish: "holds_lock c \<Longrightarrow> holds_lock (finish t c)"
  by (auto simp: holds_lock_def)

lemma locks_held_finish: "locks_held c \<Longrightarrow> locks_held (finish t c)"
  by (fastforce simp: locks_held_def)

lemma lock_inv_finish:
  assumes "lock_inv c"
  shows "lock_inv (finish t c)"
proof -
  have "still_decided (finish t c)"
    using assms unfolding lock_inv_def still_decided_def written_finish finish_simps by blast
  moreover have "audits_apart (finish t c)"
    using assms unfolding lock_inv_def audits_apart_def written_finish by blast
  ultimately show ?thesis
    using assms unfolding lock_inv_def by (simp add: holds_lock_finish locks_held_finish)
qed

text \<open>The database may move under a pending write as long as it keeps the write's event.\<close>

lemma still_decided_move:
  assumes "still_decided c"
    and "\<And>t w ev k v old. written c t w ev k v old \<Longrightarrow> find_member ev k (cf_db c) = Some old \<Longrightarrow>
      same_event ev k (cf_db c) s' \<and> au_id (write_audit_row w old) \<notin> audit_ids s'"
  shows "still_decided (c\<lparr>cf_db := s'\<rparr>)"
proof -
  have "find_member ev k s' = Some old \<and> member_write w (ev, k) v s' = (Inr (), commit_write w old s')"
    if w: "written c t w ev k v old" for t w ev k v old
  proof -
    have f: "find_member ev k (cf_db c) = Some old"
      and m: "member_write w (ev, k) v (cf_db c) = (Inr (), commit_write w old (cf_db c))"
      using assms(1) w unfolding still_decided_def by blast+
    with assms(2) [OF w f] show ?thesis
      using still_writes [OF m f] by (auto simp: same_event_def find_member_def)
  qed
  then show ?thesis by (simp add: still_decided_def written_def)
qed

lemma pending_auditI: "written c t w ev k v old \<Longrightarrow> au_id (write_audit_row w old) \<in> pending_audit c"
  unfolding written_def pending_audit_def by blast

lemma tx_write_users:
  assumes "tx_write ci s s'"
  shows "user_ids s \<subseteq> user_ids s'"
  using assms by (cases rule: other_writes) (auto simp: member_write_iff)

lemma lock_inv_other:
  assumes "lock_inv c" "tx_write ci (cf_db c) s'" "db_ok ci (cf_db c)" "t_members s' = t_members (cf_db c) @ ms"
    and "\<forall>t j ph. cf_jobs c t = Some (j, ph) \<longrightarrow> job_event j \<in> event_ids s' \<longrightarrow> job_event j \<in> event_ids (cf_db c)"
    and "pending_audit c \<inter> audit_ids s' = {}"
  shows "lock_inv (c\<lparr>cf_db := s'\<rparr>)"
proof -
  have "still_decided (c\<lparr>cf_db := s'\<rparr>)"
  proof (rule still_decided_move)
    show "still_decided c" using assms(1) by (simp add: lock_inv_def)
    fix t w ev k v old
    assume "written c t w ev k v old" "find_member ev k (cf_db c) = Some old"
    then show "same_event ev k (cf_db c) s' \<and> au_id (write_audit_row w old) \<notin> audit_ids s'"
      using same_event_append [OF assms(4) _ tx_write_users [OF assms(2)]] assms(6) pending_auditI [of c t w ev k v old]
      by (auto simp: find_member_Some)
  qed
  moreover have "holds_lock (c\<lparr>cf_db := s'\<rparr>)"
    using assms(1,5) unfolding lock_inv_def holds_lock_def by (simp del: split_paired_All) blast
  ultimately show ?thesis
    using assms(1) by (simp add: lock_inv_def locks_held_def audits_apart_def written_def)
qed

text \<open>Two pending writes are on different events: both hold their event's lock.\<close>

lemma written_apart:
  assumes "db_ok ci (cf_db c)" "lock_inv c" "written c t w ev k v old" "written c t' w' ev' k' v' old'" "t \<noteq> t'"
  shows "ev \<noteq> ev'"
proof
  assume "ev = ev'"
  moreover have "ev \<in> event_ids (cf_db c)"
    using assms(2) written_event [OF assms(1) _ assms(3)] by (simp add: lock_inv_def)
  ultimately have "cf_locks c ev = Some t" "cf_locks c ev = Some t'"
    using assms(2-4) unfolding lock_inv_def holds_lock_def written_def by (metis fst_conv snd_conv phase.distinct(3))+
  with assms(5) show False by simp
qed

lemma lock_inv_commit:
  assumes "lock_inv c" "db_ok ci (cf_db c)" "written c t w ev k v old"
  shows "lock_inv (finish t (c\<lparr>cf_db := commit_write w old (cf_db c)\<rparr>))"
proof -
  let ?c = "finish t c" and ?s = "commit_write w old (cf_db c)"
  have inv: "lock_inv ?c" using assms(1) by (rule lock_inv_finish)
  have dec: "still_decided c" and f: "find_member ev k (cf_db c) = Some old"
    using assms(1,3) unfolding lock_inv_def still_decided_def by blast+
  have "still_decided (?c\<lparr>cf_db := ?s\<rparr>)"
  proof (rule still_decided_move)
    show "still_decided ?c" using inv by (simp add: lock_inv_def)
    fix t' w' ev' k' v' old'
    assume "written ?c t' w' ev' k' v' old'" and f': "find_member ev' k' (cf_db ?c) = Some old'"
    then have t': "t' \<noteq> t" and w': "written c t' w' ev' k' v' old'" by (simp_all add: written_finish)
    have "same_event ev' k' (cf_db c) ?s"
      using f' written_apart [OF assms(2,1) w' assms(3) t'] same_event_commit [OF assms(2) f] by simp
    moreover have "au_id (write_audit_row w' old') \<notin> audit_ids (cf_db c)"
      using dec w' unfolding still_decided_def member_write_iff by fastforce
    moreover have "au_id (write_audit_row w' old') \<noteq> au_id (write_audit_row w old)"
      using assms(1,3) w' t' unfolding lock_inv_def audits_apart_def by blast
    ultimately show "same_event ev' k' (cf_db ?c) ?s \<and> au_id (write_audit_row w' old') \<notin> audit_ids ?s" by simp
  qed
  moreover have "finish t (c\<lparr>cf_db := ?s\<rparr>) = ?c\<lparr>cf_db := ?s\<rparr>" by (simp add: finish_def fun_eq_iff config.equality)
  ultimately show ?thesis
    using inv unfolding lock_inv_def holds_lock_def locks_held_def audits_apart_def written_def by simp
qed

lemma lock_inv_phase:
  assumes "lock_inv c" "\<And>old. ph \<noteq> Written old"
    and own: "ph = Waiting \<or> job_event j \<notin> event_ids (cf_db c) \<or> ls (job_event j) = Some t"
    and free: "\<And>ev. ph = Waiting \<Longrightarrow> ls ev \<noteq> Some t"
    and others: "\<And>ev t'. t' \<noteq> t \<Longrightarrow> ls ev = Some t' \<longleftrightarrow> cf_locks c ev = Some t'"
    and c': "c' = c\<lparr>cf_locks := ls, cf_jobs := (cf_jobs c)(t \<mapsto> (j, ph))\<rparr>"
  shows "lock_inv c'"
proof -
  have "written c' t' w ev k v old \<Longrightarrow> written c t' w ev k v old" for t' w ev k v old
    using assms(2) [of old] by (auto simp: c' written_def split: if_splits)
  moreover have "cf_db c' = cf_db c" by (simp add: c')
  ultimately have "still_decided c'" "audits_apart c'"
    using assms(1) unfolding lock_inv_def still_decided_def audits_apart_def by (metis, metis)
  moreover have "holds_lock c'"
    unfolding holds_lock_def
  proof (intro allI impI)
    fix t' j' ph'
    assume "cf_jobs c' t' = Some (j', ph')" "ph' \<noteq> Waiting" "job_event j' \<in> event_ids (cf_db c')"
    then show "cf_locks c' (job_event j') = Some t'"
      using assms(1) own others [of t' "job_event j'"] unfolding lock_inv_def holds_lock_def c'
      by (cases "t' = t") (auto simp del: split_paired_All)
  qed
  moreover have "locks_held c'"
    unfolding locks_held_def
  proof (intro allI impI)
    fix ev t'
    assume "cf_locks c' ev = Some t'"
    then show "map_option snd (cf_jobs c' t') \<notin> {None, Some Waiting}"
      using assms(1) free [of ev] others [of t' ev] unfolding lock_inv_def locks_held_def
      by (cases "t' = t") (auto simp: c' simp del: split_paired_All split_paired_Ex)
  qed
  ultimately show ?thesis by (simp add: lock_inv_def)
qed

lemma lock_inv_write:
  assumes "lock_inv c" "cf_jobs c t = Some ((w, ev, k, v), Locked)" "member_write w (ev, k) v (cf_db c) = (Inr r, s')"
    and "find_member ev k (cf_db c) = Some old" "au_id (write_audit_row w old) \<notin> pending_audit c"
    and "c' = c\<lparr>cf_jobs := (cf_jobs c)(t \<mapsto> ((w, ev, k, v), Written old))\<rparr>"
  shows "lock_inv c'"
proof -
  have w: "written c' t' w' ev' k' v' old' \<longleftrightarrow>
      (if t' = t then (w', ev', k', v', old') = (w, ev, k, v, old) else written c t' w' ev' k' v' old')" for t' w' ev' k' v' old'
    by (auto simp: assms(6) written_def)
  have "member_write w (ev, k) v (cf_db c) = (Inr (), commit_write w old (cf_db c))"
    using assms(3,4) unfolding member_write_iff by auto
  then have "still_decided c'"
    using assms(1,4) unfolding lock_inv_def still_decided_def w by (auto simp: assms(6) split: if_splits)
  moreover have "au_id (write_audit_row w old) \<noteq> au_id (write_audit_row w' old')" if "written c t' w' ev' k' v' old'" for t' w' ev' k' v' old'
    using pending_auditI [OF that] assms(5) by auto
  then have "audits_apart c'"
    using assms(1) unfolding lock_inv_def audits_apart_def w by (metis prod.inject)
  moreover have "holds_lock c'" "locks_held c'"
    using assms(1,2) unfolding lock_inv_def holds_lock_def locks_held_def by (auto simp: assms(6))
  ultimately show ?thesis by (simp add: lock_inv_def)
qed

lemma call_step_inv:
  assumes "call_step c c'" "db_ok ci (cf_db c)" "lock_inv c"
  shows "lock_inv c'"
  using assms(1)
proof cases
  case (lock t j)
  show ?thesis
    by (rule lock_inv_phase [OF assms(3), of Locked j "(cf_locks c)(job_event j \<mapsto> t)" t]) (auto simp: lock)
next
  case (miss t j)
  then show ?thesis by (intro lock_inv_phase [OF assms(3), of Locked j "cf_locks c" t]) simp_all
next
  case (store t w ev k v r s' old)
  then show ?thesis by (intro lock_inv_write [OF assms(3)])
next
  case (commit t w ev k v old)
  then show ?thesis using lock_inv_commit [OF assms(3,2)] by (simp add: written_def)
qed (simp add: lock_inv_finish assms(3))

lemma lock_step_inv:
  assumes "lock_step ci c c'" "db_ok ci (cf_db c)" "lock_inv c"
  shows "lock_inv c'"
  using assms(1)
proof cases
  case call
  then show ?thesis using call_step_inv assms(2,3) by blast
next
  case (arrive t j)
  have "cf_locks c ev \<noteq> Some t" for ev
    using assms(3) arrive(2) unfolding lock_inv_def locks_held_def by (metis insertI1 option.map(1))
  then show ?thesis
    using arrive by (intro lock_inv_phase [OF assms(3), of Waiting j "cf_locks c" t]) simp_all
next
  case (other s' ms)
  then show ?thesis using lock_inv_other [OF assms(3) _ assms(2)] by blast
qed (simp add: lock_inv_finish assms(3))

lemma call_step_writes:
  assumes "call_step c c'" "lock_inv c"
  shows "tx_writes ci (cf_db c) (cf_db c')"
  using assms(1)
proof cases
  case (commit t w ev k v old)
  then have "member_write w (ev, k) v (cf_db c) = (Inr (), commit_write w old (cf_db c))"
    using assms(2) unfolding lock_inv_def still_decided_def written_def by blast
  then show ?thesis using commit tx_write.write_member by auto
qed auto

lemma lock_step_writes:
  assumes "lock_step ci c c'" "lock_inv c"
  shows "tx_writes ci (cf_db c) (cf_db c')"
  using assms by (cases rule: lock_step.cases) (auto intro: call_step_writes)

lemma lock_inv_quiet: "lock_inv (quiet s)"
  by (simp add: lock_inv_def holds_lock_def locks_held_def still_decided_def audits_apart_def written_def quiet_def)

lemma interleaved_serial:
  assumes "interleaved ci s c" "db_ok ci s"
  shows "lock_inv c \<and> tx_writes ci s (cf_db c)"
  using assms(1)
proof (induction rule: rtranclp_induct)
  case base
  then show ?case using lock_inv_quiet by (simp add: quiet_def)
next
  case (step c c')
  then have "db_ok ci (cf_db c)"
    using tx_writes_keep [of ci s "cf_db c" "\<lambda>_. True"] assms(2) by blast
  then show ?case
    using step lock_step_inv [of ci c c'] lock_step_writes [of ci c c'] by (blast intro: rtranclp_trans)
qed

lemma interleaved_db_ok: "interleaved ci s c \<Longrightarrow> db_ok ci s \<Longrightarrow> db_ok ci (cf_db c)"
  using interleaved_serial tx_writes_keep [of ci s "cf_db c" "\<lambda>_. True"] by blast

section \<open>No deadlock\<close>

fun steps_left :: "phase \<Rightarrow> nat" where
  "steps_left Waiting = 3"
| "steps_left Locked = 2"
| "steps_left (Written old) = 1"

definition work_left :: "(nat \<rightharpoonup> role_job \<times> phase) \<Rightarrow> nat" where
  "work_left jobs = (\<Sum>t \<in> dom jobs. steps_left (snd (the (jobs t))))"

lemma work_left_update:
  assumes "finite (dom jobs)" "jobs t = Some (j, ph)"
  shows "work_left (jobs(t := None)) + steps_left ph = work_left jobs"
    and "work_left (jobs(t \<mapsto> (j', ph'))) + steps_left ph = work_left jobs + steps_left ph'"
proof -
  have d: "dom jobs = insert t (dom jobs - {t})" using assms(2) by auto
  have "work_left jobs = steps_left ph + (\<Sum>u \<in> dom jobs - {t}. steps_left (snd (the (jobs u))))"
    unfolding work_left_def using assms by (subst d, subst sum.insert) auto
  then show "work_left (jobs(t := None)) + steps_left ph = work_left jobs"
    and "work_left (jobs(t \<mapsto> (j', ph'))) + steps_left ph = work_left jobs + steps_left ph'"
    using assms(1) by (auto simp: work_left_def sum.insert_remove intro!: sum.cong)
qed

lemma call_step_advances:
  assumes "call_step c c'" "finite (dom (cf_jobs c))"
  shows "work_left (cf_jobs c') < work_left (cf_jobs c) \<and> finite (dom (cf_jobs c'))"
  using assms(1)
proof cases
  case (lock t j)
  then show ?thesis using work_left_update(2) [OF assms(2) lock(2), of j Locked] assms(2) by simp
next
  case (miss t j)
  then show ?thesis using work_left_update(2) [OF assms(2) miss(2), of j Locked] assms(2) by simp
next
  case (store t w ev k v r s' old)
  then show ?thesis using work_left_update(2) [OF assms(2) store(2), of "(w, ev, k, v)" "Written old"] assms(2) by simp
next
  case (refuse t w ev k v e s')
  then show ?thesis using work_left_update(1) [OF assms(2) refuse(2)] assms(2) by simp
next
  case (commit t w ev k v old)
  then show ?thesis using work_left_update(1) [OF assms(2) commit(2)] assms(2) by simp
qed

text \<open>The one that is furthest can always go on; nobody waits for a lock nobody holds.\<close>

lemma call_step_possible:
  assumes "lock_inv c" "cf_jobs c \<noteq> Map.empty"
  shows "\<exists>c'. call_step c c'"
proof -
  consider (written) t w ev k v old where "cf_jobs c t = Some ((w, ev, k, v), Written old)"
    | (locked) t w ev k v where "cf_jobs c t = Some ((w, ev, k, v), Locked)" "pending_audit c = {}"
    | (waiting) t j where "cf_jobs c t = Some (j, Waiting)" "\<forall>t j ph. cf_jobs c t = Some (j, ph) \<longrightarrow> ph = Waiting"
  proof (cases "\<exists>t j old. cf_jobs c t = Some (j, Written old)")
    case True
    then obtain t j old where 1: "cf_jobs c t = Some (j, Written old)" by blast
    obtain w ev k v where "j = (w, ev, k, v)" by (cases j)
    with 1 show ?thesis by (intro that(1)) simp
  next
    case none: False
    then have "pending_audit c = {}" unfolding pending_audit_def by blast
    have other: "cf_jobs c t = Some (j, ph) \<Longrightarrow> ph = Waiting \<or> ph = Locked" for t j ph
      using none by (cases ph) blast+
    show ?thesis
    proof (cases "\<exists>t j. cf_jobs c t = Some (j, Locked)")
      case True
      then obtain t j where 1: "cf_jobs c t = Some (j, Locked)" by blast
      obtain w ev k v where "j = (w, ev, k, v)" by (cases j)
      with 1 show ?thesis using \<open>pending_audit c = {}\<close> by (intro that(2)) simp_all
    next
      case False
      obtain t j ph where 1: "cf_jobs c t = Some (j, ph)" using assms(2) by fastforce
      moreover have "\<forall>t j ph. cf_jobs c t = Some (j, ph) \<longrightarrow> ph = Waiting" using other False by blast
      ultimately show ?thesis using that(3) by blast
    qed
  qed
  then show ?thesis
  proof cases
    case written
    then show ?thesis by (intro exI) (rule call_step.commit)
  next
    case (locked t w ev k v)
    obtain r s' where mw: "member_write w (ev, k) v (cf_db c) = (r, s')" by fastforce
    show ?thesis
    proof (cases r)
      case (Inl e)
      then show ?thesis using mw by (intro exI) (rule call_step.refuse [OF locked(1)], simp)
    next
      case (Inr u)
      then obtain old where "find_member ev k (cf_db c) = Some old" using mw by (auto simp: member_write_iff)
      then show ?thesis using call_step.store [OF locked(1)] mw Inr locked(2) by blast
    qed
  next
    case (waiting t j)
    have "cf_locks c ev \<noteq> Some u" for ev u
    proof
      assume "cf_locks c ev = Some u"
      then have "map_option snd (cf_jobs c u) \<notin> {None, Some Waiting}"
        using assms(1) unfolding lock_inv_def locks_held_def by blast
      moreover have "map_option snd (cf_jobs c u) \<in> {None, Some Waiting}"
        using waiting(2) by (cases "cf_jobs c u") auto
      ultimately show False by contradiction
    qed
    then have "cf_locks c (job_event j) = None" by (metis not_None_eq)
    note free = this
    show ?thesis
      using call_step.lock [OF waiting(1) _ free] call_step.miss [OF waiting(1)]
      by (cases "job_event j \<in> event_ids (cf_db c)") (rule exI, assumption | blast)+
  qed
qed

lemma interleaved_finite: "interleaved ci s c \<Longrightarrow> finite (dom (cf_jobs c))"
proof (induction rule: rtranclp_induct)
  case base
  then show ?case by (simp add: quiet_def)
next
  case (step c c')
  from step(2) show ?case
    by (cases rule: lock_step.cases) (use step(3) call_step_advances in \<open>auto simp del: fun_upd_apply split_paired_All\<close>)
qed

lemma calls_drain:
  assumes "lock_inv c" "db_ok ci (cf_db c)" "finite (dom (cf_jobs c))"
  shows "\<exists>c'. call_step\<^sup>*\<^sup>* c c' \<and> cf_jobs c' = Map.empty"
  using assms
proof (induction "work_left (cf_jobs c)" arbitrary: c rule: less_induct)
  case less
  show ?case
  proof (cases "cf_jobs c = Map.empty")
    case False
    then obtain c1 where c1: "call_step c c1" using call_step_possible less.prems(1) by blast
    have "tx_writes ci (cf_db c) (cf_db c1)" using call_step_writes c1 less.prems(1) by blast
    then have "db_ok ci (cf_db c1)" using tx_writes_keep [of ci _ _ "\<lambda>_. True"] less.prems(2) by blast
    moreover have "lock_inv c1" using call_step_inv c1 less.prems(1,2) by blast
    ultimately show ?thesis
      using less.hyps [of c1] call_step_advances [OF c1 less.prems(3)] c1 by (meson converse_rtranclp_into_rtranclp)
  qed blast
qed

section \<open>Two demotions at once\<close>

text \<open>
  The demo event with two admins, Alice (membership 110) and Bob (11), and two calls in flight,
  each of which demotes the other to attendee.
\<close>

definition two_admins :: db where
  "two_admins = snd (service_assign_role (demo_gen 60) 1 10 11 1 ''admin'' demo_db)"

definition demote_alice :: role_job where
  "demote_alice = (MAssign (demo_gen 61) 2 ''attendee'', 10, 110, 1)"
definition demote_bob :: role_job where
  "demote_bob = (MAssign (demo_gen 62) 1 ''attendee'', 10, 11, 2)"

lemma two_admins_reachable: "reachable id two_admins"
  using reachable.step [OF demo_reachable, of "OAssignRole (demo_gen 60) 1 10 11 1 ''admin''"]
  by (simp add: two_admins_def)

lemma demo_ids_known:
  "audit_ids demo_db = {210, 310, 211, 220, 230, 231, 240}" "user_ids demo_db = {1, 2}" "event_ids demo_db = {10}"
proof -
  have "audit_ids demo_db = set (map au_id (t_audit demo_db))" "user_ids demo_db = set (map usr_id (t_users demo_db))"
    by (simp_all add: audit_ids_def)
  then show "audit_ids demo_db = {210, 310, 211, 220, 230, 231, 240}" "user_ids demo_db = {1, 2}"
    unfolding demo_tables by simp_all
  show "event_ids demo_db = {10}"
    unfolding demo_tables by (simp add: demo_event_row_def new_event_row_def demo_gen_def)
qed

lemmas demo_rows = demo_admin_row_def demo_member_row_def new_admin_row_def new_member_row_def demo_gen_def

lemma two_admins_eq: "two_admins = commit_write (MAssign (demo_gen 60) 1 ''admin'') demo_member_row demo_db"
proof -
  have "member_write (MAssign (demo_gen 60) 1 ''admin'') (10, 11) 1 demo_db =
      (Inr (), commit_write (MAssign (demo_gen 60) 1 ''admin'') demo_member_row demo_db)"
    unfolding member_write_iff
    by (rule exI [of _ demo_member_row])
      (simp add: find_member_def demo_tables guarded_def knownRoles_def audit_def demo_ids_known, simp add: demo_rows)
  then show ?thesis
    unfolding two_admins_def service_assign_role_def member_write_assign by auto
qed

definition in_flight :: "(nat \<rightharpoonup> role_job \<times> phase) \<Rightarrow> config" where
  "in_flight jobs = \<lparr>cf_db = two_admins, cf_locks = Map.empty, cf_jobs = jobs\<rparr>"

text \<open>
  Alice's demotion has the lock and has run its statement, Bob's waits: once the first is
  committed, the second is refused.
\<close>

definition first_wrote :: config where
  "first_wrote = \<lparr>cf_db = two_admins, cf_locks = [10 \<mapsto> 1],
     cf_jobs = [1 \<mapsto> (demote_alice, Written demo_admin_row), 2 \<mapsto> (demote_bob, Waiting)]\<rparr>"

definition first_done :: config where
  "first_done = \<lparr>cf_db = commit_write (fst demote_alice) demo_admin_row two_admins, cf_locks = Map.empty,
     cf_jobs = [2 \<mapsto> (demote_bob, Waiting)]\<rparr>"

lemma two_admins_tables:
  "event_ids two_admins = {10}"
  "member_write (fst demote_alice) (10, 110) 1 two_admins =
     (Inr (), commit_write (fst demote_alice) demo_admin_row two_admins)"
  "member_write (fst demote_bob) (10, 11) 2 two_admins =
     (Inr (), commit_write (fst demote_bob) (member_set (demo_gen 60) ''admin'' demo_member_row) two_admins)"
  "find_member 10 110 two_admins = Some demo_admin_row"
  "find_member 10 11 two_admins = Some (member_set (demo_gen 60) ''admin'' demo_member_row)"
  "t_members two_admins = [demo_admin_row, member_set (demo_gen 60) ''admin'' demo_member_row]"
proof -
  show m: "t_members two_admins = [demo_admin_row, member_set (demo_gen 60) ''admin'' demo_member_row]"
    unfolding two_admins_eq commit_write_def
    by (simp add: demo_tables put_row_def member_set_def) (simp add: demo_rows)
  show e: "event_ids two_admins = {10}" by (simp add: two_admins_eq demo_ids_known)
  show f: "find_member 10 110 two_admins = Some demo_admin_row"
    "find_member 10 11 two_admins = Some (member_set (demo_gen 60) ''admin'' demo_member_row)"
    by (simp_all add: find_member_def m member_set_def) (simp_all add: demo_rows)
  have i: "audit_ids two_admins = {260, 210, 310, 211, 220, 230, 231, 240}" "user_ids two_admins = {1, 2}"
    by (simp_all add: two_admins_eq demo_ids_known audit_def demo_gen_def)
  have g: "guarded 110 demo_admin_row False two_admins"
    "guarded 11 (member_set (demo_gen 60) ''admin'' demo_member_row) False two_admins"
    by (simp_all add: guarded_def other_admin_def m member_set_def) (simp_all add: demo_rows)
  show "member_write (fst demote_alice) (10, 110) 1 two_admins =
     (Inr (), commit_write (fst demote_alice) demo_admin_row two_admins)"
    unfolding member_write_iff
    by (rule exI [of _ demo_admin_row])
      (use f g i in \<open>simp add: demote_alice_def knownRoles_def audit_def, simp add: demo_rows\<close>)
  show "member_write (fst demote_bob) (10, 11) 2 two_admins =
     (Inr (), commit_write (fst demote_bob) (member_set (demo_gen 60) ''admin'' demo_member_row) two_admins)"
    unfolding member_write_iff
    by (rule exI [of _ "member_set (demo_gen 60) ''admin'' demo_member_row"])
      (use f g i in \<open>simp add: demote_bob_def knownRoles_def audit_def, simp add: member_set_def demo_rows\<close>)
qed

lemma first_wrote_interleaved: "interleaved id two_admins first_wrote"
proof -
  have "interleaved id two_admins (in_flight [1 \<mapsto> (demote_alice, Waiting)])"
    by (rule r_into_rtranclp, rule lock_step.arrive [of "quiet two_admins" 1, THEN back_subst [of "lock_step id _"]])
      (simp_all add: quiet_def in_flight_def)
  also have "lock_step id \<dots> (in_flight [1 \<mapsto> (demote_alice, Waiting), 2 \<mapsto> (demote_bob, Waiting)])"
    by (rule lock_step.arrive [of _ 2, THEN back_subst [of "lock_step id _"]]) (simp_all add: in_flight_def)
  also have "lock_step id \<dots> \<lparr>cf_db = two_admins, cf_locks = [10 \<mapsto> 1],
      cf_jobs = [1 \<mapsto> (demote_alice, Locked), 2 \<mapsto> (demote_bob, Waiting)]\<rparr>"
    by (rule lock_step.call, rule call_step.lock [of _ 1 demote_alice, THEN back_subst [of "call_step _"]])
      (simp_all add: in_flight_def two_admins_tables demote_alice_def fun_upd_twist)
  also have "lock_step id \<dots> first_wrote"
    by (rule lock_step.call, rule call_step.store [of _ 1 "fst demote_alice" 10 110 1, THEN back_subst [of "call_step _"]],
        simp_all only: config.simps two_admins_tables)
      (simp_all add: first_wrote_def pending_audit_def demote_alice_def fun_upd_twist)
  finally show ?thesis .
qed

text \<open>
  What the lock is for: if both statements ran against the same two admins, both would be allowed,
  and committing both would leave the event without one.
\<close>

lemma lock_is_needed:
  "\<exists>old1 old2 s1 s2. member_write (fst demote_alice) (10, 110) 1 two_admins = (Inr (), s1) \<and>
     member_write (fst demote_bob) (10, 11) 2 two_admins = (Inr (), s2) \<and>
     find_member 10 110 two_admins = Some old1 \<and> find_member 10 11 two_admins = Some old2 \<and>
     \<not> has_admin (commit_write (fst demote_bob) old2 (commit_write (fst demote_alice) old1 two_admins)) 10"
proof -
  have "\<not> has_admin (commit_write (fst demote_bob) (member_set (demo_gen 60) ''admin'' demo_member_row)
      (commit_write (fst demote_alice) demo_admin_row two_admins)) 10"
    by (simp add: has_admin_def commit_write_def demote_alice_def demote_bob_def two_admins_tables put_row_def
        member_set_def)
  then show ?thesis using two_admins_tables(2-5) by blast
qed

end
