(* ===== verification/Seed.thy ===== *)
theory Seed
  imports Go_Text System "HOL-Library.Signed_Division"
begin

text \<open>
  cmd/seed/generate.go and demo.go: the demo data set. The generator is a state monad over
  everything it accumulates (\<open>gen_state\<close>) with the panics as errors. Not in the repository, and
  so parameters (record \<open>seed_env\<close>): what the calls of one \<open>math/rand\<close> source return, the n-th
  call with the bound it is given; the ids \<open>newUUIDv7\<close> draws (their bits are in Uuid_V7); the
  time zone database. Instants are those of the \<open>time.Time\<close> values.
\<close>

section \<open>Configuration and identities\<close>

definition seedDSTSpringForwardEventName :: string where
  "seedDSTSpringForwardEventName = ''Seed DST Spring-Forward Fixture''"
definition seedDSTFallBackEventName :: string where
  "seedDSTFallBackEventName = ''Seed DST Fall-Back Fixture''"
definition seedLargeEventName :: string where
  "seedLargeEventName = ''Seed Large-Scale Fixture Event''"
definition seedDSTSpringForwardSessionTitle :: string where
  "seedDSTSpringForwardSessionTitle = ''Crosses 2026-03-08 Spring-Forward Gap''"
definition seedDSTFallBackSessionTitle :: string where
  "seedDSTFallBackSessionTitle = ''Crosses 2026-11-01 Fall-Back Overlap''"
definition seedDemoEventName :: string where
  "seedDemoEventName = ''Seed Demo Event''"

record demoIdentity =
  di_client_id :: string
  di_subject :: string
  di_email :: string
  di_name :: string
  di_role :: string

definition demoIdentities :: "demoIdentity list" where
  "demoIdentities =
     [\<lparr>di_client_id = ''demo-admin'', di_subject = ''demo-admin'', di_email = ''admin@demo.krane'',
       di_name = ''Demo Admin'', di_role = ''admin''\<rparr>,
      \<lparr>di_client_id = ''demo-contributor'', di_subject = ''demo-contributor'', di_email = ''contributor@demo.krane'',
       di_name = ''Demo Contributor'', di_role = ''contributor''\<rparr>,
      \<lparr>di_client_id = ''demo-attendee'', di_subject = ''demo-attendee'', di_email = ''attendee@demo.krane'',
       di_name = ''Demo Attendee'', di_role = ''attendee''\<rparr>]"

text \<open>Durations are nanoseconds, as Go's \<open>time.Duration\<close>.\<close>

definition minutes :: "int \<Rightarrow> int" where
  "minutes n = n * 60 * ns_per_s"

definition hours :: "int \<Rightarrow> int" where
  "hours n = n * 3600 * ns_per_s"

text \<open>\<open>time.Date(y, m, d, 0, 0, 0, 0, loc)\<close> and \<open>t.AddDate(0, 0, n)\<close>.\<close>

definition date_in :: "location \<Rightarrow> int \<Rightarrow> int \<Rightarrow> int \<Rightarrow> time" where
  "date_in loc y m d = time_date loc \<lparr>wf_year = y, wf_month = m, wf_day = d, wf_second = 0, wf_nanos = 0\<rparr>"

definition add_days :: "location \<Rightarrow> time \<Rightarrow> int \<Rightarrow> time" where
  "add_days loc t n =
     wall_instant loc (wall_clock loc (t div ns_per_s) + n * 86400) * ns_per_s + t mod ns_per_s"

definition seedBaseTime :: time where
  "seedBaseTime = date_in utc 2026 1 1"

definition bulkTimezones :: "string list" where
  "bulkTimezones = [''Asia/Colombo'', ''UTC'', ''Europe/London'', ''America/Los_Angeles'', ''Australia/Sydney'']"

record seed_config =
  UserCount :: int
  BulkEventCount :: int
  InvitationsPerEvent :: int
  MinRoomsPerEvent :: int
  MaxRoomsPerEvent :: int
  MinSessionsPerEvent :: int
  MaxSessionsPerEvent :: int
  LargeEventRoomCount :: int
  LargeEventSessionCount :: int

definition DefaultConfig :: seed_config where
  "DefaultConfig = \<lparr>UserCount = 5000, BulkEventCount = 46, InvitationsPerEvent = 1000, MinRoomsPerEvent = 2,
     MaxRoomsPerEvent = 6, MinSessionsPerEvent = 5, MaxSessionsPerEvent = 20, LargeEventRoomCount = 10,
     LargeEventSessionCount = 500\<rparr>"

record dataset =
  ds_users :: "user list"
  ds_events :: "event list"
  ds_members :: "member list"
  ds_rooms :: "room list"
  ds_sessions :: "session list"
  ds_invitations :: "invitation list"

section \<open>The generator's state\<close>

record seed_env =
  sv_intn :: "nat \<Rightarrow> nat \<Rightarrow> nat"
  sv_perm :: "nat \<Rightarrow> nat \<Rightarrow> nat list"
  sv_shuffle :: "nat \<Rightarrow> nat \<Rightarrow> nat list"
  sv_uuid :: "nat \<Rightarrow> uuid"
  sv_zoneinfo :: "string \<Rightarrow> location option"
  sv_host :: location

text \<open>\<open>gn_calls\<close> and \<open>gn_ids\<close> count the calls of the random source and of \<open>newUUIDv7\<close>.\<close>

record gen_state =
  gn_calls :: nat
  gn_ids :: nat
  gn_busy :: "uuid \<Rightarrow> (time \<times> time) list"
  gn_event_seq :: nat
  gn_events :: "event list"
  gn_rooms :: "room list"
  gn_sessions :: "session list"
  gn_members :: "member list"
  gn_invitations :: "invitation list"

text \<open>\<open>Diverges\<close> is the loop of \<open>pickDistinctUsers\<close> that never finds enough users.\<close>

datatype seed_error =
    InvalidBound | BadLength | BadSlice | DivideByZero | UnknownZone string | BadLocalTime | NoSpeaker | Diverges

type_synonym 'a gen = "gen_state \<Rightarrow> seed_error + ('a \<times> gen_state)"

definition gret :: "'a \<Rightarrow> 'a gen" where
  "gret a g = Inr (a, g)"

definition gbind :: "'a gen \<Rightarrow> ('a \<Rightarrow> 'b gen) \<Rightarrow> 'b gen" where
  "gbind m f g = and_then (m g) (\<lambda>(a, g'). f a g')"

definition gpanic :: "seed_error \<Rightarrow> 'a gen" where
  "gpanic e g = Inl e"

primrec gfold :: "('b \<Rightarrow> 'a \<Rightarrow> 'b gen) \<Rightarrow> 'b \<Rightarrow> 'a list \<Rightarrow> 'b gen" where
  "gfold f b [] = gret b"
| "gfold f b (x # xs) = gbind (f b x) (\<lambda>b'. gfold f b' xs)"

definition gput :: "(gen_state \<Rightarrow> gen_state) \<Rightarrow> unit gen" where
  "gput f g = Inr ((), f g)"

definition newUUIDv7 :: "seed_env \<Rightarrow> uuid gen" where
  "newUUIDv7 env g = Inr (sv_uuid env (gn_ids g), g\<lparr>gn_ids := Suc (gn_ids g)\<rparr>)"

text \<open>\<open>r.Intn(n)\<close> panics unless \<open>n\<close> is positive; \<open>r.Perm\<close> and \<open>r.Shuffle\<close> of a slice.\<close>

definition Intn :: "seed_env \<Rightarrow> int \<Rightarrow> int gen" where
  "Intn env n g =
     (if n \<le> 0 then Inl InvalidBound
      else Inr (int (sv_intn env (gn_calls g) (nat n)), g\<lparr>gn_calls := Suc (gn_calls g)\<rparr>))"

definition Perm :: "seed_env \<Rightarrow> nat \<Rightarrow> nat list gen" where
  "Perm env n g = Inr (sv_perm env (gn_calls g) n, g\<lparr>gn_calls := Suc (gn_calls g)\<rparr>)"

definition Shuffle :: "seed_env \<Rightarrow> 'a list \<Rightarrow> 'a list gen" where
  "Shuffle env xs g =
     Inr (map (\<lambda>i. xs ! i) (sv_shuffle env (gn_calls g) (length xs)), g\<lparr>gn_calls := Suc (gn_calls g)\<rparr>)"

definition mustLoadLocation :: "seed_env \<Rightarrow> string \<Rightarrow> location gen" where
  "mustLoadLocation env name =
     (case LoadLocation (sv_zoneinfo env) (sv_host env) name of
        None \<Rightarrow> gpanic (UnknownZone name)
      | Some loc \<Rightarrow> gret loc)"

section \<open>Users, events, rooms\<close>

text \<open>\<open>%0wd\<close> of a number that is not negative.\<close>

definition zero_pad :: "nat \<Rightarrow> nat \<Rightarrow> string" where
  "zero_pad w n = replicate (w - length (decimal n)) (CHR ''0'') @ decimal n"

definition demo_user :: "uuid \<Rightarrow> demoIdentity \<Rightarrow> user" where
  "demo_user i d = \<lparr>usr_id = i, usr_subject = di_subject d, usr_email = di_email d, usr_name = di_name d,
     usr_created_at = seedBaseTime, usr_updated_at = seedBaseTime\<rparr>"

definition seed_user :: "uuid \<Rightarrow> nat \<Rightarrow> user" where
  "seed_user i n = \<lparr>usr_id = i, usr_subject = ''seed-user-'' @ zero_pad 5 n,
     usr_email = ''user'' @ zero_pad 5 n @ ''@seed.example'', usr_name = ''Seed User '' @ zero_pad 5 n,
     usr_created_at = seedBaseTime, usr_updated_at = seedBaseTime\<rparr>"

definition generateUsers :: "seed_env \<Rightarrow> seed_config \<Rightarrow> user list gen" where
  "generateUsers env cfg =
     (if UserCount cfg < 0 then gpanic BadLength
      else gbind (gfold (\<lambda>us d. gbind (newUUIDv7 env) (\<lambda>i. gret (us @ [demo_user i d]))) [] demoIdentities) (\<lambda>demo.
        gfold (\<lambda>us n. gbind (newUUIDv7 env) (\<lambda>i. gret (us @ [seed_user i n])))
          demo [1..<Suc (nat (UserCount cfg) - length demo)]))"

definition newEvent :: "seed_env \<Rightarrow> string \<Rightarrow> string \<Rightarrow> time \<Rightarrow> time \<Rightarrow> event gen" where
  "newEvent env name timezone startsAt endsAt =
     gbind (newUUIDv7 env) (\<lambda>i.
     let ev = \<lparr>ev_id = i, ev_name = name, ev_description = None, ev_timezone = timezone, ev_starts_at = startsAt,
               ev_ends_at = endsAt, ev_version = 1, ev_created_at = seedBaseTime, ev_updated_at = seedBaseTime\<rparr> in
     gbind (gput (\<lambda>g. g\<lparr>gn_events := gn_events g @ [ev], gn_event_seq := Suc (gn_event_seq g)\<rparr>)) (\<lambda>_.
     gret ev))"

definition roomName :: "nat \<Rightarrow> string" where
  "roomName k = (if k < 26 then ''Room '' @ [char_of (65 + k)] else ''Room '' @ decimal (k + 1))"

definition addRooms :: "seed_env \<Rightarrow> uuid \<Rightarrow> int \<Rightarrow> uuid list gen" where
  "addRooms env eventID count =
     (if count < 0 then gpanic BadLength
      else gfold (\<lambda>ids k.
        gbind (newUUIDv7 env) (\<lambda>i.
        gbind (gput (\<lambda>g. g\<lparr>gn_rooms := gn_rooms g @ [\<lparr>rm_id = i, rm_event_id = eventID, rm_name = roomName k,
            rm_capacity = None, rm_version = 1, rm_created_at = seedBaseTime, rm_updated_at = seedBaseTime\<rparr>]\<rparr>)) (\<lambda>_.
        gret (ids @ [i])))) [] [0..<nat count])"

section \<open>Members\<close>

text \<open>
  The rejection sampling of \<open>pickDistinctUsers\<close>, from the call number on: \<open>None\<close> when it never
  ends. A user already picked or excluded is drawn again.
\<close>

partial_function (option) pick_loop ::
    "(nat \<Rightarrow> nat \<Rightarrow> nat) \<Rightarrow> uuid list \<Rightarrow> uuid list \<Rightarrow> nat \<Rightarrow> uuid list \<Rightarrow> nat \<Rightarrow> (uuid list \<times> nat) option" where
  "pick_loop intn users exclude n picked call =
     (if n \<le> length picked then Some (picked, call)
      else let i = users ! intn call (length users) in
           if i \<in> set picked \<or> i \<in> set exclude then pick_loop intn users exclude n picked (Suc call)
           else pick_loop intn users exclude n (picked @ [i]) (Suc call))"

definition pickDistinctUsers :: "seed_env \<Rightarrow> user list \<Rightarrow> int \<Rightarrow> uuid list \<Rightarrow> uuid list gen" where
  "pickDistinctUsers env users n exclude g =
     (let available = int (length users) - int (card (set exclude));
          n = (if available < n then available else n)
      in if n \<le> 0 then Inr ([], g)
         else case pick_loop (sv_intn env) (map usr_id users) exclude (nat n) [] (gn_calls g) of
                None \<Rightarrow> Inl Diverges
              | Some (picked, calls) \<Rightarrow> Inr (picked, g\<lparr>gn_calls := calls\<rparr>))"

definition addMember :: "seed_env \<Rightarrow> uuid \<Rightarrow> uuid \<Rightarrow> string \<Rightarrow> unit gen" where
  "addMember env eventID userID role =
     gbind (newUUIDv7 env) (\<lambda>i.
     gput (\<lambda>g. g\<lparr>gn_members := gn_members g @ [\<lparr>mb_id = i, mb_event_id = eventID, mb_user_id = userID, mb_user_email = [],
       mb_user_name = [], mb_role = role, mb_version = 1, mb_created_at = seedBaseTime, mb_updated_at = seedBaseTime\<rparr>]\<rparr>))"

text \<open>\<open>demoUserID\<close>: the demo identities are the first users.\<close>

definition demoUserID :: "user list \<Rightarrow> string \<Rightarrow> uuid" where
  "demoUserID users subject =
     (case map_of (zip (map di_subject demoIdentities) (map usr_id users)) subject of Some i \<Rightarrow> i | None \<Rightarrow> 0)"

definition addRole :: "seed_env \<Rightarrow> user list \<Rightarrow> uuid \<Rightarrow> int \<Rightarrow> string \<Rightarrow> uuid list \<Rightarrow> uuid list gen" where
  "addRole env users eventID count role memberIDs =
     gbind (pickDistinctUsers env users count memberIDs) (\<lambda>picked.
     gfold (\<lambda>ids i. gbind (addMember env eventID i role) (\<lambda>_. gret (ids @ [i]))) memberIDs picked)"

text \<open>The set \<open>exclude\<close> always holds the ids in \<open>memberIDs\<close>, so one list stands for both.\<close>

definition addStandardMembers :: "seed_env \<Rightarrow> user list \<Rightarrow> uuid \<Rightarrow> demoIdentity list \<Rightarrow> uuid list gen" where
  "addStandardMembers env users eventID demo =
     gbind (gfold (\<lambda>ids d. let i = demoUserID users (di_subject d) in
              gbind (addMember env eventID i (di_role d)) (\<lambda>_. gret (ids @ [i]))) [] demo) (\<lambda>ids.
     gbind (Intn env 2) (\<lambda>a.
     gbind (addRole env users eventID (1 + a) ''admin'' ids) (\<lambda>ids.
     gbind (Intn env 4) (\<lambda>c.
     gbind (addRole env users eventID (2 + c) ''contributor'' ids) (\<lambda>ids.
     gbind (Intn env 31) (\<lambda>t.
     addRole env users eventID (10 + t) ''attendee'' ids))))))"

section \<open>Sessions\<close>

definition overlaps_busy :: "(time \<times> time) list \<Rightarrow> time \<Rightarrow> time \<Rightarrow> bool" where
  "overlaps_busy busy start end = list_ex (\<lambda>(s, e). start < e \<and> s < end) busy"

definition pickSpeaker :: "uuid list \<Rightarrow> time \<Rightarrow> time \<Rightarrow> uuid gen" where
  "pickSpeaker candidates start end g =
     (case find (\<lambda>c. \<not> overlaps_busy (gn_busy g c) start end) candidates of
        None \<Rightarrow> Inl NoSpeaker
      | Some c \<Rightarrow> Inr (c, g))"

definition reserve :: "uuid \<Rightarrow> time \<Rightarrow> time \<Rightarrow> unit gen" where
  "reserve u start end = gput (\<lambda>g. g\<lparr>gn_busy := (gn_busy g)(u := gn_busy g u @ [(start, end)])\<rparr>)"

definition pickCandidatesFor :: "seed_env \<Rightarrow> uuid list \<Rightarrow> uuid list \<Rightarrow> uuid list gen" where
  "pickCandidatesFor env pool memberIDs =
     (if memberIDs = [] then gret pool
      else gbind (Intn env 100) (\<lambda>x.
        if x < 40 then gret pool
        else gbind (Shuffle env memberIDs) (\<lambda>shuffled. gret (shuffled @ pool))))"

definition addSession :: "seed_env \<Rightarrow> uuid list \<Rightarrow> uuid \<Rightarrow> uuid \<Rightarrow> uuid list \<Rightarrow> string \<Rightarrow> time \<Rightarrow> time \<Rightarrow> unit gen" where
  "addSession env pool eventID roomID memberIDs title start end =
     gbind (pickCandidatesFor env pool memberIDs) (\<lambda>candidates.
     gbind (pickSpeaker candidates start end) (\<lambda>speaker.
     gbind (reserve speaker start end) (\<lambda>_.
     gbind (newUUIDv7 env) (\<lambda>i.
     gput (\<lambda>g. g\<lparr>gn_sessions := gn_sessions g @ [\<lparr>se_id = i, se_event_id = eventID, se_room_id = roomID,
       se_speaker_id = speaker, se_title = title, se_description = None, se_starts_at = start, se_ends_at = end,
       se_version = 1, se_created_at = seedBaseTime, se_updated_at = seedBaseTime, se_room_name = [],
       se_speaker_name = [], se_series_id = None\<rparr>]\<rparr>)))))"

definition addGenericSessions ::
    "seed_env \<Rightarrow> uuid list \<Rightarrow> uuid \<Rightarrow> uuid \<Rightarrow> uuid list \<Rightarrow> time \<Rightarrow> int \<Rightarrow> string \<Rightarrow> unit gen" where
  "addGenericSessions env pool eventID roomID memberIDs cursor count titlePrefix =
     gbind (gfold (\<lambda>cursor j.
       gbind (Intn env 3) (\<lambda>x.
       let start = cursor; end = start + minutes (30 + 30 * x) in
       gbind (addSession env pool eventID roomID memberIDs (titlePrefix @ '' Session '' @ decimal (j + 1)) start end) (\<lambda>_.
       gret (end + minutes 30)))) cursor [0..<nat count]) (\<lambda>_. gret ())"

definition distributeSessions ::
    "seed_env \<Rightarrow> uuid list \<Rightarrow> event \<Rightarrow> uuid list \<Rightarrow> uuid list \<Rightarrow> int \<Rightarrow> string \<Rightarrow> unit gen" where
  "distributeSessions env pool ev roomIDs memberIDs totalCount titlePrefix =
     (let n = int (length roomIDs) in
      if n = 0 then gpanic DivideByZero
      else gfold (\<lambda>_ (k, roomID).
        addGenericSessions env pool (ev_id ev) roomID memberIDs (ev_starts_at ev + hours 9)
          (totalCount sdiv n + (if int k < totalCount smod n then 1 else 0)) titlePrefix) () (enumerate 0 roomIDs))"

section \<open>Invitations\<close>

text \<open>
  \<open>int(float64(n) * 0.8)\<close>: the double nearest to 0.8 lies above it by less than 2 ^ -54, so for
  counts below 2 ^ 50 the product rounds to a number with the integer part of 4 n / 5.
\<close>

definition four_fifths :: "int \<Rightarrow> int" where
  "four_fifths n = (4 * n) sdiv 5"

definition pickRole :: "seed_env \<Rightarrow> string gen" where
  "pickRole env = gbind (Intn env 100) (\<lambda>x.
     gret (if x < 80 then ''attendee'' else if x < 95 then ''contributor'' else ''admin''))"

definition addInvitation :: "seed_env \<Rightarrow> uuid \<Rightarrow> uuid option \<Rightarrow> string \<Rightarrow> unit gen" where
  "addInvitation env eventID userID email =
     gbind (newUUIDv7 env) (\<lambda>i.
     gbind (pickRole env) (\<lambda>role.
     gput (\<lambda>g. g\<lparr>gn_invitations := gn_invitations g @ [\<lparr>iv_id = i, iv_event_id = eventID, iv_user_id = userID,
       iv_email = email, iv_role = role, iv_created_at = seedBaseTime, iv_updated_at = seedBaseTime\<rparr>]\<rparr>)))"

definition external_email :: "nat \<Rightarrow> nat \<Rightarrow> string" where
  "external_email seq n = ''seed-ext-'' @ decimal seq @ ''-'' @ decimal n @ ''@seed-external.example''"

definition addInvitations :: "seed_env \<Rightarrow> seed_config \<Rightarrow> user list \<Rightarrow> uuid \<Rightarrow> unit gen" where
  "addInvitations env cfg users eventID =
     (let realCount = four_fifths (InvitationsPerEvent cfg);
          externalCount = InvitationsPerEvent cfg - realCount in
      gbind (Perm env (length users)) (\<lambda>perm.
      if realCount < 0 \<or> int (length perm) < realCount then gpanic BadSlice
      else gbind (gfold (\<lambda>_ idx. addInvitation env eventID (Some (usr_id (users ! idx))) (usr_email (users ! idx)))
             () (take (nat realCount) perm)) (\<lambda>_.
           gfold (\<lambda>_ n. \<lambda>g. addInvitation env eventID None (external_email (gn_event_seq g) n) g)
             () [1..<Suc (nat externalCount)])))"

section \<open>Events\<close>

definition addBulkEvent :: "seed_env \<Rightarrow> seed_config \<Rightarrow> user list \<Rightarrow> uuid list \<Rightarrow> nat \<Rightarrow> unit gen" where
  "addBulkEvent env cfg users pool i =
     gbind (Intn env (int (length bulkTimezones))) (\<lambda>z.
     let tz = bulkTimezones ! nat z in
     gbind (mustLoadLocation env tz) (\<lambda>loc.
     let name = ''Seed Bulk Event '' @ zero_pad 3 (i + 1);
         startsAt = add_days loc (date_in loc 2026 1 1) (int i * 3);
         endsAt = add_days loc startsAt 14 in
     gbind (newEvent env name tz startsAt endsAt) (\<lambda>ev.
     gbind (addStandardMembers env users (ev_id ev) []) (\<lambda>memberIDs.
     gbind (Intn env (MaxRoomsPerEvent cfg - MinRoomsPerEvent cfg + 1)) (\<lambda>r.
     gbind (addRooms env (ev_id ev) (MinRoomsPerEvent cfg + r)) (\<lambda>roomIDs.
     gbind (Intn env (MaxSessionsPerEvent cfg - MinSessionsPerEvent cfg + 1)) (\<lambda>x.
     gbind (distributeSessions env pool ev roomIDs memberIDs (MinSessionsPerEvent cfg + x) name) (\<lambda>_.
     addInvitations env cfg users (ev_id ev)))))))))"

definition addLargeEvent :: "seed_env \<Rightarrow> seed_config \<Rightarrow> user list \<Rightarrow> uuid list \<Rightarrow> unit gen" where
  "addLargeEvent env cfg users pool =
     gbind (mustLoadLocation env ''Asia/Colombo'') (\<lambda>loc.
     let startsAt = date_in loc 2026 6 1; endsAt = add_days loc startsAt 90 in
     gbind (newEvent env seedLargeEventName ''Asia/Colombo'' startsAt endsAt) (\<lambda>ev.
     gbind (addStandardMembers env users (ev_id ev) []) (\<lambda>memberIDs.
     gbind (addRooms env (ev_id ev) (LargeEventRoomCount cfg)) (\<lambda>roomIDs.
     gbind (distributeSessions env pool ev roomIDs memberIDs (LargeEventSessionCount cfg) seedLargeEventName) (\<lambda>_.
     addInvitations env cfg users (ev_id ev))))))"

definition addDemoEvent :: "seed_env \<Rightarrow> seed_config \<Rightarrow> user list \<Rightarrow> uuid list \<Rightarrow> unit gen" where
  "addDemoEvent env cfg users pool =
     gbind (mustLoadLocation env ''Asia/Colombo'') (\<lambda>loc.
     let startsAt = date_in loc 2026 9 1; endsAt = add_days loc startsAt 14 in
     gbind (newEvent env seedDemoEventName ''Asia/Colombo'' startsAt endsAt) (\<lambda>ev.
     gbind (addStandardMembers env users (ev_id ev) demoIdentities) (\<lambda>memberIDs.
     gbind (Intn env (MaxRoomsPerEvent cfg - MinRoomsPerEvent cfg + 1)) (\<lambda>r.
     gbind (addRooms env (ev_id ev) (MinRoomsPerEvent cfg + r)) (\<lambda>roomIDs.
     gbind (Intn env (MaxSessionsPerEvent cfg - MinSessionsPerEvent cfg + 1)) (\<lambda>x.
     gbind (distributeSessions env pool ev roomIDs memberIDs (MinSessionsPerEvent cfg + x) seedDemoEventName) (\<lambda>_.
     addInvitations env cfg users (ev_id ev))))))))"

definition addDSTFixtureEvent ::
    "seed_env \<Rightarrow> seed_config \<Rightarrow> user list \<Rightarrow> uuid list \<Rightarrow> string \<Rightarrow> string \<Rightarrow> string \<Rightarrow> string \<Rightarrow>
       location \<Rightarrow> int \<Rightarrow> int \<Rightarrow> int \<Rightarrow> int \<Rightarrow> unit gen" where
  "addDSTFixtureEvent env cfg users pool name fixtureTitle localStart localEnd loc year month day windowDays =
     (let startsAt = date_in loc year month day; endsAt = add_days loc startsAt windowDays in
     gbind (newEvent env name ''America/New_York'' startsAt endsAt) (\<lambda>ev.
     gbind (addStandardMembers env users (ev_id ev) []) (\<lambda>memberIDs.
     gbind (addRooms env (ev_id ev) 2) (\<lambda>roomIDs.
     case ResolveLocalTime localStart loc of
       Inl e \<Rightarrow> gpanic BadLocalTime
     | Inr start \<Rightarrow>
         (case ResolveLocalTime localEnd loc of
            Inl e \<Rightarrow> gpanic BadLocalTime
          | Inr end \<Rightarrow>
              gbind (addSession env pool (ev_id ev) (roomIDs ! 0) memberIDs fixtureTitle start end) (\<lambda>_.
              gbind (addGenericSessions env pool (ev_id ev) (roomIDs ! 1) memberIDs (startsAt + hours 9) 2
                (name @ '' Filler'')) (\<lambda>_.
              addInvitations env cfg users (ev_id ev))))))))"

definition new_generator :: gen_state where
  "new_generator = \<lparr>gn_calls = 0, gn_ids = 0, gn_busy = (\<lambda>_. []), gn_event_seq = 0, gn_events = [], gn_rooms = [],
     gn_sessions = [], gn_members = [], gn_invitations = []\<rparr>"

definition generate_events :: "seed_env \<Rightarrow> seed_config \<Rightarrow> user list \<Rightarrow> uuid list \<Rightarrow> unit gen" where
  "generate_events env cfg users pool =
     gbind (gfold (\<lambda>_ i. addBulkEvent env cfg users pool i) () [0..<nat (BulkEventCount cfg)]) (\<lambda>_.
     gbind (mustLoadLocation env ''America/New_York'') (\<lambda>ny.
     gbind (addDSTFixtureEvent env cfg users pool seedDSTSpringForwardEventName seedDSTSpringForwardSessionTitle
       ''2026-03-08T01:30:00'' ''2026-03-08T03:30:00'' ny 2026 3 1 15) (\<lambda>_.
     gbind (mustLoadLocation env ''America/New_York'') (\<lambda>ny.
     gbind (addDSTFixtureEvent env cfg users pool seedDSTFallBackEventName seedDSTFallBackSessionTitle
       ''2026-11-01T00:30:00'' ''2026-11-01T02:30:00'' ny 2026 10 25 (8 + 31)) (\<lambda>_.
     gbind (addLargeEvent env cfg users pool) (\<lambda>_.
     addDemoEvent env cfg users pool))))))"

definition GenerateDataset :: "seed_env \<Rightarrow> seed_config \<Rightarrow> seed_error + dataset" where
  "GenerateDataset env cfg =
     and_then (gbind (generateUsers env cfg) (\<lambda>users.
       gbind (Shuffle env (map usr_id users)) (\<lambda>pool.
       gbind (generate_events env cfg users pool) (\<lambda>_. gret users))) new_generator) (\<lambda>(users, g).
     Inr \<lparr>ds_users = users, ds_events = gn_events g, ds_members = gn_members g, ds_rooms = gn_rooms g,
          ds_sessions = gn_sessions g, ds_invitations = gn_invitations g\<rparr>)"

end
