(* ===== verification/Seed_Load.thy ===== *)
theory Seed_Load
  imports Seed Auth
begin

text \<open>
  cmd/seed/load.go and main.go: how the data set reaches the database and what is deleted first.
  Neither Truncate nor Load is one transaction: every \<open>Exec\<close> and every \<open>CopyFrom\<close> commits on
  its own, so an error leaves what the statements before it did. Also the table-wide overlap check
  of generate.go.
\<close>

section \<open>Statements on whole tables\<close>

type_synonym statement = "db \<Rightarrow> pg_error + db"

text \<open>One statement that inserts several rows: all of them or none.\<close>

primrec insert_all :: "('r \<Rightarrow> statement) \<Rightarrow> 'r list \<Rightarrow> statement" where
  "insert_all ins [] s = Inr s"
| "insert_all ins (r # rs) s = and_then (ins r s) (insert_all ins rs)"

text \<open>Statements that commit one by one; the first error ends the run.\<close>

primrec run_statements :: "statement list \<Rightarrow> db \<Rightarrow> (pg_error + unit) \<times> db" where
  "run_statements [] s = (Inr (), s)"
| "run_statements (f # fs) s = (case f s of Inl e \<Rightarrow> (Inl e, s) | Inr s' \<Rightarrow> run_statements fs s')"

text \<open>
  \<open>DELETE FROM\<close> a table, with the foreign keys of the migrations: those on events cascade, the
  others refuse the deletion of a row that is still named.
\<close>

definition delete_idempotency_keys :: statement where
  "delete_idempotency_keys s = Inr (s\<lparr>t_idempotency := []\<rparr>)"

definition delete_audit_of_users :: statement where
  "delete_audit_of_users s = Inr (s\<lparr>t_audit := filter (\<lambda>a. au_actor_id a \<notin> user_ids s) (t_audit s)\<rparr>)"

definition delete_invitations :: statement where
  "delete_invitations s = Inr (s\<lparr>t_invitations := []\<rparr>)"

definition delete_sessions :: statement where
  "delete_sessions s =
     (if \<exists>x \<in> set (t_exceptions s). xc_session_id x \<in> session_ids s
      then Inl (ForeignKeyViolation ''session_exceptions_session_id_fkey'')
      else Inr (s\<lparr>t_sessions := []\<rparr>))"

definition delete_event_members :: statement where
  "delete_event_members s = Inr (s\<lparr>t_members := []\<rparr>)"

definition delete_rooms :: statement where
  "delete_rooms s =
     (if \<exists>x \<in> set (t_sessions s). sr_room_id x \<in> room_ids s then Inl (ForeignKeyViolation ''sessions_room_id_fkey'')
      else if \<exists>x \<in> set (t_series s). sx_room_id x \<in> room_ids s then Inl (ForeignKeyViolation ''session_series_room_id_fkey'')
      else Inr (s\<lparr>t_rooms := []\<rparr>))"

definition delete_events :: statement where
  "delete_events s =
     (let gone = event_ids s; series = filter (\<lambda>x. sx_event_id x \<notin> gone) (t_series s) in
      Inr (s\<lparr>t_events := [],
             t_members := filter (\<lambda>m. mr_event_id m \<notin> gone) (t_members s),
             t_rooms := filter (\<lambda>r. rr_event_id r \<notin> gone) (t_rooms s),
             t_sessions := filter (\<lambda>x. sr_event_id x \<notin> gone) (t_sessions s),
             t_invitations := filter (\<lambda>i. ir_event_id i \<notin> gone) (t_invitations s),
             t_series := series,
             t_exceptions := filter (\<lambda>c. xc_series_id c \<in> sx_id ` set series) (t_exceptions s)\<rparr>))"

definition delete_users :: statement where
  "delete_users s =
     (if \<exists>m \<in> set (t_members s). mr_user_id m \<in> user_ids s then Inl (ForeignKeyViolation ''event_members_user_id_fkey'')
      else if \<exists>x \<in> set (t_sessions s). sr_speaker_id x \<in> user_ids s then Inl (ForeignKeyViolation ''sessions_speaker_id_fkey'')
      else if \<exists>i \<in> set (t_invitations s). set_option (ir_user_id i) \<inter> user_ids s \<noteq> {} then Inl (ForeignKeyViolation ''invitations_user_id_fkey'')
      else if \<exists>a \<in> set (t_audit s). au_actor_id a \<in> user_ids s then Inl (ForeignKeyViolation ''audit_log_actor_id_fkey'')
      else if \<exists>k \<in> set (t_idempotency s). ik_actor_id k \<in> user_ids s then Inl (ForeignKeyViolation ''idempotency_keys_actor_id_fkey'')
      else if \<exists>x \<in> set (t_series s). sx_speaker_id x \<in> user_ids s then Inl (ForeignKeyViolation ''session_series_speaker_id_fkey'')
      else Inr (s\<lparr>t_users := []\<rparr>))"

definition Truncate :: "db \<Rightarrow> (pg_error + unit) \<times> db" where
  "Truncate = run_statements
     [delete_idempotency_keys, delete_audit_of_users, delete_invitations, delete_sessions, delete_event_members,
      delete_rooms, delete_events, delete_users]"

section \<open>Load\<close>

text \<open>The rows the columns of each COPY or INSERT give; \<open>deleted_at\<close> and \<open>series_id\<close> stay NULL.\<close>

definition user_to_row :: "user \<Rightarrow> user" where
  "user_to_row u = u\<lparr>usr_created_at := pg_time (usr_created_at u), usr_updated_at := pg_time (usr_updated_at u)\<rparr>"

definition event_to_row :: "event \<Rightarrow> event_row" where
  "event_to_row e = \<lparr>er_id = ev_id e, er_name = ev_name e, er_description = ev_description e, er_timezone = ev_timezone e,
     er_starts_at = pg_time (ev_starts_at e), er_ends_at = pg_time (ev_ends_at e), er_version = ev_version e,
     er_deleted_at = None, er_created_at = pg_time (ev_created_at e), er_updated_at = pg_time (ev_updated_at e)\<rparr>"

definition member_to_row :: "member \<Rightarrow> event_member_row" where
  "member_to_row m = \<lparr>mr_id = mb_id m, mr_event_id = mb_event_id m, mr_user_id = mb_user_id m, mr_role = mb_role m,
     mr_version = mb_version m, mr_created_at = pg_time (mb_created_at m), mr_updated_at = pg_time (mb_updated_at m)\<rparr>"

definition room_to_row :: "room \<Rightarrow> room_row" where
  "room_to_row r = \<lparr>rr_id = rm_id r, rr_event_id = rm_event_id r, rr_name = rm_name r, rr_capacity = rm_capacity r,
     rr_version = rm_version r, rr_created_at = pg_time (rm_created_at r), rr_updated_at = pg_time (rm_updated_at r)\<rparr>"

definition session_to_row :: "session \<Rightarrow> session_row" where
  "session_to_row x = \<lparr>sr_id = se_id x, sr_event_id = se_event_id x, sr_room_id = se_room_id x, sr_speaker_id = se_speaker_id x,
     sr_title = se_title x, sr_description = se_description x, sr_starts_at = pg_time (se_starts_at x),
     sr_ends_at = pg_time (se_ends_at x), sr_version = se_version x, sr_deleted_at = None,
     sr_created_at = pg_time (se_created_at x), sr_updated_at = pg_time (se_updated_at x), sr_series_id = None\<rparr>"

definition invitation_to_row :: "invitation \<Rightarrow> invitation_row" where
  "invitation_to_row i = \<lparr>ir_id = iv_id i, ir_event_id = iv_event_id i, ir_user_id = iv_user_id i, ir_email = iv_email i,
     ir_role = iv_role i, ir_created_at = pg_time (iv_created_at i), ir_updated_at = pg_time (iv_updated_at i)\<rparr>"

definition sessionChunkSize :: nat where
  "sessionChunkSize = 1000"

function session_chunks :: "'a list \<Rightarrow> 'a list list" where
  "session_chunks xs = (if xs = [] then [] else take sessionChunkSize xs # session_chunks (drop sessionChunkSize xs))"
  by auto
termination
  by (relation "measure length") (auto simp: sessionChunkSize_def)

declare session_chunks.simps [simp del]

text \<open>The placeholders of one row of a chunk's INSERT; their numbers are \<open>base + 1\<close> to \<open>base + 11\<close>.\<close>

definition row_placeholders :: "nat \<Rightarrow> nat list" where
  "row_placeholders i = (let base = i * 11 in [base + 1..<base + 12])"

definition chunk_placeholders :: "'a list \<Rightarrow> nat list" where
  "chunk_placeholders chunk = concat (map row_placeholders [0..<length chunk])"

definition loadSessionsChunk :: "session list \<Rightarrow> statement" where
  "loadSessionsChunk chunk = (if chunk = [] then Inr else insert_all insert_session (map session_to_row chunk))"

definition loadSessions :: "session list \<Rightarrow> statement list" where
  "loadSessions sessions = map loadSessionsChunk (session_chunks sessions)"

definition Load :: "(string \<Rightarrow> string) \<Rightarrow> dataset \<Rightarrow> db \<Rightarrow> (pg_error + unit) \<times> db" where
  "Load ci ds = run_statements
     ([insert_all (insert_user ci) (map user_to_row (ds_users ds)),
       insert_all insert_event (map event_to_row (ds_events ds)),
       insert_all insert_member (map member_to_row (ds_members ds)),
       insert_all insert_room (map room_to_row (ds_rooms ds))] @
      loadSessions (ds_sessions ds) @
      [insert_all (insert_invitation ci) (map invitation_to_row (ds_invitations ds))])"

section \<open>The overlap check\<close>

text \<open>
  \<open>srt\<close> is \<open>sort.Slice\<close> by StartsAt, which may leave equal starts in any order. The map is
  walked in an order Go does not fix, so which key an error names is open; the label is not.
\<close>

definition noOverlapByKey :: "(session list \<Rightarrow> session list) \<Rightarrow> session list \<Rightarrow> (session \<Rightarrow> uuid) \<Rightarrow> string \<Rightarrow> string option" where
  "noOverlapByKey srt sessions key label =
     (if list_all (\<lambda>k. let group = srt (filter (\<lambda>x. key x = k) sessions) in
           list_all (\<lambda>i. \<not> se_starts_at (group ! i) < se_ends_at (group ! (i - 1))) [1..<length group])
         (map key sessions)
      then None else Some label)"

definition noSpeakerOrRoomOverlap :: "(session list \<Rightarrow> session list) \<Rightarrow> session list \<Rightarrow> string option" where
  "noSpeakerOrRoomOverlap srt sessions =
     (case noOverlapByKey srt sessions se_room_id ''room'' of
        Some e \<Rightarrow> Some e
      | None \<Rightarrow> noOverlapByKey srt sessions se_speaker_id ''speaker'')"

section \<open>The command\<close>

datatype run_error =
    RefusesProduction | TruncateFailed pg_error | GeneratorPanic seed_error | LoadFailed pg_error | SelfCheckFailed

text \<open>
  The mock issuer is not part of the repository: \<open>post\<close> is the status and body with which its
  token endpoint answers a form, if it answers. A \<open>QueryRow\<close> reads the first row of its result.
\<close>

record tokenPayload =
  tp_access_token :: string

definition token_payload_fields :: "(string \<times> tokenPayload field) list" where
  "token_payload_fields = [(''access_token'', in_field tp_access_token tp_access_token_update to_string)]"

definition mintDemoToken :: "(string \<Rightarrow> (nat \<times> string) option) \<Rightarrow> string \<Rightarrow> string option" where
  "mintDemoToken post clientID =
     (case post (''grant_type=client_credentials&client_secret=unused&client_id='' @ clientID) of
        None \<Rightarrow> None
      | Some (status, body) \<Rightarrow>
          if status \<noteq> 200 then None
          else (case Option.bind (json_whole body)
                       (\<lambda>v. decode_struct token_payload_fields v \<lparr>tp_access_token = []\<rparr>) of
                  None \<Rightarrow> None
                | Some payload \<Rightarrow> if tp_access_token payload = [] then None else Some (tp_access_token payload)))"

definition check_identity :: "env \<Rightarrow> (string \<Rightarrow> (nat \<times> string) option) \<Rightarrow> db \<Rightarrow> demoIdentity \<Rightarrow> bool" where
  "check_identity env post s want =
     (case mintDemoToken post (di_client_id want) of
        None \<Rightarrow> False
      | Some token \<Rightarrow>
          (case Verify env token of
             Inl e \<Rightarrow> False
           | Inr claims \<Rightarrow>
               (case find (\<lambda>u. usr_subject u = cl_subject claims) (t_users s) of
                  None \<Rightarrow> False
                | Some u \<Rightarrow>
                    if usr_email u \<noteq> di_email want \<or> usr_name u \<noteq> di_name want then False
                    else (case [mr_role em. em \<leftarrow> t_members s, e \<leftarrow> t_events s,
                                 er_id e = mr_event_id em \<and> mr_user_id em = usr_id u \<and> er_name e = seedDemoEventName] of
                            [] \<Rightarrow> False
                          | role # _ \<Rightarrow> role = di_role want))))"

definition selfCheckDemoIdentities :: "env \<Rightarrow> (string \<Rightarrow> (nat \<times> string) option) \<Rightarrow> db \<Rightarrow> bool" where
  "selfCheckDemoIdentities env post s = list_all (check_identity env post s) demoIdentities"

definition seed_run :: "string \<Rightarrow> env \<Rightarrow> seed_env \<Rightarrow> (string \<Rightarrow> (nat \<times> string) option) \<Rightarrow> db \<Rightarrow> (run_error + dataset) \<times> db" where
  "seed_run mode env sv post s =
     (if mode = ''production'' then (Inl RefusesProduction, s)
      else case Truncate s of
        (Inl e, s1) \<Rightarrow> (Inl (TruncateFailed e), s1)
      | (Inr _, s1) \<Rightarrow>
          (case GenerateDataset sv DefaultConfig of
             Inl p \<Rightarrow> (Inl (GeneratorPanic p), s1)
           | Inr ds \<Rightarrow>
               (case Load (en_ci env) ds s1 of
                  (Inl e, s2) \<Rightarrow> (Inl (LoadFailed e), s2)
                | (Inr _, s2) \<Rightarrow>
                    if selfCheckDemoIdentities env post s2 then (Inr ds, s2) else (Inl SelfCheckFailed, s2))))"

section \<open>What Truncate does\<close>

lemma delete_stmts:
  "delete_idempotency_keys s = Inr (s\<lparr>t_idempotency := []\<rparr>)" "delete_invitations s = Inr (s\<lparr>t_invitations := []\<rparr>)"
  "delete_event_members s = Inr (s\<lparr>t_members := []\<rparr>)"
  by (simp_all add: delete_idempotency_keys_def delete_invitations_def delete_event_members_def)

text \<open>Every audit row has a user as its actor, so the restriction of that DELETE restricts nothing.\<close>

lemma delete_audit_all:
  "db_ok ci s \<Longrightarrow> delete_audit_of_users (s\<lparr>t_idempotency := []\<rparr>) = Inr (s\<lparr>t_idempotency := [], t_audit := []\<rparr>)"
  using db_okD(9) by (fastforce simp: delete_audit_of_users_def audit_ok_def filter_empty_conv)

lemma Truncate_plain:
  assumes "db_ok ci s" "t_series s = []"
  shows "Truncate s = (Inr (), empty_db)"
proof -
  have "t_exceptions s = []"
    using db_okD(7) [OF assms(1)] assms(2) by (cases "t_exceptions s") (auto simp: exceptions_ok_def)
  then show ?thesis
    using assms(2)
    by (simp add: Truncate_def delete_stmts delete_audit_all [OF assms(1)] delete_sessions_def delete_rooms_def
        delete_events_def delete_users_def empty_db_def Let_def)
qed

lemma Truncate_series:
  assumes "db_ok ci s" "t_series s \<noteq> []"
  shows "\<exists>c s'. Truncate s = (Inl (ForeignKeyViolation c), s') \<and> t_invitations s' = [] \<and> t_audit s' = [] \<and>
    t_users s' = t_users s \<and> t_events s' = t_events s \<and> t_rooms s' = t_rooms s"
proof (cases "\<exists>x \<in> set (t_exceptions s). xc_session_id x \<in> session_ids s")
  case True
  then show ?thesis
    by (simp add: Truncate_def delete_stmts delete_audit_all [OF assms(1)] delete_sessions_def)
next
  case False
  obtain x where "x \<in> set (t_series s)" using assms(2) by (cases "t_series s") auto
  then have "\<exists>x \<in> set (t_series s). sx_room_id x \<in> room_ids s"
    using db_okD(6) [OF assms(1)] by (auto simp: series_ok_def)
  with False show ?thesis
    by (simp add: Truncate_def delete_stmts delete_audit_all [OF assms(1)] delete_sessions_def delete_rooms_def)
qed

section \<open>The chunks\<close>

lemma concat_session_chunks: "concat (session_chunks xs) = xs"
  by (induction xs rule: session_chunks.induct) (subst session_chunks.simps, simp)

lemma session_chunks_length: "chunk \<in> set (session_chunks xs) \<Longrightarrow> 0 < length chunk \<and> length chunk \<le> sessionChunkSize"
  by (induction xs rule: session_chunks.induct)
    (subst (asm) session_chunks.simps, auto simp: sessionChunkSize_def split: if_splits)

lemma chunk_placeholders_eq: "chunk_placeholders chunk = [1..<11 * length chunk + 1]"
proof -
  have "concat (map row_placeholders [0..<n]) = [1..<11 * n + 1]" for n
  proof (induction n)
    case (Suc n)
    have "[1..<11 * Suc n + 1] = [1..<11 * n + 1] @ [11 * n + 1..<11 * n + 12]"
      using upt_add_eq_append [of 1 "11 * n + 1" 11] by (simp add: algebra_simps)
    then show ?case using Suc by (simp add: row_placeholders_def Let_def algebra_simps)
  qed simp
  then show ?thesis by (simp add: chunk_placeholders_def)
qed

lemma insert_all_append: "insert_all ins (xs @ ys) s = and_then (insert_all ins xs s) (insert_all ins ys)"
  by (induction xs arbitrary: s) (auto simp: and_then_def split: sum.splits)

lemma run_statements_append:
  "run_statements (fs @ gs) s = (case run_statements fs s of (Inl e, s') \<Rightarrow> (Inl e, s') | (Inr _, s') \<Rightarrow> run_statements gs s')"
  by (induction fs arbitrary: s) (auto split: sum.splits)

end
