(* ===== verification/Seed_Steps.thy ===== *)
theory Seed_Steps
  imports Seed_Load Invariants "HOL-Library.Multiset"
begin

text \<open>
  Reasoning about the generator of cmd/seed: \<open>runs m g Q\<close> says that \<open>m\<close> started in \<open>g\<close> ends
  without a panic and that \<open>Q\<close> holds of its result and final state. What is assumed of the
  random source, the ids and the zones, what every step keeps (\<open>gen_ok\<close>: the rows so far satisfy
  the constraints of the schema), and the steps that add rows.
\<close>

section \<open>Runs\<close>

definition runs :: "'a gen \<Rightarrow> gen_state \<Rightarrow> ('a \<Rightarrow> gen_state \<Rightarrow> bool) \<Rightarrow> bool" where
  "runs m g Q = (case m g of Inl e \<Rightarrow> False | Inr (a, g') \<Rightarrow> Q a g')"

lemma runs_ret [simp]: "runs (gret a) g Q = Q a g"
  by (simp add: runs_def gret_def)

lemma runs_put [simp]: "runs (gput f) g Q = Q () (f g)"
  by (simp add: runs_def gput_def)

lemma runs_bind [simp]: "runs (gbind m f) g Q = runs m g (\<lambda>a g'. runs (f a) g' Q)"
  by (auto simp: runs_def gbind_def and_then_def split: sum.splits)

lemma runs_uuid [simp]: "runs (newUUIDv7 env) g Q = Q (sv_uuid env (gn_ids g)) (g\<lparr>gn_ids := Suc (gn_ids g)\<rparr>)"
  by (simp add: runs_def newUUIDv7_def)

lemma runs_mono: "runs m g Q \<Longrightarrow> (\<And>a g'. Q a g' \<Longrightarrow> R a g') \<Longrightarrow> runs m g R"
  by (auto simp: runs_def split: sum.splits)

lemma runs_conj: "runs m g Q \<Longrightarrow> runs m g R \<Longrightarrow> runs m g (\<lambda>a g'. Q a g' \<and> R a g')"
  by (auto simp: runs_def split: sum.splits)

text \<open>A loop, by an invariant over the number of elements done.\<close>

lemma runs_fold_gen:
  assumes "\<And>i b g. i < length xs \<Longrightarrow> I (k + i) b g \<Longrightarrow> runs (f b (xs ! i)) g (I (Suc (k + i)))" "I k b g"
  shows "runs (gfold f b xs) g (I (k + length xs))"
  using assms
proof (induction xs arbitrary: k b g)
  case (Cons x xs)
  have "runs (f b x) g (I (Suc k))" using Cons.prems(1) [of 0] Cons.prems(2) by simp
  then have "runs (f b x) g (\<lambda>b' g'. runs (gfold f b' xs) g' (I (Suc k + length xs)))"
  proof (rule runs_mono)
    show "runs (gfold f b' xs) g' (I (Suc k + length xs))" if "I (Suc k) b' g'" for b' g'
      by (rule Cons.IH [OF _ that]) (use Cons.prems(1) [of "Suc _"] in auto)
  qed
  then show ?case by simp
qed simp

lemma runs_fold:
  assumes "\<And>i b g. i < length xs \<Longrightarrow> I i b g \<Longrightarrow> runs (f b (xs ! i)) g (I (Suc i))" "I 0 b g"
  shows "runs (gfold f b xs) g (I (length xs))"
  using runs_fold_gen [of xs I 0 f b g] assms by simp

section \<open>What is assumed of the environment\<close>

text \<open>
  The random source: \<open>Intn\<close> stays below its bound, \<open>Perm\<close> and \<open>Shuffle\<close> permute, and every
  value below a bound turns up again and again. Ids are never drawn twice. A zone's offsets are
  at most a day, and the zones the generator names are in the database.
\<close>

definition source_ok :: "seed_env \<Rightarrow> bool" where
  "source_ok env = (\<forall>call n. (0 < n \<longrightarrow> sv_intn env call n < n) \<and>
     mset (sv_perm env call n) = mset [0..<n] \<and> mset (sv_shuffle env call n) = mset [0..<n])"

definition fair_source :: "seed_env \<Rightarrow> bool" where
  "fair_source env = (\<forall>n k call. k < n \<longrightarrow> (\<exists>later \<ge> call. sv_intn env later n = k))"

definition zone_ok :: "location \<Rightarrow> bool" where
  "zone_ok loc = (\<forall>u. \<bar>offset_at loc u\<bar> \<le> 86400)"

definition zones_ok :: "seed_env \<Rightarrow> bool" where
  "zones_ok env = (\<forall>name \<in> set (''America/New_York'' # bulkTimezones).
     \<exists>loc. LoadLocation (sv_zoneinfo env) (sv_host env) name = Some loc \<and> zone_ok loc)"

text \<open>The two fixture sessions, in the zone of New York.\<close>

definition fixtures_ok :: "location \<Rightarrow> bool" where
  "fixtures_ok loc = list_all (\<lambda>(a, b). case (ResolveLocalTime a loc, ResolveLocalTime b loc) of
       (Inr t, Inr u) \<Rightarrow> t < u \<and> t mod 1000 = 0 \<and> u mod 1000 = 0
     | _ \<Rightarrow> False)
     [(''2026-03-08T01:30:00'', ''2026-03-08T03:30:00''), (''2026-11-01T00:30:00'', ''2026-11-01T02:30:00'')]"

definition fixture_zone_ok :: "seed_env \<Rightarrow> bool" where
  "fixture_zone_ok env =
     (case LoadLocation (sv_zoneinfo env) (sv_host env) ''America/New_York'' of None \<Rightarrow> False | Some loc \<Rightarrow> fixtures_ok loc)"

text \<open>\<open>citext\<close> keeps different texts of lower-case letters, digits, dashes, dots and at signs apart.\<close>

definition plain_email :: "string \<Rightarrow> bool" where
  "plain_email = list_all (\<lambda>c. 97 \<le> (of_char c :: nat) \<and> (of_char c :: nat) \<le> 122 \<or> is_digit c \<or> c \<in> set ''-.@'')"

definition folds_plain :: "(string \<Rightarrow> string) \<Rightarrow> bool" where
  "folds_plain ci = (\<forall>s t. plain_email s \<longrightarrow> plain_email t \<longrightarrow> ci s = ci t \<longrightarrow> s = t)"

definition seed_env_ok :: "seed_env \<Rightarrow> bool" where
  "seed_env_ok env = (source_ok env \<and> fair_source env \<and> inj (sv_uuid env) \<and> zones_ok env \<and> fixture_zone_ok env)"

lemma runs_Intn:
  assumes "source_ok env" "0 < n" "\<And>x. 0 \<le> x \<Longrightarrow> x < n \<Longrightarrow> Q x (g\<lparr>gn_calls := Suc (gn_calls g)\<rparr>)"
  shows "runs (Intn env n) g Q"
proof -
  have "sv_intn env (gn_calls g) (nat n) < nat n" using assms(1,2) by (simp add: source_ok_def)
  then have "int (sv_intn env (gn_calls g) (nat n)) < n" by linarith
  then show ?thesis using assms(2,3) by (simp add: runs_def Intn_def)
qed

lemma runs_Perm:
  assumes "source_ok env" "\<And>p. mset p = mset [0..<n] \<Longrightarrow> Q p (g\<lparr>gn_calls := Suc (gn_calls g)\<rparr>)"
  shows "runs (Perm env n) g Q"
  using assms by (auto simp: runs_def Perm_def source_ok_def)

lemma runs_Shuffle:
  assumes "source_ok env" "\<And>ys. mset ys = mset xs \<Longrightarrow> Q ys (g\<lparr>gn_calls := Suc (gn_calls g)\<rparr>)"
  shows "runs (Shuffle env xs) g Q"
proof -
  let ?p = "sv_shuffle env (gn_calls g) (length xs)"
  have "mset ?p = mset [0..<length xs]" using assms(1) unfolding source_ok_def by blast
  then have "mset (map (\<lambda>i. xs ! i) ?p) = mset (map (\<lambda>i. xs ! i) [0..<length xs])" unfolding mset_map by (rule arg_cong)
  then have "mset (map (\<lambda>i. xs ! i) ?p) = mset xs" unfolding map_nth .
  then show ?thesis using assms(2) by (simp add: runs_def Shuffle_def)
qed

section \<open>Picking users\<close>

text \<open>A draw of something new comes sooner or later, and each one brings the end closer.\<close>

lemma pick_loop_next:
  assumes "\<And>call. intn call (length users) < length users" "length picked < n"
    and "users ! intn later (length users) \<notin> set picked \<union> set exclude" "call \<le> later"
  shows "\<exists>i next. i \<in> set users - set exclude - set picked \<and>
    pick_loop intn users exclude n picked call = pick_loop intn users exclude n (picked @ [i]) next"
  using assms(4)
proof (induction "later - call" arbitrary: call)
  case 0
  then have "call = later" by simp
  let ?i = "users ! intn later (length users)"
  have "pick_loop intn users exclude n picked call = pick_loop intn users exclude n (picked @ [?i]) (Suc later)"
    using assms(2,3) \<open>call = later\<close> by (subst pick_loop.simps) (simp add: Let_def)
  moreover have "?i \<in> set users" using assms(1) by simp
  ultimately show ?case using assms(3) by blast
next
  case (Suc d)
  let ?i = "users ! intn call (length users)"
  show ?case
  proof (cases "?i \<in> set picked \<or> ?i \<in> set exclude")
    case True
    then have "pick_loop intn users exclude n picked call = pick_loop intn users exclude n picked (Suc call)"
      using assms(2) by (subst pick_loop.simps) (simp add: Let_def)
    then show ?thesis using Suc by simp
  next
    case False
    then have "pick_loop intn users exclude n picked call = pick_loop intn users exclude n (picked @ [?i]) (Suc call)"
      using assms(2) by (subst pick_loop.simps) (simp add: Let_def)
    then show ?thesis using False assms(1) [of call] by (metis DiffI nth_mem)
  qed
qed

lemma pick_loop_ends:
  assumes "\<And>call. intn call (length users) < length users"
    and fair: "\<And>k call. k < length users \<Longrightarrow> \<exists>later \<ge> call. intn later (length users) = k"
    and enough: "n \<le> card (set users - set exclude)"
    and "distinct picked" "set picked \<subseteq> set users - set exclude" "length picked \<le> n"
  shows "\<exists>ps calls. pick_loop intn users exclude n picked call = Some (ps, calls) \<and> distinct ps \<and>
    set ps \<subseteq> set users - set exclude \<and> length ps = n"
  using assms(4-6)
proof (induction "n - length picked" arbitrary: picked call)
  case 0
  then show ?case by (subst pick_loop.simps) simp
next
  case (Suc d)
  have "card (set picked) < card (set users - set exclude)"
    using Suc.hyps(2) Suc.prems(1) enough by (simp add: distinct_card)
  then obtain u where "u \<in> set users - set exclude" "u \<notin> set picked"
    by (metis List.finite_set card_mono linorder_not_le subsetI)
  then obtain k where "k < length users" "users ! k \<notin> set picked \<union> set exclude" by (auto simp: in_set_conv_nth)
  then obtain later where "call \<le> later" "users ! intn later (length users) \<notin> set picked \<union> set exclude"
    using fair by metis
  then obtain i "next" where i: "i \<in> set users - set exclude - set picked"
    "pick_loop intn users exclude n picked call = pick_loop intn users exclude n (picked @ [i]) next"
    using pick_loop_next [where intn = intn and users = users, OF assms(1)] Suc.hyps(2) by (metis zero_less_Suc zero_less_diff)
  then show ?case
    using Suc.hyps(1) [of "picked @ [i]" "next"] Suc.hyps(2) Suc.prems by auto
qed

text \<open>The cap at the users that are left is what makes the loop end.\<close>

lemma runs_pickDistinctUsers:
  assumes "source_ok env" "fair_source env" "distinct (map usr_id users)" "set exclude \<subseteq> usr_id ` set users"
    and "\<And>ps calls. distinct ps \<Longrightarrow> set ps \<subseteq> usr_id ` set users - set exclude \<Longrightarrow>
      length ps = nat (min n (int (length users) - int (card (set exclude)))) \<Longrightarrow> Q ps (g\<lparr>gn_calls := calls\<rparr>)"
  shows "runs (pickDistinctUsers env users n exclude) g Q"
proof -
  let ?ids = "map usr_id users"
  define m where "m = min n (int (length users) - int (card (set exclude)))"
  have card: "card (set ?ids - set exclude) = length users - card (set exclude)"
    using assms(3,4) by (simp add: card_Diff_subset distinct_card [of ?ids, simplified])
  show ?thesis
  proof (cases "m \<le> 0")
    case True
    then have "pickDistinctUsers env users n exclude g = Inr ([], g)"
      by (auto simp: pickDistinctUsers_def m_def Let_def min_def split: if_splits)
    then show ?thesis
      using assms(5) [of "[]" "gn_calls g"] True by (simp add: runs_def m_def)
  next
    case False
    then have pos: "0 < length ?ids" using m_def by auto
    have "\<exists>ps calls. pick_loop (sv_intn env) ?ids exclude (nat m) [] (gn_calls g) = Some (ps, calls) \<and> distinct ps \<and>
        set ps \<subseteq> set ?ids - set exclude \<and> length ps = nat m"
    proof (rule pick_loop_ends)
      show "sv_intn env call (length ?ids) < length ?ids" for call using assms(1) pos by (simp add: source_ok_def)
      show "\<exists>later \<ge> call. sv_intn env later (length ?ids) = k" if "k < length ?ids" for k call
        using assms(2) that by (simp add: fair_source_def)
      show "nat m \<le> card (set ?ids - set exclude)" unfolding card m_def by linarith
    qed simp_all
    then obtain ps calls where ps: "pick_loop (sv_intn env) ?ids exclude (nat m) [] (gn_calls g) = Some (ps, calls)"
      "distinct ps" "set ps \<subseteq> set ?ids - set exclude" "length ps = nat m" by blast
    then have "pickDistinctUsers env users n exclude g = Inr (ps, g\<lparr>gn_calls := calls\<rparr>)"
      using False by (simp add: pickDistinctUsers_def m_def Let_def min_def split: if_splits)
    then show ?thesis using assms(5) [of ps calls] ps by (simp add: runs_def m_def)
  qed
qed

section \<open>What every step keeps\<close>

text \<open>The rows so far as a database, the ids they use, and who is on an event.\<close>

definition gen_db :: "user list \<Rightarrow> gen_state \<Rightarrow> db" where
  "gen_db users g = empty_db\<lparr>t_users := map user_to_row users, t_events := map event_to_row (gn_events g),
     t_members := map member_to_row (gn_members g), t_rooms := map room_to_row (gn_rooms g),
     t_sessions := map session_to_row (gn_sessions g), t_invitations := map invitation_to_row (gn_invitations g)\<rparr>"

definition used_ids :: "user list \<Rightarrow> gen_state \<Rightarrow> uuid set" where
  "used_ids users g = usr_id ` set users \<union> ev_id ` set (gn_events g) \<union> mb_id ` set (gn_members g) \<union>
     rm_id ` set (gn_rooms g) \<union> se_id ` set (gn_sessions g) \<union> iv_id ` set (gn_invitations g)"

definition busy_exact :: "gen_state \<Rightarrow> bool" where
  "busy_exact g = (\<forall>u. gn_busy g u = map (\<lambda>x. (se_starts_at x, se_ends_at x)) (filter (\<lambda>x. se_speaker_id x = u) (gn_sessions g)))"

definition whole :: "time \<Rightarrow> bool" where
  "whole t = (t mod 1000 = 0)"

definition gen_ok :: "seed_env \<Rightarrow> (string \<Rightarrow> string) \<Rightarrow> user list \<Rightarrow> gen_state \<Rightarrow> bool" where
  "gen_ok env ci users g = (db_ok ci (gen_db users g) \<and> used_ids users g \<subseteq> sv_uuid env ` {..<gn_ids g} \<and> busy_exact g \<and>
     (\<forall>x \<in> set (gn_sessions g). whole (se_starts_at x) \<and> whole (se_ends_at x)) \<and>
     (\<forall>r \<in> set (gn_rooms g). rm_capacity r = None))"

definition roster :: "gen_state \<Rightarrow> uuid \<Rightarrow> uuid set" where
  "roster g ev = mb_user_id ` {m \<in> set (gn_members g). mb_event_id m = ev}"

lemma pg_time_whole [simp]: "whole t \<Longrightarrow> pg_time t = t"
  by (auto simp: whole_def pg_time_def)

lemma row_ids [simp]:
  "usr_id (user_to_row u) = usr_id u" "usr_subject (user_to_row u) = usr_subject u" "usr_email (user_to_row u) = usr_email u"
  "er_id (event_to_row e) = ev_id e" "mr_id (member_to_row m) = mb_id m" "mr_event_id (member_to_row m) = mb_event_id m"
  "mr_user_id (member_to_row m) = mb_user_id m" "mr_role (member_to_row m) = mb_role m" "rr_id (room_to_row r) = rm_id r"
  "rr_event_id (room_to_row r) = rm_event_id r" "rr_name (room_to_row r) = rm_name r" "rr_capacity (room_to_row r) = rm_capacity r"
  "sr_id (session_to_row x) = se_id x" "sr_event_id (session_to_row x) = se_event_id x" "sr_room_id (session_to_row x) = se_room_id x"
  "sr_speaker_id (session_to_row x) = se_speaker_id x" "sr_deleted_at (session_to_row x) = None" "sr_series_id (session_to_row x) = None"
  "sr_starts_at (session_to_row x) = pg_time (se_starts_at x)" "sr_ends_at (session_to_row x) = pg_time (se_ends_at x)"
  "ir_id (invitation_to_row i) = iv_id i" "ir_event_id (invitation_to_row i) = iv_event_id i"
  "ir_user_id (invitation_to_row i) = iv_user_id i" "ir_email (invitation_to_row i) = iv_email i" "ir_role (invitation_to_row i) = iv_role i"
  by (simp_all add: user_to_row_def event_to_row_def member_to_row_def room_to_row_def session_to_row_def invitation_to_row_def)

lemma row_images [simp]:
  "usr_id ` user_to_row ` A = usr_id ` A" "er_id ` event_to_row ` B = ev_id ` B" "mr_id ` member_to_row ` C = mb_id ` C"
  "rr_id ` room_to_row ` D = rm_id ` D" "sr_id ` session_to_row ` E = se_id ` E" "ir_id ` invitation_to_row ` F = iv_id ` F"
  by (simp_all add: image_image)

lemma gen_db_simps [simp]:
  "t_users (gen_db users g) = map user_to_row users" "t_events (gen_db users g) = map event_to_row (gn_events g)"
  "t_members (gen_db users g) = map member_to_row (gn_members g)" "t_rooms (gen_db users g) = map room_to_row (gn_rooms g)"
  "t_sessions (gen_db users g) = map session_to_row (gn_sessions g)"
  "t_invitations (gen_db users g) = map invitation_to_row (gn_invitations g)"
  "t_series (gen_db users g) = []" "t_exceptions (gen_db users g) = []" "t_audit (gen_db users g) = []" "t_idempotency (gen_db users g) = []"
  by (simp_all add: gen_db_def empty_db_def)

lemma gen_db_ids [simp]:
  "user_ids (gen_db users g) = usr_id ` set users" "event_ids (gen_db users g) = ev_id ` set (gn_events g)"
  "room_ids (gen_db users g) = rm_id ` set (gn_rooms g)"
  by (simp_all add: image_image)

lemma gen_okD:
  assumes "gen_ok env ci users g"
  shows "db_ok ci (gen_db users g)" "busy_exact g" "used_ids users g \<subseteq> sv_uuid env ` {..<gn_ids g}"
  using assms by (simp_all add: gen_ok_def)

lemma fresh_id:
  assumes "gen_ok env ci users g" "inj (sv_uuid env)"
  shows "sv_uuid env (gn_ids g) \<notin> used_ids users g"
proof
  assume "sv_uuid env (gn_ids g) \<in> used_ids users g"
  then have "sv_uuid env (gn_ids g) \<in> sv_uuid env ` {..<gn_ids g}" using gen_okD(3) [OF assms(1)] by blast
  then show False using assms(2) by (auto dest: injD)
qed

text \<open>Calls of the random source change nothing of this.\<close>

lemma gen_ok_calls [simp]: "gen_ok env ci users (g\<lparr>gn_calls := c\<rparr>) = gen_ok env ci users g"
  by (simp add: gen_ok_def gen_db_def used_ids_def busy_exact_def)

lemma roster_calls [simp]: "roster (g\<lparr>gn_calls := c\<rparr>) ev = roster g ev" "roster (g\<lparr>gn_ids := i\<rparr>) ev = roster g ev"
  by (simp_all add: roster_def)

text \<open>A step that appends one row: the constraints are those its INSERT would check.\<close>

lemma gen_ok_append:
  assumes "gen_ok env ci users g" "db_ok ci (gen_db users g')" "gn_ids g' = Suc (gn_ids g)"
    and "used_ids users g' = insert (sv_uuid env (gn_ids g)) (used_ids users g)"
    and "busy_exact g'" "\<forall>x \<in> set (gn_sessions g'). whole (se_starts_at x) \<and> whole (se_ends_at x)"
    and "\<forall>r \<in> set (gn_rooms g'). rm_capacity r = None"
  shows "gen_ok env ci users g'"
  using assms gen_okD(3) [OF assms(1)] unfolding gen_ok_def by (auto simp: lessThan_Suc)

section \<open>Events and members\<close>

lemma runs_newEvent:
  assumes "gen_ok env ci users g" "inj (sv_uuid env)" "pg_time st < pg_time en"
    and "\<And>ev g'. gen_ok env ci users g' \<Longrightarrow> ev_id ev \<notin> used_ids users g \<Longrightarrow> ev_starts_at ev = st \<Longrightarrow>
      g' = g\<lparr>gn_ids := gn_ids g', gn_events := gn_events g @ [ev], gn_event_seq := Suc (gn_event_seq g)\<rparr> \<Longrightarrow> Q ev g'"
  shows "runs (newEvent env name tz st en) g Q"
proof -
  let ?ev = "\<lparr>ev_id = sv_uuid env (gn_ids g), ev_name = name, ev_description = None, ev_timezone = tz, ev_starts_at = st,
               ev_ends_at = en, ev_version = 1, ev_created_at = seedBaseTime, ev_updated_at = seedBaseTime\<rparr>"
  let ?g = "g\<lparr>gn_ids := Suc (gn_ids g), gn_events := gn_events g @ [?ev], gn_event_seq := Suc (gn_event_seq g)\<rparr>"
  have fresh: "ev_id ?ev \<notin> used_ids users g" using fresh_id [OF assms(1,2)] by simp
  have "insert_event (event_to_row ?ev) (gen_db users g) = Inr (gen_db users ?g)"
    using fresh assms(3) by (auto simp: insert_event_Inr gen_db_def event_check_def event_to_row_def used_ids_def)
  then have "db_ok ci (gen_db users ?g)" using insert_event_ok gen_okD(1) [OF assms(1)] by blast
  then have "gen_ok env ci users ?g"
    by (rule gen_ok_append [OF assms(1)]) (use assms(1) in \<open>auto simp: used_ids_def gen_ok_def busy_exact_def\<close>)
  then show ?thesis using assms(4) [of ?g ?ev] fresh by (simp add: newEvent_def Let_def)
qed

definition same_but_members :: "gen_state \<Rightarrow> gen_state \<Rightarrow> bool" where
  "same_but_members g g' = (gn_events g' = gn_events g \<and> gn_rooms g' = gn_rooms g \<and> gn_sessions g' = gn_sessions g \<and>
     gn_invitations g' = gn_invitations g \<and> gn_busy g' = gn_busy g \<and> gn_event_seq g' = gn_event_seq g \<and>
     set (gn_members g) \<subseteq> set (gn_members g'))"

lemma same_but_members_refl: "same_but_members g g" "same_but_members g (g\<lparr>gn_calls := c\<rparr>)"
  by (simp_all add: same_but_members_def)

lemma same_but_members_trans: "same_but_members g g' \<Longrightarrow> same_but_members g' g'' \<Longrightarrow> same_but_members g g''"
  by (auto simp: same_but_members_def)

lemma roster_append:
  "gn_members g' = gn_members g @ [m] \<Longrightarrow>
     roster g' ev = (if mb_event_id m = ev then insert (mb_user_id m) (roster g ev) else roster g ev)"
  by (auto simp: roster_def)

lemma runs_addMember:
  assumes "gen_ok env ci users g" "inj (sv_uuid env)" "ev \<in> ev_id ` set (gn_events g)" "u \<in> usr_id ` set users"
    and "role \<in> set knownRoles" "u \<notin> roster g ev"
    and "\<And>g' m. gen_ok env ci users g' \<Longrightarrow> same_but_members g g' \<Longrightarrow> roster g' ev = insert u (roster g ev) \<Longrightarrow>
      m \<in> set (gn_members g') \<Longrightarrow> mb_event_id m = ev \<Longrightarrow> mb_user_id m = u \<Longrightarrow> mb_role m = role \<Longrightarrow> Q () g'"
  shows "runs (addMember env ev u role) g Q"
proof -
  let ?m = "\<lparr>mb_id = sv_uuid env (gn_ids g), mb_event_id = ev, mb_user_id = u, mb_user_email = [],
       mb_user_name = [], mb_role = role, mb_version = 1, mb_created_at = seedBaseTime, mb_updated_at = seedBaseTime\<rparr>"
  let ?g = "g\<lparr>gn_ids := Suc (gn_ids g), gn_members := gn_members g @ [?m]\<rparr>"
  have fresh: "mb_id ?m \<notin> used_ids users g" using fresh_id [OF assms(1,2)] by simp
  have "insert_member (member_to_row ?m) (gen_db users g) = Inr (gen_db users ?g)"
    using fresh assms(3-6) by (auto simp: insert_member_Inr used_ids_def roster_def)
  then have "db_ok ci (gen_db users ?g)" using insert_member_ok gen_okD(1) [OF assms(1)] by blast
  then have ok: "gen_ok env ci users ?g"
    by (rule gen_ok_append [OF assms(1)]) (use assms(1) in \<open>auto simp: used_ids_def gen_ok_def busy_exact_def\<close>)
  have "same_but_members g ?g"
    by (auto simp: same_but_members_def)
  moreover have "roster ?g ev = insert u (roster g ev)" using roster_append [of ?g g ?m ev] by simp
  ultimately show ?thesis using assms(7) [OF ok, of ?m] by (simp add: addMember_def)
qed

lemma runs_addRole:
  assumes env: "source_ok env" "fair_source env" "inj (sv_uuid env)" "distinct (map usr_id users)"
    and g: "gen_ok env ci users g" "ev \<in> ev_id ` set (gn_events g)" "role \<in> set knownRoles"
    and ids: "roster g ev = set ids" "set ids \<subseteq> usr_id ` set users"
    and Q: "\<And>ids' g'. gen_ok env ci users g' \<Longrightarrow> same_but_members g g' \<Longrightarrow> roster g' ev = set ids' \<Longrightarrow>
      set ids' \<subseteq> usr_id ` set users \<Longrightarrow> set ids \<subseteq> set ids' \<Longrightarrow>
      (0 < cnt \<Longrightarrow> card (set ids) < length users \<Longrightarrow>
         \<exists>m \<in> set (gn_members g'). mb_event_id m = ev \<and> mb_role m = role) \<Longrightarrow> Q ids' g'"
  shows "runs (addRole env users ev cnt role ids) g Q"
  unfolding addRole_def runs_bind
proof (rule runs_pickDistinctUsers [OF env(1,2,4) ids(2)])
  fix ps calls
  assume ps: "distinct ps" "set ps \<subseteq> usr_id ` set users - set ids"
    "length ps = nat (min cnt (int (length users) - int (card (set ids))))"
  let ?I = "\<lambda>k ids' g'. gen_ok env ci users g' \<and> same_but_members g g' \<and> roster g' ev = set ids' \<and>
    ids' = ids @ take k ps \<and> (0 < k \<longrightarrow> (\<exists>m \<in> set (gn_members g'). mb_event_id m = ev \<and> mb_role m = role))"
  have "runs (gfold (\<lambda>ids i. gbind (addMember env ev i role) (\<lambda>_. gret (ids @ [i]))) ids ps) (g\<lparr>gn_calls := calls\<rparr>) (?I (length ps))"
  proof (rule runs_fold)
    show "?I 0 ids (g\<lparr>gn_calls := calls\<rparr>)"
      using g ids same_but_members_refl by simp
    fix k ids' g'
    assume k: "k < length ps" and I: "?I k ids' g'"
    have "ps ! k \<notin> set (take k ps)" using ps(1) k by (auto simp: distinct_conv_nth in_set_conv_nth)
    moreover have "ps ! k \<in> usr_id ` set users - set ids" using ps(2) nth_mem [OF k] by blast
    ultimately have new: "ps ! k \<notin> roster g' ev" "ps ! k \<in> usr_id ` set users" using I by auto
    have t: "take (Suc k) ps = take k ps @ [ps ! k]" using k by (rule take_Suc_conv_app_nth)
    show "runs (gbind (addMember env ev (ps ! k) role) (\<lambda>_. gret (ids' @ [ps ! k]))) g' (?I (Suc k))"
      unfolding runs_bind
      by (rule runs_addMember [of env ci users])
        (use I new env g same_but_members_trans t in \<open>auto simp: same_but_members_def\<close>)
  qed
  then show "runs (gfold (\<lambda>ids i. gbind (addMember env ev i role) (\<lambda>_. gret (ids @ [i]))) ids ps) (g\<lparr>gn_calls := calls\<rparr>) Q"
  proof (rule runs_mono)
    fix ids' g'
    assume "?I (length ps) ids' g'"
    then show "Q ids' g'" using ps ids by (intro Q) auto
  qed
qed

lemma runs_demo_members:
  assumes env: "inj (sv_uuid env)" "distinct (map usr_id users)" "length demo \<le> length users"
    and demo: "\<And>k. k < length demo \<Longrightarrow> demoUserID users (di_subject (demo ! k)) = usr_id (users ! k) \<and> di_role (demo ! k) \<in> set knownRoles"
    and g: "gen_ok env ci users g" "ev \<in> ev_id ` set (gn_events g)" "roster g ev = {}"
  shows "runs (gfold (\<lambda>ids d. let i = demoUserID users (di_subject d) in
              gbind (addMember env ev i (di_role d)) (\<lambda>_. gret (ids @ [i]))) [] demo) g
    (\<lambda>ids' g'. gen_ok env ci users g' \<and> same_but_members g g' \<and> roster g' ev = set ids' \<and> set ids' \<subseteq> usr_id ` set users \<and>
       length ids' = length demo)"
proof (rule runs_mono)
  let ?I = "\<lambda>k ids' g'. gen_ok env ci users g' \<and> same_but_members g g' \<and> roster g' ev = set ids' \<and>
    ids' = map usr_id (take k users)"
  show "runs (gfold (\<lambda>ids d. let i = demoUserID users (di_subject d) in
              gbind (addMember env ev i (di_role d)) (\<lambda>_. gret (ids @ [i]))) [] demo) g (?I (length demo))"
  proof (rule runs_fold)
    show "?I 0 [] g" using g same_but_members_refl by simp
    fix k ids' g'
    assume k: "k < length demo" and I: "?I k ids' g'"
    then have ku: "k < length users" using env(3) by simp
    have t: "take (Suc k) users = take k users @ [users ! k]" using ku by (rule take_Suc_conv_app_nth)
    have "distinct (map usr_id (take (Suc k) users))" using env(2) by (metis distinct_take take_map)
    then have new: "usr_id (users ! k) \<notin> roster g' ev" using I unfolding t by auto
    show "runs (let i = demoUserID users (di_subject (demo ! k)) in
              gbind (addMember env ev i (di_role (demo ! k))) (\<lambda>_. gret (ids' @ [i]))) g' (?I (Suc k))"
      unfolding Let_def runs_bind
      by (rule runs_addMember [of env ci users])
        (use I new env g demo [OF k] same_but_members_trans t ku in \<open>auto simp: same_but_members_def\<close>)
  qed
next
  fix ids' g'
  assume "gen_ok env ci users g' \<and> same_but_members g g' \<and> roster g' ev = set ids' \<and> ids' = map usr_id (take (length demo) users)"
  then show "gen_ok env ci users g' \<and> same_but_members g g' \<and> roster g' ev = set ids' \<and> set ids' \<subseteq> usr_id ` set users \<and>
       length ids' = length demo"
    using env(3) set_take_subset [of "length demo" users] by auto
qed

lemma demo_ids_of_users:
  assumes "3 \<le> length users" "k < length demoIdentities"
  shows "demoUserID users (di_subject (demoIdentities ! k)) = usr_id (users ! k) \<and> di_role (demoIdentities ! k) \<in> set knownRoles"
proof -
  obtain a b c us where u: "users = a # b # c # us"
    using assms(1) by (metis Suc_le_length_iff numeral_3_eq_3)
  have "k = 0 \<or> k = 1 \<or> k = 2" using assms(2) by (auto simp: demoIdentities_def)
  then show ?thesis by (auto simp: u demoUserID_def demoIdentities_def knownRoles_def)
qed

text \<open>The roster of one event while it grows; \<open>g0\<close> is the state before its first member.\<close>

definition crew :: "seed_env \<Rightarrow> (string \<Rightarrow> string) \<Rightarrow> user list \<Rightarrow> uuid \<Rightarrow> gen_state \<Rightarrow> uuid list \<Rightarrow> gen_state \<Rightarrow> bool" where
  "crew env ci users ev g0 ids g = (gen_ok env ci users g \<and> same_but_members g0 g \<and> roster g ev = set ids \<and>
     set ids \<subseteq> usr_id ` set users)"

definition has_role :: "uuid \<Rightarrow> string \<Rightarrow> gen_state \<Rightarrow> bool" where
  "has_role ev role g = (\<exists>m \<in> set (gn_members g). mb_event_id m = ev \<and> mb_role m = role)"

lemma runs_draw_role:
  assumes env: "source_ok env" "fair_source env" "inj (sv_uuid env)" "distinct (map usr_id users)"
    and g: "crew env ci users ev g0 ids g" "ev \<in> ev_id ` set (gn_events g0)" "role \<in> set knownRoles" "0 < n" "0 < c"
  shows "runs (gbind (Intn env n) (\<lambda>x. addRole env users ev (c + x) role ids)) g
    (\<lambda>ids' g'. crew env ci users ev g0 ids' g' \<and> (\<forall>r. has_role ev r g \<longrightarrow> has_role ev r g') \<and>
       (card (set ids) < length users \<longrightarrow> has_role ev role g'))"
  unfolding runs_bind
proof (rule runs_Intn [OF env(1) g(4)])
  fix x
  assume x: "0 \<le> x" "x < n"
  let ?g = "g\<lparr>gn_calls := Suc (gn_calls g)\<rparr>"
  have "same_but_members g0 ?g" using g(1) same_but_members_refl same_but_members_trans unfolding crew_def by blast
  then show "runs (addRole env users ev (c + x) role ids) ?g
    (\<lambda>ids' g'. crew env ci users ev g0 ids' g' \<and> (\<forall>r. has_role ev r g \<longrightarrow> has_role ev r g') \<and>
       (card (set ids) < length users \<longrightarrow> has_role ev role g'))"
    using g x by (intro runs_addRole [OF env, of ci])
      (auto simp: crew_def has_role_def same_but_members_def)
qed

lemma runs_addStandardMembers:
  assumes env: "source_ok env" "fair_source env" "inj (sv_uuid env)" "distinct (map usr_id users)" "3 < length users"
    and demo: "demo = [] \<or> demo = demoIdentities"
    and g: "gen_ok env ci users g" "ev \<in> ev_id ` set (gn_events g)" "roster g ev = {}"
  shows "runs (addStandardMembers env users ev demo) g
    (\<lambda>ids' g'. gen_ok env ci users g' \<and> same_but_members g g' \<and> set ids' \<subseteq> usr_id ` set users \<and> has_role ev ''admin'' g')"
  unfolding addStandardMembers_def runs_bind [of _ _ g]
proof (rule runs_mono [OF runs_demo_members [OF env(3,4) _ _ g]])
  have d: "length demo \<le> 3" using demo by (auto simp: demoIdentities_def)
  then show "length demo \<le> length users" using env(5) by simp
  show "demoUserID users (di_subject (demo ! k)) = usr_id (users ! k) \<and> di_role (demo ! k) \<in> set knownRoles"
    if "k < length demo" for k
    using demo that demo_ids_of_users [of users k] env(5) by auto
  note draw = runs_draw_role [where ci = ci, OF env(1-4) _ g(2)]
  have known: "{''admin'', ''contributor'', ''attendee''} \<subseteq> set knownRoles" by (simp add: knownRoles_def)
  fix ids1 g1
  assume 1: "gen_ok env ci users g1 \<and> same_but_members g g1 \<and> roster g1 ev = set ids1 \<and> set ids1 \<subseteq> usr_id ` set users \<and>
    length ids1 = length demo"
  then have few: "card (set ids1) < length users" using card_length [of ids1] d env(5) by linarith
  show "runs (gbind (Intn env 2) (\<lambda>a. gbind (addRole env users ev (1 + a) ''admin'' ids1) (\<lambda>ids.
         gbind (Intn env 4) (\<lambda>c. gbind (addRole env users ev (2 + c) ''contributor'' ids) (\<lambda>ids.
         gbind (Intn env 31) (\<lambda>t. addRole env users ev (10 + t) ''attendee'' ids)))))) g1
       (\<lambda>ids' g'. gen_ok env ci users g' \<and> same_but_members g g' \<and> set ids' \<subseteq> usr_id ` set users \<and> has_role ev ''admin'' g')"
    (is "runs _ g1 ?Q")
  proof -
    have "runs (gbind (Intn env 2) (\<lambda>a. addRole env users ev (1 + a) ''admin'' ids1)) g1 (\<lambda>ids2 g2.
        runs (gbind (Intn env 4) (\<lambda>c. addRole env users ev (2 + c) ''contributor'' ids2)) g2 (\<lambda>ids3 g3.
        runs (gbind (Intn env 31) (\<lambda>t. addRole env users ev (10 + t) ''attendee'' ids3)) g3 ?Q))"
    proof (rule runs_mono [OF draw [where ids = ids1 and g = g1]])
      show "crew env ci users ev g ids1 g1" using 1 by (simp add: crew_def)
      fix ids2 g2
      assume 2: "crew env ci users ev g ids2 g2 \<and> (\<forall>r. has_role ev r g1 \<longrightarrow> has_role ev r g2) \<and>
        (card (set ids1) < length users \<longrightarrow> has_role ev ''admin'' g2)"
      show "runs (gbind (Intn env 4) (\<lambda>c. addRole env users ev (2 + c) ''contributor'' ids2)) g2 (\<lambda>ids3 g3.
        runs (gbind (Intn env 31) (\<lambda>t. addRole env users ev (10 + t) ''attendee'' ids3)) g3 ?Q)"
      proof (rule runs_mono [OF draw [where ids = ids2 and g = g2]])
        show "crew env ci users ev g ids2 g2" using 2 by simp
        fix ids3 g3
        assume 3: "crew env ci users ev g ids3 g3 \<and> (\<forall>r. has_role ev r g2 \<longrightarrow> has_role ev r g3) \<and>
          (card (set ids2) < length users \<longrightarrow> has_role ev ''contributor'' g3)"
        show "runs (gbind (Intn env 31) (\<lambda>t. addRole env users ev (10 + t) ''attendee'' ids3)) g3 ?Q"
          by (rule runs_mono [OF draw [where ids = ids3 and g = g3]]) (use 2 3 few known in \<open>auto simp: crew_def\<close>)
      qed (use known in auto)
    qed (use known in auto)
    then show ?thesis by simp
  qed
qed

end
