(* ===== verification/Json_Print.thy ===== *)
theory Json_Print
  imports Cursor_Token
begin

text \<open>
  The printing half of encoding/json: how a string is escaped and how a value becomes text without
  white space, as \<open>Marshal\<close> and \<open>Encoder.Encode\<close> write it. The scanner of Json reads every printed
  value back, and \<open>unquote\<close> undoes the escaping of valid UTF-8.
\<close>

section \<open>Strings\<close>

text \<open>
  \<open>appendString\<close> with HTML escaping: ASCII by \<open>quote_char\<close>, bytes that are no rune as U+FFFD, the two
  line separators U+2028 and U+2029 as escapes, every other rune as it is.
\<close>

definition line_separator :: "string \<Rightarrow> bool" where
  "line_separator s = (take 2 s = [CHR 0xE2, CHR 0x80] \<and> take 1 (drop 2 s) \<in> {[CHR 0xA8], [CHR 0xA9]})"

function json_escape :: "string \<Rightarrow> string" where
  "json_escape s = (case s of
       [] \<Rightarrow> []
     | c # r \<Rightarrow>
         if (of_char c :: nat) < 128 then quote_char c @ json_escape r
         else if rune_length s = 0 then [CHR 0x5C] @ ''ufffd'' @ json_escape r
         else if line_separator s
         then [CHR 0x5C] @ ''u202'' @ [hex_digit (of_char (hd (drop 2 s)) mod 16)] @ json_escape (drop 3 s)
         else take (rune_length s) s @ json_escape (drop (rune_length s) s))"
  by auto
termination by (relation "measure length") auto

declare json_escape.simps [simp del]

text \<open>Text whose every byte belongs to a rune.\<close>

function utf8 :: "string \<Rightarrow> bool" where
  "utf8 s = (if s = [] then True else if rune_length s = 0 then False else utf8 (drop (rune_length s) s))"
  by auto
termination by (relation "measure length") auto

declare utf8.simps [simp del]

section \<open>Values\<close>

fun print_json :: "json \<Rightarrow> string"
  and print_elems :: "json list \<Rightarrow> string"
  and print_members :: "(string \<times> json) list \<Rightarrow> string" where
  "print_json JNull = ''null''"
| "print_json (JBool b) = (if b then ''true'' else ''false'')"
| "print_json (JNum s) = s"
| "print_json (JStr raw) = [CHR 0x22] @ raw @ [CHR 0x22]"
| "print_json (JArr vs) = ''['' @ print_elems vs @ '']''"
| "print_json (JObj ms) = ''{'' @ print_members ms @ ''}''"
| "print_elems [] = []"
| "print_elems (v # vs) = print_json v @ (if vs = [] then [] else '','' @ print_elems vs)"
| "print_members [] = []"
| "print_members ((k, v) # ms) =
     [CHR 0x22] @ k @ [CHR 0x22] @ '':'' @ print_json v @ (if ms = [] then [] else '','' @ print_members ms)"

definition json_text :: "string \<Rightarrow> json" where
  "json_text s = JStr (json_escape s)"

definition int_text :: "int \<Rightarrow> string" where
  "int_text n = (if n < 0 then ''-'' else []) @ decimal (nat \<bar>n\<bar>)"

definition json_int :: "int \<Rightarrow> json" where
  "json_int n = JNum (int_text n)"

text \<open>A nil pointer is printed as \<open>null\<close>, a nil pointer with omitempty not at all.\<close>

definition json_pointer :: "('a \<Rightarrow> json) \<Rightarrow> 'a option \<Rightarrow> json" where
  "json_pointer f x = (case x of None \<Rightarrow> JNull | Some y \<Rightarrow> f y)"

definition omit_empty :: "string \<Rightarrow> ('a \<Rightarrow> json) \<Rightarrow> 'a option \<Rightarrow> (string \<times> json) list" where
  "omit_empty k f x = (case x of None \<Rightarrow> [] | Some y \<Rightarrow> [(k, f y)])"

section \<open>What the scanner reads back\<close>

definition scans :: "string \<Rightarrow> bool" where
  "scans raw = (\<forall>r. scan_string (raw @ CHR 0x22 # r) = Some (raw, r))"

definition ends_number :: "string \<Rightarrow> bool" where
  "ends_number r = (r = [] \<or> hd r \<in> {CHR '','', CHR '']'', CHR ''}'', CHR 0x0A})"

definition number_ok :: "string \<Rightarrow> bool" where
  "number_ok s = (s \<noteq> [] \<and> (hd s = CHR ''-'' \<or> is_digit (hd s)) \<and> (\<forall>r. ends_number r \<longrightarrow> scan_number (s @ r) = Some (s, r)))"

fun printable :: "nat \<Rightarrow> json \<Rightarrow> bool" where
  "printable d JNull = True"
| "printable d (JBool b) = True"
| "printable d (JNum s) = number_ok s"
| "printable d (JStr raw) = scans raw"
| "printable d (JArr vs) = (0 < d \<and> (\<forall>v \<in> set vs. printable (d - 1) v))"
| "printable d (JObj ms) = (0 < d \<and> (\<forall>m \<in> set ms. scans (fst m) \<and> printable (d - 1) (snd m)))"

lemma print_json_nonempty: "printable d v \<Longrightarrow> print_json v \<noteq> [] \<and> \<not> is_ws (hd (print_json v)) \<and> hd (print_json v) \<noteq> CHR '']''"
  by (cases v) (auto simp: number_ok_def is_ws_def is_digit_def)

lemma skip_print: "printable d v \<Longrightarrow> skip_ws (print_json v @ r) = print_json v @ r"
  using print_json_nonempty [of d v] by (cases "print_json v") (auto simp: skip_ws_def)

lemma parse_printed:
  "printable d v \<Longrightarrow> ends_number r \<Longrightarrow> 2 * length (print_json v) \<le> n \<Longrightarrow> parse_value n d (print_json v @ r) = Some (v, r)"
  "\<forall>v \<in> set vs. printable d v \<Longrightarrow> vs \<noteq> [] \<Longrightarrow> 2 * length (print_elems vs) < n \<Longrightarrow>
     parse_elems n d (print_elems vs @ CHR '']'' # r) = Some (vs, r)"
  "\<forall>m \<in> set ms. scans (fst m) \<and> printable d (snd m) \<Longrightarrow> ms \<noteq> [] \<Longrightarrow> 2 * length (print_members ms) < n \<Longrightarrow>
     parse_members n d (print_members ms @ CHR ''}'' # r) = Some (ms, r)"
proof (induction v and vs and ms arbitrary: d n r and d n r and d n r rule: print_json_print_elems_print_members.induct)
  case 1
  then obtain m where "n = Suc m" by (cases n) auto
  then show ?case by (simp add: skip_ws_token is_ws_def scan_literal_def)
next
  case (2 b)
  then obtain m where "n = Suc m" by (cases n) (auto split: if_splits)
  then show ?case by (simp add: skip_ws_token is_ws_def scan_literal_def)
next
  case (3 s)
  then obtain c t where s: "s = c # t" "c = CHR ''-'' \<or> is_digit c" "scan_number (s @ r) = Some (s, r)"
    by (cases s) (auto simp: number_ok_def)
  obtain m where "n = Suc m" using 3(3) s(1) by (cases n) auto
  moreover have "\<not> is_ws c" "c \<noteq> CHR 0x22" "c \<noteq> CHR ''{''" "c \<noteq> CHR ''[''" "c \<noteq> CHR ''t''" "c \<noteq> CHR ''f''" "c \<noteq> CHR ''n''"
    using s(2) by (auto simp: is_ws_def is_digit_def)
  ultimately show ?case using s by (simp add: skip_ws_token)
next
  case (4 raw)
  then obtain m where "n = Suc m" by (cases n) auto
  moreover have "scan_string (raw @ CHR 0x22 # r) = Some (raw, r)" using 4(1) by (simp add: scans_def)
  ultimately show ?case by (simp add: skip_ws_token is_ws_def)
next
  case (5 vs)
  obtain m where m: "n = Suc m" using 5(4) by (cases n) auto
  show ?case
  proof (cases "vs = []")
    case True
    then show ?thesis using 5(2) m by (simp add: skip_ws_token is_ws_def)
  next
    case False
    then have "parse_elems m (d - 1) (print_elems vs @ CHR '']'' # r) = Some (vs, r)"
      using 5 m by (intro 5(1)) auto
    moreover have "take 1 (skip_ws (print_elems vs @ CHR '']'' # r)) \<noteq> '']''"
    proof -
      obtain v ws where "vs = v # ws" using False by (cases vs) auto
      moreover from this have "print_json v \<noteq> [] \<and> \<not> is_ws (hd (print_json v)) \<and> hd (print_json v) \<noteq> CHR '']''"
        using 5(2) by (intro print_json_nonempty [of "d - 1"]) simp
      ultimately show ?thesis by (cases "print_json v") (auto simp: skip_ws_token)
    qed
    ultimately show ?thesis using 5(2) m by (simp add: skip_ws_token is_ws_def)
  qed
next
  case (6 ms)
  obtain m where m: "n = Suc m" using 6(4) by (cases n) auto
  show ?case
  proof (cases "ms = []")
    case True
    then show ?thesis using 6(2) m by (simp add: skip_ws_token is_ws_def)
  next
    case False
    then have "parse_members m (d - 1) (print_members ms @ CHR ''}'' # r) = Some (ms, r)"
      using 6 m by (intro 6(1)) auto
    moreover have "take 1 (skip_ws (print_members ms @ CHR ''}'' # r)) \<noteq> ''}''"
      using False by (cases ms) (auto simp: skip_ws_token is_ws_def)
    ultimately show ?thesis using 6(2) m by (simp add: skip_ws_token is_ws_def)
  qed
next
  case 7
  then show ?case by simp
next
  case (8 v vs)
  obtain m where m: "n = Suc m" using 8(5) by (cases n) auto
  let ?rest = "(if vs = [] then [] else '','' @ print_elems vs) @ CHR '']'' # r"
  have "print_json v \<noteq> []" using 8(3) print_json_nonempty [of d v] by simp
  then have len: "0 < length (print_json v)" by simp
  have "ends_number ?rest" by (simp add: ends_number_def)
  then have v: "parse_value m d (print_json v @ ?rest) = Some (v, ?rest)"
    using 8(3,5) m by (intro 8(1)) simp_all
  show ?case
  proof (cases "vs = []")
    case True
    then show ?thesis using v m by (simp add: skip_ws_token is_ws_def)
  next
    case False
    then have "parse_elems m d (print_elems vs @ CHR '']'' # r) = Some (vs, r)"
      using 8(3,5) m len by (intro 8(2)) simp_all
    then show ?thesis using v m False by (simp add: skip_ws_token is_ws_def)
  qed
next
  case 9
  then show ?case by simp
next
  case (10 k v ms)
  obtain m where m: "n = Suc m" using 10(5) by (cases n) auto
  let ?rest = "(if ms = [] then [] else '','' @ print_members ms) @ CHR ''}'' # r"
  have k: "scan_string (k @ CHR 0x22 # q) = Some (k, q)" for q using 10(3) by (simp add: scans_def)
  have "ends_number ?rest" by (simp add: ends_number_def)
  then have v: "parse_value m d (print_json v @ ?rest) = Some (v, ?rest)"
    using 10(3,5) m by (intro 10(1)) simp_all
  show ?case
  proof (cases "ms = []")
    case True
    then show ?thesis using v m by (simp add: skip_ws_token is_ws_def k del: scan_string.simps)
  next
    case False
    then have "parse_members m d (print_members ms @ CHR ''}'' # r) = Some (ms, r)"
      using 10(3,5) m by (intro 10(2)) simp_all
    then show ?thesis using v m False by (simp add: skip_ws_token is_ws_def k del: scan_string.simps)
  qed
qed

text \<open>\<open>Encode\<close> ends the text with a line feed, \<open>Marshal\<close> does not.\<close>

lemma json_whole_print:
  assumes "printable 10000 v" "r = [] \<or> r = [CHR 0x0A]"
  shows "json_whole (print_json v @ r) = Some v"
proof -
  have "parse_value (json_fuel (print_json v @ r)) 10000 (print_json v @ r) = Some (v, r)"
    using assms by (intro parse_printed(1)) (auto simp: ends_number_def json_fuel_def)
  then show ?thesis using assms(2) by (auto simp: json_whole_def skip_ws_def is_ws_def)
qed


section \<open>Escaped text\<close>

lemma scan_ordinary:
  "c \<noteq> CHR 0x22 \<Longrightarrow> c \<noteq> CHR 0x5C \<Longrightarrow> 32 \<le> (of_char c :: nat) \<Longrightarrow>
     scan_string (c # y) = map_option (\<lambda>(a, b). (c # a, b)) (scan_string y)"
  by simp

lemma scan_ordinary_text:
  "\<forall>c \<in> set x. c \<noteq> CHR 0x22 \<and> c \<noteq> CHR 0x5C \<and> 32 \<le> (of_char c :: nat) \<Longrightarrow>
     scan_string (x @ y) = map_option (\<lambda>(a, b). (x @ a, b)) (scan_string y)"
proof (induction x)
  case Nil
  then show ?case by (cases "scan_string y") auto
next
  case (Cons c x)
  then show ?case by (cases "scan_string y") (auto simp: scan_ordinary simp del: scan_string.simps)
qed

lemma hex_digit_val: "n < 16 \<Longrightarrow> hex_val (hex_digit n) = Some n"
  by (auto simp: hex_val_def hex_digit_def byte_def of_char_of Let_def)

lemma hex_digit_plain: "n < 16 \<Longrightarrow> plain (hex_digit n)"
proof -
  assume "n < 16"
  then have "of_char (hex_digit n) \<in> {48..57} \<union> {97..102 :: nat}"
    by (auto simp: hex_digit_def byte_def of_char_of)
  then show ?thesis by (auto simp: plain_def byte_in_def)
qed

lemma scan_unicode:
  assumes "list_all plain h" "length h = 4" "four_hex (h @ y) \<noteq> None"
  shows "scan_string ([CHR 0x5C, CHR ''u''] @ h @ y) = map_option (\<lambda>(a, b). ([CHR 0x5C, CHR ''u''] @ h @ a, b)) (scan_string y)"
proof -
  have "scan_string (h @ y) = map_option (\<lambda>(a, b). (h @ a, b)) (scan_string y)"
    using assms(1) not_plain plain_range by (intro scan_ordinary_text) (fastforce simp: list_all_iff)
  then show ?thesis using assms(3) by (cases "scan_string y") auto
qed

lemma four_hex_digits:
  "a < 16 \<Longrightarrow> b < 16 \<Longrightarrow> c < 16 \<Longrightarrow> d < 16 \<Longrightarrow>
     four_hex (hex_digit a # hex_digit b # hex_digit c # hex_digit d # y) = Some (((a * 16 + b) * 16 + c) * 16 + d)"
  by (simp add: four_hex_def hex_digit_val)

lemma hex_digit_chars: "CHR ''0'' = hex_digit 0" "CHR ''2'' = hex_digit 2" "CHR ''f'' = hex_digit 15" "CHR ''d'' = hex_digit 13"
  by (simp_all add: hex_digit_def byte_def char_of_def bit_iff_odd)

lemma quote_char_cases:
  assumes "(of_char c :: nat) < 128"
  obtains "quote_char c = [c]" "c \<noteq> CHR 0x22" "c \<noteq> CHR 0x5C" "32 \<le> (of_char c :: nat)"
  | e where "quote_char c = [CHR 0x5C, e]" "is_escape e" "simple_escape e = c"
  | "quote_char c = [CHR 0x5C, CHR ''u'', CHR ''0'', CHR ''0'', hex_digit (of_char c div 16), hex_digit (of_char c mod 16)]"
proof -
  consider "c = CHR 0x22" | "c = CHR 0x5C" | "c = CHR 0x08" | "c = CHR 0x0C" | "c = CHR 0x0A" | "c = CHR 0x0D" | "c = CHR 0x09"
    | "c \<notin> {CHR 0x22, CHR 0x5C, CHR 0x08, CHR 0x0C, CHR 0x0A, CHR 0x0D, CHR 0x09}" by blast
  then show thesis
  proof cases
    case 8
    show thesis
    proof (cases "(of_char c :: nat) < 32 \<or> c \<in> {CHR ''<'', CHR ''>'', CHR ''&''}")
      case True
      show thesis by (rule that(3)) (use 8 True in \<open>simp add: quote_char_def\<close>)
    next
      case False
      show thesis by (rule that(1)) (use 8 False in \<open>simp_all add: quote_char_def\<close>)
    qed
  next
    case 1
    then show thesis by (intro that(2) [of "CHR 0x22"]) (simp_all add: quote_char_def is_escape_def simple_escape_def)
  next
    case 2
    then show thesis by (intro that(2) [of "CHR 0x5C"]) (simp_all add: quote_char_def is_escape_def simple_escape_def)
  next
    case 3
    then show thesis by (intro that(2) [of "CHR ''b''"]) (simp_all add: quote_char_def is_escape_def simple_escape_def)
  next
    case 4
    then show thesis by (intro that(2) [of "CHR ''f''"]) (simp_all add: quote_char_def is_escape_def simple_escape_def)
  next
    case 5
    then show thesis by (intro that(2) [of "CHR ''n''"]) (simp_all add: quote_char_def is_escape_def simple_escape_def)
  next
    case 6
    then show thesis by (intro that(2) [of "CHR ''r''"]) (simp_all add: quote_char_def is_escape_def simple_escape_def)
  next
    case 7
    then show thesis by (intro that(2) [of "CHR ''t''"]) (simp_all add: quote_char_def is_escape_def simple_escape_def)
  qed
qed

lemma ascii_hex: "(of_char c :: nat) < 128 \<Longrightarrow> of_char c div 16 < (16 :: nat) \<and> of_char c mod 16 < (16 :: nat)"
  by auto

lemma scan_quoted:
  assumes "(of_char c :: nat) < 128"
  shows "scan_string (quote_char c @ y) = map_option (\<lambda>(a, b). (quote_char c @ a, b)) (scan_string y)"
  using assms
proof (cases rule: quote_char_cases)
  case 1
  then show ?thesis by (simp add: scan_ordinary del: scan_string.simps)
next
  case (2 e)
  then have "e \<noteq> CHR ''u''" by (auto simp: is_escape_def)
  with 2 show ?thesis by simp
next
  case 3
  let ?h = "[hex_digit 0, hex_digit 0, hex_digit (of_char c div 16), hex_digit (of_char c mod 16)]"
  have "scan_string ([CHR 0x5C, CHR ''u''] @ ?h @ y) = map_option (\<lambda>(a, b). ([CHR 0x5C, CHR ''u''] @ ?h @ a, b)) (scan_string y)"
    using ascii_hex [OF assms] by (intro scan_unicode) (simp_all add: hex_digit_plain four_hex_digits)
  then show ?thesis using 3 by (simp add: hex_digit_chars del: scan_string.simps)
qed

lemma byte_in_high: "byte_in lo hi c \<Longrightarrow> 128 \<le> lo \<Longrightarrow> 128 \<le> (of_char c :: nat)"
  by (simp add: byte_in_def)

lemma positive_if: "Suc 0 < (if P then n else 0) \<Longrightarrow> P \<and> (if P then n else 0) = n"
  by (cases P) simp_all

lemma rune_shapes:
  assumes "1 < rune_length s"
  shows "\<exists>x r. s = x @ r \<and> rune_length s = length x \<and> (\<forall>c \<in> set x. 128 \<le> (of_char c :: nat)) \<and>
    (\<forall>y. rune_length (x @ y) = length x)"
proof -
  obtain a r where s: "s = a # r" using assms by (cases s) (auto simp: rune_length_def)
  have a: "\<not> byte_in 0 127 a" using assms by (auto simp: s rune_length_def)
  consider "byte_in 0xC2 0xDF a" | "\<not> byte_in 0xC2 0xDF a" "byte_in 0xE0 0xEF a"
    | "\<not> byte_in 0xC2 0xDF a" "\<not> byte_in 0xE0 0xEF a" "byte_in 0xF0 0xF4 a"
    using assms a by (auto simp: s rune_length_def split: if_splits)
  then show ?thesis
  proof cases
    case 1
    then obtain b q where "r = b # q" "byte_in 0x80 0xBF b" "rune_length s = 2"
      using assms a by (auto simp: s rune_length_def split: list.splits if_splits)
    moreover from this have "\<forall>y. rune_length ([a, b] @ y) = 2" using a 1 by (simp add: rune_length_def)
    ultimately show ?thesis using 1 byte_in_high by - (rule exI [of _ "[a, b]"], rule exI [of _ q], simp add: s)
  next
    case 2
    obtain b c q where r: "r = b # c # q" using assms a 2 by (auto simp: s rune_length_def split: list.splits)
    let ?l = "if byte_in 0xE0 0xE0 a then 0xA0 else 0x80 :: nat"
    have "Suc 0 < (if byte_in ?l (if byte_in 0xED 0xED a then 0x9F else 0xBF) b \<and> byte_in 0x80 0xBF c then 3 else 0)"
      using assms a 2 by (simp add: s r rune_length_def del: if_split)
    from positive_if [OF this] have "byte_in ?l (if byte_in 0xED 0xED a then 0x9F else 0xBF) b" "byte_in 0x80 0xBF c" "rune_length s = 3"
      using a 2 by (simp_all add: s r rune_length_def del: if_split)
    moreover from this have "\<forall>y. rune_length ([a, b, c] @ y) = 3" using a 2 by (simp add: rune_length_def del: if_split)
    moreover have "128 \<le> ?l" by simp
    ultimately show ?thesis using 2 byte_in_high by - (rule exI [of _ "[a, b, c]"], rule exI [of _ q], simp add: s r)
  next
    case 3
    obtain b c d q where r: "r = b # c # d # q" using assms a 3 by (auto simp: s rune_length_def split: list.splits)
    let ?l = "if byte_in 0xF0 0xF0 a then 0x90 else 0x80 :: nat"
    have "Suc 0 < (if byte_in ?l (if byte_in 0xF4 0xF4 a then 0x8F else 0xBF) b \<and> byte_in 0x80 0xBF c \<and> byte_in 0x80 0xBF d then 4 else 0)"
      using assms a 3 by (simp add: s r rune_length_def del: if_split)
    from positive_if [OF this] have "byte_in ?l (if byte_in 0xF4 0xF4 a then 0x8F else 0xBF) b" "byte_in 0x80 0xBF c" "byte_in 0x80 0xBF d"
      "rune_length s = 4"
      using a 3 by (simp_all add: s r rune_length_def del: if_split)
    moreover from this have "\<forall>y. rune_length ([a, b, c, d] @ y) = 4" using a 3 by (simp add: rune_length_def del: if_split)
    moreover have "128 \<le> ?l" by simp
    ultimately show ?thesis using 3 byte_in_high by - (rule exI [of _ "[a, b, c, d]"], rule exI [of _ q], simp add: s r)
  qed
qed

lemma rune_bytes: "1 < rune_length s \<Longrightarrow> \<forall>c \<in> set (take (rune_length s) s). 128 \<le> (of_char c :: nat)"
  using rune_shapes [of s] by force

lemma rune_ascii: "rune_length (c # r) = 1 \<longleftrightarrow> (of_char c :: nat) < 128"
  by (auto simp: rune_length_def byte_in_def split: list.splits if_splits)

lemma high_is_ordinary: "128 \<le> (of_char c :: nat) \<Longrightarrow> c \<noteq> CHR 0x22 \<and> c \<noteq> CHR 0x5C \<and> 32 \<le> (of_char c :: nat)"
  by auto

lemma line_separator_head: "line_separator s \<Longrightarrow> \<exists>c r. s = CHR 0xE2 # CHR 0x80 # c # r \<and> c \<in> {CHR 0xA8, CHR 0xA9}"
  by (cases s; cases "tl s"; cases "tl (tl s)") (auto simp: line_separator_def)

lemma json_escape_cases:
  obtains "s = []" "json_escape s = []"
  | c r where "s = c # r" "(of_char c :: nat) < 128" "json_escape s = quote_char c @ json_escape r"
  | c r where "s = c # r" "rune_length s = 0" "json_escape s = [CHR 0x5C, CHR ''u''] @ ''fffd'' @ json_escape r"
  | h r where "s = CHR 0xE2 # CHR 0x80 # (if h = 8 then CHR 0xA8 else CHR 0xA9) # r" "h \<in> {8, 9}"
      "json_escape s = [CHR 0x5C, CHR ''u''] @ ''202'' @ [hex_digit h] @ json_escape r"
  | "1 < rune_length s" "json_escape s = take (rune_length s) s @ json_escape (drop (rune_length s) s)"
proof (cases s)
  case Nil
  then show thesis by (intro that(1)) (simp_all add: json_escape.simps)
next
  case (Cons c r)
  consider "(of_char c :: nat) < 128" | "128 \<le> (of_char c :: nat)" "rune_length s = 0"
    | "128 \<le> (of_char c :: nat)" "rune_length s \<noteq> 0" "line_separator s"
    | "128 \<le> (of_char c :: nat)" "rune_length s \<noteq> 0" "\<not> line_separator s" by linarith
  then show thesis
  proof cases
    case 1
    with Cons show thesis by (intro that(2)) (simp_all add: json_escape.simps [of "c # r"])
  next
    case 2
    with Cons show thesis by (intro that(3)) (simp_all add: json_escape.simps [of "c # r"])
  next
    case 3
    then obtain d q where s: "s = CHR 0xE2 # CHR 0x80 # d # q" "d \<in> {CHR 0xA8, CHR 0xA9}" using line_separator_head by blast
    have e: "json_escape s = [CHR 0x5C] @ ''u202'' @ [hex_digit (of_char d mod 16)] @ json_escape q"
      using 3 s(1) Cons by (subst json_escape.simps) simp
    show thesis
      using s e by (intro that(4) [of "if d = CHR 0xA8 then 8 else 9" q]) auto
  next
    case 4
    moreover have "rune_length s \<noteq> 1" using 4(1) rune_ascii [of c r] Cons by simp
    ultimately show thesis using Cons by (intro that(5)) (simp_all add: json_escape.simps [of "c # r"])
  qed
qed

lemma json_escape_shorter:
  "s = c # r \<Longrightarrow> length r < length s" "1 < rune_length s \<Longrightarrow> length (drop (rune_length s) s) < length s"
  using rune_shapes [of s] by auto

lemma scan_escaped: "scan_string (json_escape s @ y) = map_option (\<lambda>(a, b). (json_escape s @ a, b)) (scan_string y)"
proof (induction s rule: length_induct)
  case (1 s)
  show ?case
  proof (cases s rule: json_escape_cases)
    case 1
    then show ?thesis by (cases "scan_string y") auto
  next
    case (2 c r)
    have "scan_string (json_escape r @ y) = map_option (\<lambda>(a, b). (json_escape r @ a, b)) (scan_string y)"
      using 1 2(1) by simp
    then show ?thesis using scan_quoted [OF 2(2), of "json_escape r @ y"] 2(3) by (cases "scan_string y") auto
  next
    case (3 c r)
    have "scan_string (json_escape r @ y) = map_option (\<lambda>(a, b). (json_escape r @ a, b)) (scan_string y)"
      using 1 3(1) by simp
    moreover have "scan_string ([CHR 0x5C, CHR ''u''] @ ''fffd'' @ json_escape r @ y) =
        map_option (\<lambda>(a, b). ([CHR 0x5C, CHR ''u''] @ ''fffd'' @ a, b)) (scan_string (json_escape r @ y))"
      by (rule scan_unicode) (simp_all add: hex_digit_chars hex_digit_plain four_hex_digits)
    ultimately show ?thesis using 3(3) by (cases "scan_string y") auto
  next
    case (4 h r)
    have h: "h < 16" using 4(2) by auto
    have "scan_string (json_escape r @ y) = map_option (\<lambda>(a, b). (json_escape r @ a, b)) (scan_string y)"
      using 1 4(1) by simp
    moreover have "scan_string ([CHR 0x5C, CHR ''u''] @ (''202'' @ [hex_digit h]) @ json_escape r @ y) =
        map_option (\<lambda>(a, b). ([CHR 0x5C, CHR ''u''] @ (''202'' @ [hex_digit h]) @ a, b)) (scan_string (json_escape r @ y))"
      using h by (intro scan_unicode) (simp_all add: hex_digit_chars hex_digit_plain four_hex_digits)
    ultimately show ?thesis using 4(3) by (cases "scan_string y") auto
  next
    case 5
    have "scan_string (json_escape (drop (rune_length s) s) @ y) =
        map_option (\<lambda>(a, b). (json_escape (drop (rune_length s) s) @ a, b)) (scan_string y)"
      using 1 json_escape_shorter(2) [OF 5(1)] by simp
    moreover have "scan_string (take (rune_length s) s @ json_escape (drop (rune_length s) s) @ y) =
        map_option (\<lambda>(a, b). (take (rune_length s) s @ a, b)) (scan_string (json_escape (drop (rune_length s) s) @ y))"
      using rune_bytes [OF 5(1)] high_is_ordinary by (intro scan_ordinary_text) blast
    ultimately show ?thesis using 5(2) by (cases "scan_string y") auto
  qed
qed

lemma scans_escaped: "scans (json_escape s)"
  by (simp add: scans_def scan_escaped)

lemma scans_plain: "list_all plain s \<Longrightarrow> scans s"
  by (simp add: scans_def scan_plain)

lemma rune_prefix: "1 < rune_length s \<Longrightarrow> rune_length (take (rune_length s) s @ y) = rune_length s"
  using rune_shapes [of s] by force

lemma unquote_rune: "0 < rune_length (x @ y) \<Longrightarrow> x \<noteq> [] \<Longrightarrow> hd x \<noteq> CHR 0x5C \<Longrightarrow> rune_length (x @ y) = length x \<Longrightarrow>
     unquote (x @ y) = x @ unquote y"
  by (subst unquote.simps) (cases x, simp_all)

lemma unquote_unicode:
  assumes "a < 16" "b < 16" "c < 16" "d < 16" "((a * 16 + b) * 16 + c) * 16 + d < 0xD800"
  shows "unquote (CHR 0x5C # CHR ''u'' # hex_digit a # hex_digit b # hex_digit c # hex_digit d # y) =
    encode_rune (((a * 16 + b) * 16 + c) * 16 + d) @ unquote y"
  using assms by (subst unquote.simps) (simp add: unicode_escape_def four_hex_digits)

lemma unquote_quoted:
  assumes "(of_char c :: nat) < 128"
  shows "unquote (quote_char c @ y) = c # unquote y"
  using assms
proof (cases rule: quote_char_cases)
  case 1
  have "rune_length (c # y) = 1" using rune_ascii assms by blast
  then show ?thesis using 1 unquote_rune [of "[c]" y] by simp
next
  case (2 e)
  then have "e \<noteq> CHR ''u''" by (auto simp: is_escape_def)
  with 2 show ?thesis by (simp add: unquote.simps [of "CHR 0x5C # e # y"])
next
  case 3
  have "unquote (CHR 0x5C # CHR ''u'' # hex_digit 0 # hex_digit 0 # hex_digit (of_char c div 16) # hex_digit (of_char c mod 16) # y)
      = encode_rune (((0 * 16 + 0) * 16 + of_char c div 16) * 16 + of_char c mod 16) @ unquote y"
    using ascii_hex [OF assms] by (intro unquote_unicode) auto
  moreover have "encode_rune (((0 * 16 + 0) * 16 + of_char c div 16) * 16 + of_char c mod 16) = [c]"
    using assms by (simp add: encode_rune_def byte_def)
  ultimately show ?thesis using 3 by (simp add: hex_digit_chars)
qed

lemma utf8_rune: "utf8 s \<Longrightarrow> s \<noteq> [] \<Longrightarrow> 0 < rune_length s \<and> utf8 (drop (rune_length s) s)"
  by (subst (asm) utf8.simps) (auto split: if_splits)

text \<open>Valid UTF-8 is read back as it was.\<close>

lemma unquote_escape: "utf8 s \<Longrightarrow> unquote (json_escape s) = s"
proof (induction s rule: length_induct)
  case (1 s)
  show ?case
  proof (cases s rule: json_escape_cases)
    case 1
    then show ?thesis by (simp add: unquote.simps)
  next
    case (2 c r)
    have "utf8 r" using utf8_rune [OF 1(2)] 2(1,2) rune_ascii [of c r] by simp
    then have "unquote (json_escape r) = r" using 1(1) 2(1) by simp
    then show ?thesis using unquote_quoted [OF 2(2)] 2(1,3) by simp
  next
    case (3 c r)
    then show ?thesis using utf8_rune [OF 1(2)] by simp
  next
    case (4 h r)
    have l: "rune_length s = 3" using 4(1,2) by (auto simp: rune_length_def byte_in_def)
    then have "utf8 r" using utf8_rune [OF 1(2)] 4(1) by simp
    then have r: "unquote (json_escape r) = r" using 1(1) 4(1) by simp
    have "unquote (CHR 0x5C # CHR ''u'' # hex_digit 2 # hex_digit 0 # hex_digit 2 # hex_digit h # json_escape r) =
        encode_rune (((2 * 16 + 0) * 16 + 2) * 16 + h) @ unquote (json_escape r)"
      using 4(2) by (intro unquote_unicode) auto
    moreover have "encode_rune (((2 * 16 + 0) * 16 + 2) * 16 + h) = CHR 0xE2 # CHR 0x80 # (if h = 8 then CHR 0xA8 else CHR 0xA9) # []"
      using 4(2) by (auto simp: encode_rune_def byte_def char_of_def bit_iff_odd)
    ultimately show ?thesis using 4(1,3) r by (simp add: hex_digit_chars)
  next
    case 5
    have "utf8 (drop (rune_length s) s)" using utf8_rune [OF 1(2)] 5(1) by (cases "s = []") (auto simp: rune_length_def)
    then have "unquote (json_escape (drop (rune_length s) s)) = drop (rune_length s) s"
      using 1(1) json_escape_shorter(2) [OF 5(1)] by blast
    moreover have "unquote (take (rune_length s) s @ y) = take (rune_length s) s @ unquote y" for y
    proof (rule unquote_rune)
      have "length (take (rune_length s) s) = rune_length s" using rune_shapes [OF 5(1)] by force
      then show "rune_length (take (rune_length s) s @ y) = length (take (rune_length s) s)" "0 < rune_length (take (rune_length s) s @ y)"
        "take (rune_length s) s \<noteq> []"
        using rune_prefix [OF 5(1)] 5(1) by auto
      then show "hd (take (rune_length s) s) \<noteq> CHR 0x5C"
        using rune_bytes [OF 5(1)] high_is_ordinary hd_in_set by blast
    qed
    ultimately show ?thesis using 5(2) by simp
  qed
qed

lemma json_escape_plain: "list_all plain s \<Longrightarrow> json_escape s = s"
proof (induction s)
  case (Cons c s)
  then have "(of_char c :: nat) < 128" using plain_range [of c] by auto
  then show ?case using Cons by (subst json_escape.simps) (simp add: quote_char_plain)
qed (simp add: json_escape.simps)

section \<open>Numbers\<close>

lemma decimal_value: "foldl (\<lambda>n c. 10 * n + digit_val c) 0 (decimal n) = int n"
proof (induction n rule: decimal.induct)
  case (1 n)
  show ?case
  proof (cases "n < 10")
    case True
    then show ?thesis by (simp add: decimal_small)
  next
    case False
    then have "foldl (\<lambda>n c. 10 * n + digit_val c) 0 (decimal (n div 10)) = int (n div 10)" using 1 by blast
    then have "foldl (\<lambda>n c. 10 * n + digit_val c) 0 (decimal n) = 10 * int (n div 10) + int (n mod 10)"
      using False by (simp add: decimal_large)
    moreover have "10 * int (n div 10) + int (n mod 10) = int n"
      using arg_cong [OF mult_div_mod_eq [of 10 n], of int] by (simp only: of_nat_add of_nat_mult of_nat_numeral)
    ultimately show ?thesis by simp
  qed
qed

lemma decimal_inject [simp]: "decimal m = decimal n \<longleftrightarrow> m = n"
  using decimal_value [of m] decimal_value [of n] by (metis of_nat_eq_iff)

lemma decimal_digits: "list_all is_digit (decimal n)"
proof (induction n rule: decimal.induct)
  case (1 n)
  then show ?case by (subst decimal.simps) simp
qed

lemma decimal_head: "1 < length (decimal n) \<Longrightarrow> hd (decimal n) \<noteq> CHR ''0''"
proof (induction n rule: decimal.induct)
  case (1 n)
  have "10 \<le> n" using 1(2) decimal_small [of n] by (cases "n < 10") auto
  then have d: "decimal n = decimal (n div 10) @ [digit (int (n mod 10))]" "0 < n div 10" by (auto simp: decimal_large)
  show ?case
  proof (cases "n div 10 < 10")
    case True
    have "digit (int m) \<noteq> CHR ''0''" if "m \<in> {1..9}" for m
    proof -
      have "\<forall>m \<in> set [1..<10]. digit (int m) \<noteq> CHR ''0''" by code_simp
      then show ?thesis using that by simp
    qed
    then show ?thesis using True d by (simp add: decimal_small)
  next
    case False
    then have "1 < length (decimal (n div 10))" using decimal_large [of "n div 10"] decimal.simps [of "n div 10 div 10"]
      by (cases "decimal (n div 10 div 10)") (auto split: if_splits)
    then show ?thesis using 1(1) \<open>10 \<le> n\<close> d(1) by (cases "decimal (n div 10)") auto
  qed
qed

lemma decimal_nonempty: "decimal n \<noteq> []"
  by (subst decimal.simps) simp

lemma ends_number_stops: "ends_number r \<Longrightarrow> takeWhile is_digit r = [] \<and> dropWhile is_digit r = r \<and>
     scan_frac r = Some ([], r) \<and> scan_exp r = Some ([], r)"
  by (cases r) (auto simp: ends_number_def is_digit_def scan_frac_def scan_exp_def)

lemma scan_decimal:
  assumes "ends_number r"
  shows "scan_int (decimal n @ r) = Some (decimal n, r)"
proof -
  have all: "\<forall>c \<in> set (decimal n). is_digit c" using decimal_digits [of n] by (simp add: list_all_iff)
  have digits: "scan_digits (decimal n @ r) = Some (decimal n, r)"
    using all ends_number_stops [OF assms] decimal_nonempty [of n] by (simp add: scan_digits_def)
  obtain c t where c: "decimal n = c # t" using decimal_nonempty by (cases "decimal n") auto
  show ?thesis
  proof (cases "t = []")
    case True
    then show ?thesis using digits c by (simp add: scan_int_def)
  next
    case False
    then have "c \<noteq> CHR ''0''" using decimal_head [of n] c by (cases t) auto
    then show ?thesis using digits c by (simp add: scan_int_def)
  qed
qed

lemma number_ok_int: "number_ok (int_text n)"
proof -
  have d: "\<exists>c t. decimal m = c # t \<and> is_digit c" for m
    using decimal_nonempty [of m] decimal_digits [of m] by (cases "decimal m") auto
  have "scan_number (int_text n @ r) = Some (int_text n, r)" if "ends_number r" for r
  proof -
    obtain c t where "decimal (nat \<bar>n\<bar>) = c # t" "is_digit c" using d by blast
    moreover from this have "c \<noteq> CHR ''-''" by (auto simp: is_digit_def)
    ultimately show ?thesis
      using scan_decimal [OF that, of "nat \<bar>n\<bar>"] ends_number_stops [OF that] by (auto simp: int_text_def scan_number_def)
  qed
  moreover have "int_text n \<noteq> [] \<and> (hd (int_text n) = CHR ''-'' \<or> is_digit (hd (int_text n)))"
    using d [of "nat \<bar>n\<bar>"] by (auto simp: int_text_def)
  ultimately show ?thesis by (simp add: number_ok_def)
qed

lemma atoi_int_text: "int64 n \<Longrightarrow> atoi (int_text n) = Some n"
proof -
  assume n: "int64 n"
  obtain c t where c: "decimal (nat \<bar>n\<bar>) = c # t" "is_digit c"
    using decimal_nonempty [of "nat \<bar>n\<bar>"] decimal_digits [of "nat \<bar>n\<bar>"] by (cases "decimal (nat \<bar>n\<bar>)") auto
  then have "c \<noteq> CHR ''-''" "c \<noteq> CHR ''+''" by (auto simp: is_digit_def)
  moreover have "digits_val (decimal (nat \<bar>n\<bar>)) = Some \<bar>n\<bar>"
    using decimal_value [of "nat \<bar>n\<bar>"] decimal_digits [of "nat \<bar>n\<bar>"] decimal_nonempty by (simp add: digits_val_def)
  ultimately show ?thesis using n c by (auto simp: atoi_def int_text_def)
qed

section \<open>Values whose every text scans\<close>

fun scannable :: "json \<Rightarrow> bool" where
  "scannable (JNum s) = number_ok s"
| "scannable (JStr raw) = scans raw"
| "scannable (JArr vs) = (\<forall>v \<in> set vs. scannable v)"
| "scannable (JObj ms) = (\<forall>m \<in> set ms. scans (fst m) \<and> scannable (snd m))"
| "scannable v = True"

fun json_depth :: "json \<Rightarrow> nat" where
  "json_depth (JArr vs) = Suc (Max (insert 0 (json_depth ` set vs)))"
| "json_depth (JObj ms) = Suc (Max (insert 0 ((\<lambda>m. json_depth (snd m)) ` set ms)))"
| "json_depth v = 0"

lemma json_depth_le:
  "json_depth (JArr vs) \<le> d \<longleftrightarrow> 0 < d \<and> (\<forall>v \<in> set vs. json_depth v \<le> d - 1)"
  "json_depth (JObj ms) \<le> d \<longleftrightarrow> 0 < d \<and> (\<forall>m \<in> set ms. json_depth (snd m) \<le> d - 1)"
  by (cases d; auto)+

lemma printable_depth: "scannable v \<Longrightarrow> json_depth v \<le> d \<Longrightarrow> printable d v"
proof (induction v arbitrary: d rule: scannable.induct)
  case (3 vs)
  then show ?case unfolding json_depth_le by simp
next
  case (4 ms)
  then show ?case unfolding json_depth_le by simp
qed simp_all

lemma scannable_text [simp]: "scannable (json_text s)"
  by (simp add: json_text_def scans_escaped)

lemma scannable_int [simp]: "scannable (json_int n)"
  by (simp add: json_int_def number_ok_int)

lemma scannable_pointer [simp]: "(\<And>y. scannable (f y)) \<Longrightarrow> scannable (json_pointer f x)"
  by (simp add: json_pointer_def split: option.split)

lemma scannable_optional: "(\<And>y. scannable (f y)) \<Longrightarrow> scans k \<Longrightarrow> m \<in> set (omit_empty k f x) \<Longrightarrow> scans (fst m) \<and> scannable (snd m)"
  by (auto simp: omit_empty_def split: option.splits)

end
