(* ===== verification/Seed_Slots.thy ===== *)
theory Seed_Slots
  imports Seed_Steps Json_Print
begin

text \<open>
  The steps of cmd/seed/generate.go that add rooms, sessions and invitations: names and addresses
  never clash, a room's sessions follow each other, and the speaker schedule leaves somebody free as
  long as there are fewer sessions than users.
\<close>

section \<open>Numbers in names\<close>

lemma zero_prefix_value: "foldl (\<lambda>n c. 10 * n + digit_val c) 0 (replicate k (CHR ''0'') @ s) = foldl (\<lambda>n c. 10 * n + digit_val c) 0 s"
proof -
  have "digit_val (CHR ''0'') = 0" by code_simp
  then show ?thesis by (induction k) simp_all
qed

lemma zero_pad_inject [simp]: "zero_pad w m = zero_pad w n \<longleftrightarrow> m = n"
proof -
  have "foldl (\<lambda>n c. 10 * n + digit_val c) 0 (zero_pad w k) = int k" for k
    unfolding zero_pad_def by (simp only: zero_prefix_value decimal_value)
  then show ?thesis by (metis of_nat_eq_iff)
qed

lemma zero_pad_digits: "list_all is_digit (zero_pad w n)"
proof -
  have "is_digit (CHR ''0'')" by code_simp
  then show ?thesis using decimal_digits [of n] by (auto simp: zero_pad_def list_all_iff)
qed

lemma decimal_two: "10 \<le> n \<Longrightarrow> 2 \<le> length (decimal n)"
  using decimal_large [of n] decimal.simps [of "n div 10"] by (cases "decimal (n div 10)") (auto split: if_splits)

lemma roomName_inject [simp]: "roomName j = roomName k \<longleftrightarrow> j = k"
proof -
  have letters: "(char_of (65 + j) :: char) = char_of (65 + k) \<Longrightarrow> j = k" if "j < 26" "k < 26" for j k :: nat
    using that arg_cong [of "char_of (65 + j) :: char" "char_of (65 + k)" "of_char :: char \<Rightarrow> nat"] by (simp add: of_char_of)
  have "decimal (Suc i) \<noteq> [c] \<and> [c] \<noteq> decimal (Suc i)" if "\<not> i < 26" for i c
  proof -
    have "length (decimal (Suc i)) \<noteq> length [c]" using decimal_two [of "Suc i"] that by simp
    then show ?thesis by metis
  qed
  then show ?thesis using letters by (auto simp: roomName_def split: if_splits)
qed

section \<open>Rooms\<close>

definition same_but_rooms :: "gen_state \<Rightarrow> gen_state \<Rightarrow> bool" where
  "same_but_rooms g g' = (gn_events g' = gn_events g \<and> gn_members g' = gn_members g \<and> gn_sessions g' = gn_sessions g \<and>
     gn_invitations g' = gn_invitations g \<and> gn_busy g' = gn_busy g \<and> gn_event_seq g' = gn_event_seq g \<and>
     set (gn_rooms g) \<subseteq> set (gn_rooms g'))"

lemma used_sessions_rooms:
  assumes "gen_ok env ci users g"
  shows "se_room_id ` set (gn_sessions g) \<subseteq> rm_id ` set (gn_rooms g)"
  using db_okD(5) [OF gen_okD(1) [OF assms]] by (fastforce simp: sessions_ok_def session_refs_ok_def)

lemma runs_addRooms:
  assumes env: "inj (sv_uuid env)" and g: "gen_ok env ci users g" "ev \<in> ev_id ` set (gn_events g)" "0 \<le> n"
    and none: "\<forall>r \<in> set (gn_rooms g). rm_event_id r \<noteq> ev"
  shows "runs (addRooms env ev n) g (\<lambda>ids g'. gen_ok env ci users g' \<and> same_but_rooms g g' \<and> length ids = nat n \<and> distinct ids \<and>
    set ids \<subseteq> rm_id ` set (gn_rooms g') \<and> set ids \<inter> se_room_id ` set (gn_sessions g') = {})"
proof -
  let ?I = "\<lambda>k ids g'. gen_ok env ci users g' \<and> same_but_rooms g g' \<and> length ids = k \<and> distinct ids \<and>
    set ids \<subseteq> rm_id ` set (gn_rooms g') \<and> set ids \<inter> se_room_id ` set (gn_sessions g') = {} \<and>
    (\<forall>r \<in> set (gn_rooms g'). rm_event_id r = ev \<longrightarrow> (\<exists>j < k. rm_name r = roomName j))"
  have "runs (gfold (\<lambda>ids k. gbind (newUUIDv7 env) (\<lambda>i.
        gbind (gput (\<lambda>g. g\<lparr>gn_rooms := gn_rooms g @ [\<lparr>rm_id = i, rm_event_id = ev, rm_name = roomName k,
            rm_capacity = None, rm_version = 1, rm_created_at = seedBaseTime, rm_updated_at = seedBaseTime\<rparr>]\<rparr>)) (\<lambda>_.
        gret (ids @ [i])))) [] [0..<nat n]) g (?I (length [0..<nat n]))"
  proof (rule runs_fold)
    show "?I 0 [] g" using g none by (auto simp: same_but_rooms_def)
    fix k ids g'
    assume "k < length [0..<nat n]" and I: "?I k ids g'"
    then have k: "[0..<nat n] ! k = k" by simp
    let ?r = "\<lparr>rm_id = sv_uuid env (gn_ids g'), rm_event_id = ev, rm_name = roomName k,
            rm_capacity = None, rm_version = 1, rm_created_at = seedBaseTime, rm_updated_at = seedBaseTime\<rparr>"
    let ?g = "g'\<lparr>gn_ids := Suc (gn_ids g'), gn_rooms := gn_rooms g' @ [?r]\<rparr>"
    have ok: "gen_ok env ci users g'" using I by blast
    have fresh: "rm_id ?r \<notin> used_ids users g'" using fresh_id [OF ok env] by simp
    have "ev \<in> ev_id ` set (gn_events g')" using I g(2) by (simp add: same_but_rooms_def)
    then have "insert_room (room_to_row ?r) (gen_db users g') = Inr (gen_db users ?g)"
      using fresh I by (fastforce simp: insert_room_Inr used_ids_def int4_opt_def room_check_def room_name_taken_def gen_db_def)
    then have "db_ok ci (gen_db users ?g)" using insert_room_ok gen_okD(1) [OF ok] by blast
    then have "gen_ok env ci users ?g"
      by (rule gen_ok_append [OF ok]) (use ok in \<open>auto simp: used_ids_def gen_ok_def busy_exact_def\<close>)
    moreover have "rm_id ?r \<notin> set ids" "rm_id ?r \<notin> se_room_id ` set (gn_sessions g')"
      using fresh I used_sessions_rooms [OF ok] unfolding used_ids_def by blast+
    ultimately have "?I (Suc k) (ids @ [rm_id ?r]) ?g"
      using I by (auto simp: same_but_rooms_def less_Suc_eq)
    then show "runs (gbind (newUUIDv7 env) (\<lambda>i.
        gbind (gput (\<lambda>g. g\<lparr>gn_rooms := gn_rooms g @ [\<lparr>rm_id = i, rm_event_id = ev, rm_name = roomName ([0..<nat n] ! k),
            rm_capacity = None, rm_version = 1, rm_created_at = seedBaseTime, rm_updated_at = seedBaseTime\<rparr>]\<rparr>)) (\<lambda>_.
        gret (ids @ [i])))) g' (?I (Suc k))"
      unfolding k by simp
  qed
  then show ?thesis using g(3) by (auto simp: addRooms_def elim!: runs_mono)
qed

section \<open>Sessions\<close>

definition same_but_sessions :: "gen_state \<Rightarrow> gen_state \<Rightarrow> bool" where
  "same_but_sessions g g' = (gn_events g' = gn_events g \<and> gn_members g' = gn_members g \<and> gn_rooms g' = gn_rooms g \<and>
     gn_invitations g' = gn_invitations g \<and> gn_event_seq g' = gn_event_seq g)"

text \<open>What the steps that place sessions are given: the pool of all users and the members of the event.\<close>

definition stage :: "seed_env \<Rightarrow> user list \<Rightarrow> uuid list \<Rightarrow> uuid list \<Rightarrow> bool" where
  "stage env users pool memberIDs = (source_ok env \<and> inj (sv_uuid env) \<and> distinct (map usr_id users) \<and>
     set pool = usr_id ` set users \<and> set memberIDs \<subseteq> usr_id ` set users)"

lemma free_user:
  assumes "stage env users pool memberIDs" "busy_exact g" "length (gn_sessions g) < length users"
  shows "\<exists>c \<in> set pool. gn_busy g c = []"
proof -
  have "card (se_speaker_id ` set (gn_sessions g)) \<le> length (gn_sessions g)"
    using card_length [of "map se_speaker_id (gn_sessions g)"] by simp
  moreover have "card (usr_id ` set users) = length users"
    using assms(1) distinct_card [of "map usr_id users"] by (simp add: stage_def)
  ultimately have "card (se_speaker_id ` set (gn_sessions g)) < card (usr_id ` set users)" using assms(3) by linarith
  then have "\<not> usr_id ` set users \<subseteq> se_speaker_id ` set (gn_sessions g)"
    by (metis card_mono finite_imageI List.finite_set linorder_not_le)
  then obtain c where "c \<in> set pool" "c \<notin> se_speaker_id ` set (gn_sessions g)"
    using assms(1) by (auto simp: stage_def)
  moreover from this have "gn_busy g c = []" using assms(2) by (auto simp: busy_exact_def filter_empty_conv)
  ultimately show ?thesis by blast
qed

lemma runs_pickCandidatesFor:
  assumes "stage env users pool memberIDs"
    and "\<And>cs c. set cs \<subseteq> usr_id ` set users \<Longrightarrow> set pool \<subseteq> set cs \<Longrightarrow> Q cs (g\<lparr>gn_calls := c\<rparr>)"
  shows "runs (pickCandidatesFor env pool memberIDs) g Q"
proof (cases "memberIDs = []")
  case True
  then show ?thesis using assms(2) [of pool "gn_calls g"] assms(1) by (simp add: pickCandidatesFor_def stage_def)
next
  case False
  show ?thesis
    unfolding pickCandidatesFor_def if_not_P [OF False] runs_bind
  proof (rule runs_Intn)
    show "source_ok env" using assms(1) by (simp add: stage_def)
    fix x :: int
    let ?g = "g\<lparr>gn_calls := Suc (gn_calls g)\<rparr>"
    show "runs (if x < 40 then gret pool else gbind (Shuffle env memberIDs) (\<lambda>shuffled. gret (shuffled @ pool))) ?g Q"
    proof (cases "x < 40")
      case True
      then show ?thesis using assms by (simp add: stage_def)
    next
      case False
      have "Q (ys @ pool) (?g\<lparr>gn_calls := Suc (gn_calls ?g)\<rparr>)" if "mset ys = mset memberIDs" for ys
      proof -
        have "set ys = set memberIDs" using that by (rule mset_eq_setD)
        then show ?thesis using assms(2) [of "ys @ pool" "Suc (gn_calls ?g)"] assms(1) by (simp add: stage_def)
      qed
      then show ?thesis using False assms(1) by (auto simp: stage_def intro!: runs_Shuffle)
    qed
  qed simp
qed

lemma runs_addSession:
  assumes st: "stage env users pool memberIDs"
    and g: "gen_ok env ci users g" "ev \<in> ev_id ` set (gn_events g)" "rm \<in> rm_id ` set (gn_rooms g)"
    and t: "whole start" "whole end" "start < end" "\<forall>x \<in> set (gn_sessions g). se_room_id x = rm \<longrightarrow> se_ends_at x \<le> start"
    and few: "length (gn_sessions g) < length users"
    and Q: "\<And>g' x. gen_ok env ci users g' \<Longrightarrow> same_but_sessions g g' \<Longrightarrow> gn_sessions g' = gn_sessions g @ [x] \<Longrightarrow>
      se_room_id x = rm \<Longrightarrow> se_ends_at x = end \<Longrightarrow> Q () g'"
  shows "runs (addSession env pool ev rm memberIDs title start end) g Q"
  unfolding addSession_def runs_bind
proof (rule runs_pickCandidatesFor [OF st])
  fix cs c
  assume cs: "set cs \<subseteq> usr_id ` set users" "set pool \<subseteq> set cs"
  let ?g = "g\<lparr>gn_calls := c\<rparr>"
  have ok: "gen_ok env ci users ?g" using g(1) by simp
  have "\<exists>u \<in> set cs. \<not> overlaps_busy (gn_busy ?g u) start end"
    using free_user [OF st gen_okD(2) [OF ok]] few cs(2) by (force simp: overlaps_busy_def)
  then obtain u where f: "find (\<lambda>c. \<not> overlaps_busy (gn_busy ?g c) start end) cs = Some u"
    by (metis find_None_iff not_None_eq)
  then have pick: "pickSpeaker cs start end ?g = Inr (u, ?g)" by (simp add: pickSpeaker_def)
  from f have u: "u \<in> set cs" "\<not> overlaps_busy (gn_busy ?g u) start end" by (auto simp: find_Some_iff)
  let ?x = "\<lparr>se_id = sv_uuid env (gn_ids ?g), se_event_id = ev, se_room_id = rm,
       se_speaker_id = u, se_title = title, se_description = None, se_starts_at = start, se_ends_at = end,
       se_version = 1, se_created_at = seedBaseTime, se_updated_at = seedBaseTime, se_room_name = [],
       se_speaker_name = [], se_series_id = None\<rparr>"
  let ?g' = "?g\<lparr>gn_busy := (gn_busy ?g)(u := gn_busy ?g u @ [(start, end)]), gn_ids := Suc (gn_ids ?g),
    gn_sessions := gn_sessions ?g @ [?x]\<rparr>"
  have wh: "\<forall>x \<in> set (gn_sessions g). whole (se_starts_at x) \<and> whole (se_ends_at x)" and be: "busy_exact ?g"
    using ok by (simp_all add: gen_ok_def)
  have "\<not> excluded_by sr_room_id (session_to_row ?x) (map session_to_row (gn_sessions g))"
    using t wh by (auto simp: excluded_by_def overlaps_def ranges_overlap_def)
  moreover have "\<not> excluded_by sr_speaker_id (session_to_row ?x) (map session_to_row (gn_sessions g))"
    using u(2) be t(1,2) wh by (auto simp: excluded_by_def overlaps_def ranges_overlap_def overlaps_busy_def busy_exact_def list_ex_iff)
  moreover have fresh: "se_id ?x \<notin> used_ids users ?g" using fresh_id [OF ok] st by (simp add: stage_def)
  moreover have "u \<in> usr_id ` set users" using u(1) cs(1) by blast
  ultimately have "insert_session (session_to_row ?x) (gen_db users ?g) = Inr (gen_db users ?g')"
    using g(2,3) t(1-3) unfolding insert_session_Inr by (simp add: used_ids_def gen_db_def)
  then have "db_ok ci (gen_db users ?g')" using insert_session_ok gen_okD(1) [OF ok] by blast
  then have "gen_ok env ci users ?g'"
    by (rule gen_ok_append [OF ok]) (use ok wh be t(1,2) in \<open>auto simp: used_ids_def busy_exact_def gen_ok_def\<close>)
  then have "Q () ?g'" by (rule Q [of _ ?x]) (simp_all add: same_but_sessions_def)
  moreover have "runs (pickSpeaker cs start end) ?g R \<longleftrightarrow> R u ?g" for R by (simp add: runs_def pick)
  ultimately show "runs (pickSpeaker cs start end) ?g (\<lambda>a g. runs (reserve a start end) g (\<lambda>_ g. runs (newUUIDv7 env) g
      (\<lambda>i g. runs (gput (\<lambda>g. g\<lparr>gn_sessions := gn_sessions g @ [\<lparr>se_id = i, se_event_id = ev, se_room_id = rm,
       se_speaker_id = a, se_title = title, se_description = None, se_starts_at = start, se_ends_at = end,
       se_version = 1, se_created_at = seedBaseTime, se_updated_at = seedBaseTime, se_room_name = [],
       se_speaker_name = [], se_series_id = None\<rparr>]\<rparr>)) g Q)))"
    by (simp add: reserve_def)
qed

lemma whole_plus: "whole t \<Longrightarrow> whole (t + minutes n)" "whole t \<Longrightarrow> whole (t + hours n)"
proof -
  have "1000 dvd minutes n" "1000 dvd hours n"
    by (auto simp: minutes_def hours_def ns_per_s_def intro!: dvd_mult)
  moreover have "whole x \<longleftrightarrow> 1000 dvd x" for x by (auto simp: whole_def)
  ultimately show "whole t \<Longrightarrow> whole (t + minutes n)" "whole t \<Longrightarrow> whole (t + hours n)"
    by simp_all
qed

text \<open>One room's sessions follow each other from \<open>cursor\<close> on.\<close>

lemma runs_addGenericSessions:
  assumes st: "stage env users pool memberIDs"
    and g: "gen_ok env ci users g" "ev \<in> ev_id ` set (gn_events g)" "rm \<in> rm_id ` set (gn_rooms g)"
    and t: "whole cursor" "\<forall>x \<in> set (gn_sessions g). se_room_id x \<noteq> rm"
    and few: "length (gn_sessions g) + nat n \<le> length users"
  shows "runs (addGenericSessions env pool ev rm memberIDs cursor n ttl) g (\<lambda>_ g'. gen_ok env ci users g' \<and>
    same_but_sessions g g' \<and> length (gn_sessions g') = length (gn_sessions g) + nat n \<and>
    se_room_id ` set (gn_sessions g') \<subseteq> insert rm (se_room_id ` set (gn_sessions g)))"
proof -
  let ?I = "\<lambda>k cur g'. gen_ok env ci users g' \<and> same_but_sessions g g' \<and> length (gn_sessions g') = length (gn_sessions g) + k \<and>
    se_room_id ` set (gn_sessions g') \<subseteq> insert rm (se_room_id ` set (gn_sessions g)) \<and> whole cur \<and>
    (\<forall>x \<in> set (gn_sessions g'). se_room_id x = rm \<longrightarrow> se_ends_at x \<le> cur)"
  have "runs (gfold (\<lambda>cursor j.
       gbind (Intn env 3) (\<lambda>x.
       let start = cursor; end = start + minutes (30 + 30 * x) in
       gbind (addSession env pool ev rm memberIDs (ttl @ '' Session '' @ decimal (j + 1)) start end) (\<lambda>_.
       gret (end + minutes 30)))) cursor [0..<nat n]) g (?I (length [0..<nat n]))"
  proof (rule runs_fold)
    show "?I 0 cursor g" using g t by (auto simp: same_but_sessions_def)
    fix k cur g'
    assume k: "k < length [0..<nat n]" and I: "?I k cur g'"
    show "runs (gbind (Intn env 3) (\<lambda>x.
       let start = cur; end = start + minutes (30 + 30 * x) in
       gbind (addSession env pool ev rm memberIDs (ttl @ '' Session '' @ decimal ([0..<nat n] ! k + 1)) start end) (\<lambda>_.
       gret (end + minutes 30)))) g' (?I (Suc k))"
      unfolding runs_bind
    proof (rule runs_Intn)
      show "source_ok env" using st by (simp add: stage_def)
      fix x :: int
      assume x: "0 \<le> x" "x < 3"
      let ?g = "g'\<lparr>gn_calls := Suc (gn_calls g')\<rparr>" and ?stop = "cur + minutes (30 + 30 * x)"
      have m: "0 < minutes (30 + 30 * x)" "0 < minutes 30" using x by (simp_all add: minutes_def ns_per_s_def)
      show "runs (let start = cur; end = start + minutes (30 + 30 * x) in
         gbind (addSession env pool ev rm memberIDs (ttl @ '' Session '' @ decimal ([0..<nat n] ! k + 1)) start end) (\<lambda>_.
         gret (end + minutes 30))) ?g (?I (Suc k))"
        unfolding Let_def runs_bind
      proof (rule runs_addSession [OF st, of ci])
        show "length (gn_sessions ?g) < length users" using I k few by simp
        fix g2 y
        assume "gen_ok env ci users g2" "same_but_sessions ?g g2" "gn_sessions g2 = gn_sessions ?g @ [y]"
          "se_room_id y = rm" "se_ends_at y = ?stop"
        then show "runs (gret (?stop + minutes 30)) g2 (?I (Suc k))"
          using I m whole_plus by (fastforce simp: same_but_sessions_def)
      qed (use I g m whole_plus in \<open>auto simp: same_but_sessions_def\<close>)
    qed simp
  qed
  then show ?thesis unfolding addGenericSessions_def runs_bind by (rule runs_mono) simp
qed

lemma go_division:
  fixes t n :: int
  assumes "0 \<le> t" "0 < n"
  shows "t sdiv n = t div n" "t smod n = t mod n"
proof -
  show d: "t sdiv n = t div n" using assms by (cases "t = 0") (simp_all add: signed_divide_int_def)
  show "t smod n = t mod n" using assms by (cases "t = 0") (simp_all add: signed_modulo_int_def)
qed

text \<open>\<open>total\<close> sessions over the rooms: each gets the quotient, the first ones one more.\<close>

lemma runs_distributeSessions:
  assumes st: "stage env users pool memberIDs"
    and g: "gen_ok env ci users g" "ev_id ev \<in> ev_id ` set (gn_events g)" "whole (ev_starts_at ev)"
    and rooms: "roomIDs \<noteq> []" "distinct roomIDs" "set roomIDs \<subseteq> rm_id ` set (gn_rooms g)"
      "set roomIDs \<inter> se_room_id ` set (gn_sessions g) = {}"
    and few: "0 \<le> tot" "length (gn_sessions g) + nat tot \<le> length users"
  shows "runs (distributeSessions env pool ev roomIDs memberIDs tot ttl) g (\<lambda>_ g'. gen_ok env ci users g' \<and>
    same_but_sessions g g' \<and> length (gn_sessions g') = length (gn_sessions g) + nat tot)"
proof -
  let ?n = "int (length roomIDs)"
  define q r where "q = nat (tot div ?n)" and "r = nat (tot mod ?n)"
  have n: "0 < ?n" using rooms(1) by simp
  have qr: "tot div ?n = int q" "tot mod ?n = int r"
    using n few(1) by (simp_all add: q_def r_def pos_imp_zdiv_nonneg_iff)
  have "r < length roomIDs" using pos_mod_bound [OF n, of tot] unfolding qr(2) by simp
  note qr = qr this
  have "tot = ?n * int q + int r" using mult_div_mod_eq [of ?n tot] by (simp only: qr(1,2))
  then have "tot = int (length roomIDs * q + r)" by simp
  then have sum: "nat tot = length roomIDs * q + r" by (simp only: nat_int)
  let ?c = "\<lambda>k. int q + (if int k < int r then 1 else 0)"
  let ?I = "\<lambda>k (_ :: unit) g'. gen_ok env ci users g' \<and> same_but_sessions g g' \<and>
    length (gn_sessions g') = length (gn_sessions g) + k * q + min k r \<and>
    se_room_id ` set (gn_sessions g') \<subseteq> set (take k roomIDs) \<union> se_room_id ` set (gn_sessions g)"
  have "runs (gfold (\<lambda>_ (k, roomID). addGenericSessions env pool (ev_id ev) roomID memberIDs (ev_starts_at ev + hours 9)
      (?c k) ttl) () (enumerate 0 roomIDs)) g (?I (length (enumerate 0 roomIDs)))"
  proof (rule runs_fold)
    show "?I 0 () g" using g by (simp add: same_but_sessions_def)
    fix k u g'
    assume "k < length (enumerate 0 roomIDs)" and I: "?I k u g'"
    then have k: "k < length roomIDs" by simp
    have e: "enumerate 0 roomIDs ! k = (k, roomIDs ! k)" using k by (simp add: nth_enumerate_eq)
    have t: "take (Suc k) roomIDs = take k roomIDs @ [roomIDs ! k]" using k by (rule take_Suc_conv_app_nth)
    have "roomIDs ! k \<notin> set (take k roomIDs)" using rooms(2) k by (auto simp: distinct_conv_nth in_set_conv_nth)
    moreover have "roomIDs ! k \<notin> se_room_id ` set (gn_sessions g)" using rooms(4) nth_mem [OF k] by blast
    moreover have "se_room_id ` set (gn_sessions g') \<subseteq> set (take k roomIDs) \<union> se_room_id ` set (gn_sessions g)"
      using I by (elim conjE)
    ultimately have "roomIDs ! k \<notin> se_room_id ` set (gn_sessions g')" by (metis UnE subsetD)
    then have free: "\<forall>x \<in> set (gn_sessions g'). se_room_id x \<noteq> roomIDs ! k" by (metis image_eqI)
    have "k * q + min k r + nat (?c k) = Suc k * q + min (Suc k) r" by (cases "k < r") simp_all
    moreover have "Suc k * q + min (Suc k) r \<le> length roomIDs * q + r"
      using k by (intro add_mono mult_le_mono) simp_all
    ultimately have fits: "length (gn_sessions g') + nat (?c k) \<le> length users"
      and len: "length (gn_sessions g') + nat (?c k) = length (gn_sessions g) + Suc k * q + min (Suc k) r"
      using I few(2) unfolding sum by linarith+
    have "runs (addGenericSessions env pool (ev_id ev) (roomIDs ! k) memberIDs (ev_starts_at ev + hours 9) (?c k) ttl) g' (?I (Suc k))"
    proof (rule runs_mono [OF runs_addGenericSessions [OF st, of ci]])
      show "gen_ok env ci users g'" "ev_id ev \<in> ev_id ` set (gn_events g')" using I g(2) by (simp_all add: same_but_sessions_def)
      show "roomIDs ! k \<in> rm_id ` set (gn_rooms g')"
        using I rooms(3) nth_mem [OF k] by (auto simp: same_but_sessions_def)
      show "whole (ev_starts_at ev + hours 9)" using g(3) by (rule whole_plus)
      show "length (gn_sessions g') + nat (?c k) \<le> length users" by (rule fits)
      fix v g2
      assume "gen_ok env ci users g2 \<and> same_but_sessions g' g2 \<and> length (gn_sessions g2) = length (gn_sessions g') + nat (?c k) \<and>
        se_room_id ` set (gn_sessions g2) \<subseteq> insert (roomIDs ! k) (se_room_id ` set (gn_sessions g'))"
      then show "?I (Suc k) v g2"
        using I len unfolding t by (auto simp: same_but_sessions_def)
    qed (rule free)
    then show "runs (case enumerate 0 roomIDs ! k of (k, roomID) \<Rightarrow> addGenericSessions env pool (ev_id ev) roomID memberIDs
        (ev_starts_at ev + hours 9) (?c k) ttl) g' (?I (Suc k))"
      by (simp add: e)
  qed
  then show ?thesis
    using n qr sum by (auto simp: distributeSessions_def Let_def go_division [OF few(1) n] elim!: runs_mono)
qed

section \<open>Invitations\<close>

definition same_but_invitations :: "gen_state \<Rightarrow> gen_state \<Rightarrow> bool" where
  "same_but_invitations g g' = (gn_events g' = gn_events g \<and> gn_members g' = gn_members g \<and> gn_rooms g' = gn_rooms g \<and>
     gn_sessions g' = gn_sessions g \<and> gn_event_seq g' = gn_event_seq g)"

definition users_plain :: "user list \<Rightarrow> bool" where
  "users_plain users = (\<forall>u \<in> set users. plain_email (usr_email u) \<and> take 1 (usr_email u) \<noteq> ''s'')"

definition invited :: "gen_state \<Rightarrow> uuid \<Rightarrow> string set" where
  "invited g ev = iv_email ` {i \<in> set (gn_invitations g). iv_event_id i = ev}"

lemma digits_plain: "list_all is_digit s \<Longrightarrow> plain_email s"
  by (auto simp: plain_email_def list_all_iff)

lemma plain_email_append [simp]: "plain_email (s @ t) \<longleftrightarrow> plain_email s \<and> plain_email t"
  by (simp add: plain_email_def)

lemma external_email_plain: "plain_email (external_email q n)"
proof -
  have "plain_email ''seed-ext-''" "plain_email ''-''" "plain_email ''@seed-external.example''" by code_simp+
  then show ?thesis unfolding external_email_def plain_email_append using digits_plain [OF decimal_digits] by blast
qed

lemma external_email_inject: "external_email q m = external_email q n \<longleftrightarrow> m = n"
  by (simp add: external_email_def)

lemma external_email_new: "users_plain users \<Longrightarrow> u \<in> set users \<Longrightarrow> usr_email u \<noteq> external_email q n"
  by (auto simp: users_plain_def external_email_def)

lemma runs_addInvitation:
  assumes env: "source_ok env" "inj (sv_uuid env)"
    and g: "gen_ok env ci users g" "ev \<in> ev_id ` set (gn_events g)" "set_option u \<subseteq> usr_id ` set users"
    and new: "ci email \<notin> ci ` invited g ev"
    and Q: "\<And>g'. gen_ok env ci users g' \<Longrightarrow> same_but_invitations g g' \<Longrightarrow> invited g' ev = insert email (invited g ev) \<Longrightarrow>
      length (gn_invitations g') = Suc (length (gn_invitations g)) \<Longrightarrow> Q () g'"
  shows "runs (addInvitation env ev u email) g Q"
  unfolding addInvitation_def pickRole_def runs_bind runs_uuid
proof (rule runs_Intn [OF env(1)])
  define i0 where "i0 = sv_uuid env (gn_ids g)"
  fix x :: int
  let ?c = "Suc (gn_calls (g\<lparr>gn_ids := Suc (gn_ids g)\<rparr>))"
  define role where "role = (if x < 80 then ''attendee'' else if x < 95 then ''contributor'' else ''admin'')"
  let ?i = "\<lparr>iv_id = sv_uuid env (gn_ids g), iv_event_id = ev, iv_user_id = u,
       iv_email = email, iv_role = role, iv_created_at = seedBaseTime, iv_updated_at = seedBaseTime\<rparr>"
  let ?g = "g\<lparr>gn_calls := ?c\<rparr>"
  let ?g' = "g\<lparr>gn_ids := Suc (gn_ids g), gn_calls := ?c, gn_invitations := gn_invitations g @ [?i]\<rparr>"
  have ok: "gen_ok env ci users ?g" using g(1) by simp
  have "role \<in> set knownRoles" by (simp add: role_def knownRoles_def)
  moreover have "iv_id ?i \<notin> used_ids users g" using fresh_id [OF g(1) env(2)] by simp
  moreover have "(ev, ci email) \<notin> (\<lambda>x. (ir_event_id x, ci (ir_email x))) ` set (map invitation_to_row (gn_invitations g))"
    using new by (auto simp: invited_def)
  ultimately have "insert_invitation ci (invitation_to_row ?i) (gen_db users ?g) = Inr (gen_db users ?g')"
    using g(2,3) unfolding insert_invitation_Inr by (simp add: used_ids_def gen_db_def)
  then have "db_ok ci (gen_db users ?g')" using insert_invitation_ok gen_okD(1) [OF ok] by blast
  then have "gen_ok env ci users ?g'"
    by (rule gen_ok_append [OF ok]) (use ok in \<open>auto simp: used_ids_def gen_ok_def busy_exact_def\<close>)
  moreover have "same_but_invitations g ?g'" by (simp add: same_but_invitations_def)
  moreover have "invited ?g' ev = insert email (invited g ev)"
  proof -
    have "{i \<in> set (gn_invitations ?g'). iv_event_id i = ev} = insert ?i {i \<in> set (gn_invitations g). iv_event_id i = ev}" by auto
    then show ?thesis unfolding invited_def by simp
  qed
  moreover have "length (gn_invitations ?g') = Suc (length (gn_invitations g))" by simp
  ultimately have "Q () ?g'" by (rule Q)
  then show "runs (gret (if x < 80 then ''attendee'' else if x < 95 then ''contributor'' else ''admin''))
      (g\<lparr>gn_ids := Suc (gn_ids g), gn_calls := ?c\<rparr>)
      (\<lambda>role. \<lambda>g'. runs (gput (\<lambda>g. g\<lparr>gn_invitations := gn_invitations g @ [\<lparr>iv_id = i0, iv_event_id = ev, iv_user_id = u,
       iv_email = email, iv_role = role, iv_created_at = seedBaseTime, iv_updated_at = seedBaseTime\<rparr>]\<rparr>)) g' Q)"
    by (simp flip: role_def add: i0_def)
qed simp

lemma runs_addInvitations:
  assumes env: "source_ok env" "inj (sv_uuid env)" "folds_plain ci" "users_plain users"
    and g: "gen_ok env ci users g" "ev \<in> ev_id ` set (gn_events g)" "invited g ev = {}"
    and few: "0 \<le> InvitationsPerEvent cfg" "four_fifths (InvitationsPerEvent cfg) \<le> int (length users)"
  shows "runs (addInvitations env cfg users ev) g (\<lambda>_ g'. gen_ok env ci users g' \<and> same_but_invitations g g' \<and>
    length (gn_invitations g') = length (gn_invitations g) + nat (InvitationsPerEvent cfg))"
  unfolding addInvitations_def Let_def runs_bind
proof (rule runs_Perm [OF env(1)])
  define rc where "rc = nat (four_fifths (InvitationsPerEvent cfg))"
  have ff: "four_fifths (InvitationsPerEvent cfg) = 4 * InvitationsPerEvent cfg div 5"
    unfolding four_fifths_def using few(1) by (intro go_division) simp_all
  then have rc: "four_fifths (InvitationsPerEvent cfg) = int rc" "int rc \<le> InvitationsPerEvent cfg" "rc \<le> length users"
    using few by (simp_all add: rc_def pos_imp_zdiv_nonneg_iff)
  fix p
  let ?g = "g\<lparr>gn_calls := Suc (gn_calls g)\<rparr>"
  let ?email = "\<lambda>i. usr_email (users ! (p ! i))"
  let ?ext = "external_email (gn_event_seq g)"
  assume mset_p: "mset p = mset [0..<length users]"
  have p: "length p = length users" "distinct p" "set p = {0..<length users}"
    using mset_eq_length [OF mset_p] mset_eq_imp_distinct_iff [OF mset_p] mset_eq_setD [OF mset_p] by simp_all
  have du: "distinct (map (ci \<circ> usr_email) users)"
    using db_okD(1) [OF gen_okD(1) [OF g(1)]] by (simp add: users_ok_def comp_def)
  have apart: "ci (?email i) \<noteq> ci (?email j)" if "i < j" "j < rc" for i j
  proof -
    have ij: "i < length p" "j < length p" "i \<noteq> j" using that rc(3) p(1) by simp_all
    then have "p ! i \<noteq> p ! j" using p(2) by (simp add: nth_eq_iff_index_eq)
    moreover have "p ! i < length users" "p ! j < length users" using ij p(3) nth_mem by fastforce+
    ultimately show ?thesis using du by (auto simp: distinct_conv_nth)
  qed
  have real_new: "ci (?ext n) \<noteq> ci (?email i)" if "i < rc" for i n
  proof -
    have "p ! i < length users" using that rc(3) p nth_mem by fastforce
    then have u: "users ! (p ! i) \<in> set users" by simp
    then have "plain_email (?email i)" using env(4) by (simp add: users_plain_def)
    then show ?thesis
      using external_email_new [OF env(4) u] env(3) external_email_plain unfolding folds_plain_def by metis
  qed
  have ext_new: "ci (?ext m) \<noteq> ci (?ext n)" if "m < n" for m n
    using that env(3) external_email_plain external_email_inject unfolding folds_plain_def by (metis less_irrefl)
  let ?J = "\<lambda>(_ :: unit) g'. gen_ok env ci users g' \<and> same_but_invitations g g'"
  let ?I1 = "\<lambda>k u g'. ?J u g' \<and> length (gn_invitations g') = length (gn_invitations g) + k \<and> invited g' ev = ?email ` {..<k}"
  let ?I2 = "\<lambda>k u g'. ?J u g' \<and> length (gn_invitations g') = length (gn_invitations g) + rc + k \<and>
    invited g' ev = ?email ` {..<rc} \<union> ?ext ` {1..<Suc k}"
  have first: "runs (gfold (\<lambda>_ idx. addInvitation env ev (Some (usr_id (users ! idx))) (usr_email (users ! idx)))
             () (take rc p)) ?g (?I1 (length (take rc p)))"
  proof (rule runs_fold)
    show "?I1 0 () ?g" using g by (simp add: same_but_invitations_def invited_def)
    fix k u g'
    assume "k < length (take rc p)" and I: "?I1 k u g'"
    then have k: "k < rc" "k < length p" by simp_all
    have "p ! k < length users" using k p(3) nth_mem by fastforce
    then have uid: "usr_id (users ! (p ! k)) \<in> usr_id ` set users" by simp
    have "ci (?email k) \<notin> ci ` invited g' ev" using I apart k(1) by fastforce
    then show "runs (addInvitation env ev (Some (usr_id (users ! (take rc p ! k)))) (usr_email (users ! (take rc p ! k)))) g' (?I1 (Suc k))"
      unfolding nth_take [OF k(1)]
      using I uid g(2) by (intro runs_addInvitation [OF env(1,2), of ci users])
        (auto simp: same_but_invitations_def lessThan_Suc)
  qed
  have second: "runs (gfold (\<lambda>_ n. \<lambda>g. addInvitation env ev None (external_email (gn_event_seq g) n) g)
      () [1..<Suc n]) g1 (?I2 (length [1..<Suc n]))" if 1: "?I1 rc u g1" for u g1 n
  proof (rule runs_fold)
    show "?I2 0 () g1" using 1 by simp
    fix k u g'
    assume "k < length [1..<Suc n]" and I: "?I2 k u g'"
    then have k: "[1..<Suc n] ! k = Suc k" by (subst nth_upt) (simp_all del: upt_Suc)
    have q: "gn_event_seq g' = gn_event_seq g" using I by (simp add: same_but_invitations_def)
    have "ci (?ext (Suc k)) \<notin> ci ` invited g' ev"
      using I real_new [of _ "Suc k"] ext_new [of _ "Suc k"] by fastforce
    then have "runs (addInvitation env ev None (?ext (Suc k))) g' (?I2 (Suc k))"
      using I g(2) by (intro runs_addInvitation [OF env(1,2), of ci users])
        (auto simp: same_but_invitations_def atLeastLessThanSuc)
    then show "runs (\<lambda>g. addInvitation env ev None (external_email (gn_event_seq g) ([1..<Suc n] ! k)) g) g' (?I2 (Suc k))"
      unfolding k by (simp add: runs_def q)
  qed
  have "runs (gbind (gfold (\<lambda>_ idx. addInvitation env ev (Some (usr_id (users ! idx))) (usr_email (users ! idx)))
             () (take rc p)) (\<lambda>_. gfold (\<lambda>_ n. \<lambda>g. addInvitation env ev None (external_email (gn_event_seq g) n) g)
             () [1..<Suc (nat (InvitationsPerEvent cfg - int rc))])) ?g
      (\<lambda>_ g'. gen_ok env ci users g' \<and> same_but_invitations g g' \<and>
        length (gn_invitations g') = length (gn_invitations g) + nat (InvitationsPerEvent cfg))"
    unfolding runs_bind
  proof (rule runs_mono [OF first])
    fix u g1
    assume "?I1 (length (take rc p)) u g1"
    then have 1: "?I1 rc u g1" using rc(3) p(1) by simp
    have "rc + nat (InvitationsPerEvent cfg - int rc) = nat (InvitationsPerEvent cfg)" using rc(2) by linarith
    then show "runs (gfold (\<lambda>_ n. \<lambda>g. addInvitation env ev None (external_email (gn_event_seq g) n) g)
             () [1..<Suc (nat (InvitationsPerEvent cfg - int rc))]) g1
      (\<lambda>_ g'. gen_ok env ci users g' \<and> same_but_invitations g g' \<and>
        length (gn_invitations g') = length (gn_invitations g) + nat (InvitationsPerEvent cfg))"
      by (intro runs_mono [OF second [OF 1]]) (simp add: add.assoc del: upt_Suc)
  qed
  then show "runs (if four_fifths (InvitationsPerEvent cfg) < 0 \<or> int (length p) < four_fifths (InvitationsPerEvent cfg)
      then gpanic BadSlice
      else gbind (gfold (\<lambda>_ idx. addInvitation env ev (Some (usr_id (users ! idx))) (usr_email (users ! idx)))
             () (take (nat (four_fifths (InvitationsPerEvent cfg))) p)) (\<lambda>_.
           gfold (\<lambda>_ n. \<lambda>g. addInvitation env ev None (external_email (gn_event_seq g) n) g)
             () [1..<Suc (nat (InvitationsPerEvent cfg - four_fifths (InvitationsPerEvent cfg)))])) ?g
      (\<lambda>_ g'. gen_ok env ci users g' \<and> same_but_invitations g g' \<and>
        length (gn_invitations g') = length (gn_invitations g) + nat (InvitationsPerEvent cfg))"
    using rc p(1) by simp
qed

end
