(* ===== verification/Seed_Ok.thy ===== *)
theory Seed_Ok
  imports Seed_Slots
begin

text \<open>
  The data set of cmd/seed as a whole: with a fair random source and a configuration in which the
  users outnumber the sessions, \<open>GenerateDataset\<close> returns, every event of the result has an admin,
  and its rows satisfy every constraint of the schema, so that \<open>Load\<close> accepts them.
\<close>

section \<open>Dates\<close>

lemma date_in_seconds: "date_in loc y m d mod ns_per_s = 0"
  by (simp add: date_in_def time_date_def)

lemma add_days_seconds: "t mod ns_per_s = 0 \<Longrightarrow> add_days loc t n mod ns_per_s = 0"
  by (simp add: add_days_def)

lemma whole_seconds: "t mod ns_per_s = 0 \<Longrightarrow> whole t"
proof -
  assume "t mod ns_per_s = 0"
  then have "ns_per_s dvd t" by (rule mod_0_imp_dvd)
  moreover have "1000 dvd ns_per_s" by (simp add: ns_per_s_def)
  ultimately have "1000 dvd t" by (rule dvd_trans [rotated])
  then show ?thesis by (simp add: whole_def)
qed

lemma wall_instant_near:
  assumes "zone_ok loc"
  shows "\<bar>wall_instant loc w - w\<bar> \<le> 86400"
proof -
  have o: "\<bar>offset_at loc u\<bar> \<le> 86400" for u using assms by (simp add: zone_ok_def)
  have "\<bar>fst (loc w)\<bar> \<le> 86400" using o [of w] by (simp add: offset_at_def)
  then show ?thesis using o by (auto simp: wall_instant_def Let_def split: prod.splits)
qed

lemma add_days_later:
  assumes "zone_ok loc" "3 \<le> n" "t mod ns_per_s = 0"
  shows "t < add_days loc t n"
proof -
  let ?u = "t div ns_per_s"
  have "\<bar>offset_at loc ?u\<bar> \<le> 86400" using assms(1) by (simp add: zone_ok_def)
  moreover have "\<bar>wall_instant loc (wall_clock loc ?u + n * 86400) - (wall_clock loc ?u + n * 86400)\<bar> \<le> 86400"
    using wall_instant_near [OF assms(1)] .
  ultimately have "?u < wall_instant loc (wall_clock loc ?u + n * 86400)"
    using assms(2) unfolding wall_clock_def by linarith
  then have "?u * ns_per_s < wall_instant loc (wall_clock loc ?u + n * 86400) * ns_per_s" by (simp add: ns_per_s_def)
  moreover have "?u * ns_per_s = t" using assms(3) div_mult_mod_eq [of t ns_per_s] by simp
  ultimately show ?thesis using assms(3) by (simp add: add_days_def)
qed

section \<open>One event\<close>

text \<open>Between two events, and inside one: opened with its members, then furnished with rooms.\<close>

definition boundary :: "seed_env \<Rightarrow> (string \<Rightarrow> string) \<Rightarrow> user list \<Rightarrow> gen_state \<Rightarrow> bool" where
  "boundary env ci users g = (gen_ok env ci users g \<and> (\<forall>e \<in> set (gn_events g). has_role (ev_id e) ''admin'' g))"

definition opened :: "seed_env \<Rightarrow> (string \<Rightarrow> string) \<Rightarrow> user list \<Rightarrow> gen_state \<Rightarrow> event \<Rightarrow> uuid list \<Rightarrow> gen_state \<Rightarrow> bool" where
  "opened env ci users g0 ev mids g = (boundary env ci users g \<and> ev_id ev \<in> ev_id ` set (gn_events g) \<and>
     whole (ev_starts_at ev) \<and> set mids \<subseteq> usr_id ` set users \<and> invited g (ev_id ev) = {} \<and>
     length (gn_events g) = Suc (length (gn_events g0)) \<and> length (gn_sessions g) = length (gn_sessions g0) \<and>
     length (gn_invitations g) = length (gn_invitations g0))"

definition furnished ::
    "seed_env \<Rightarrow> (string \<Rightarrow> string) \<Rightarrow> user list \<Rightarrow> gen_state \<Rightarrow> event \<Rightarrow> uuid list \<Rightarrow> uuid list \<Rightarrow> gen_state \<Rightarrow> bool" where
  "furnished env ci users g0 ev mids rids g = (opened env ci users g0 ev mids g \<and> distinct rids \<and>
     set rids \<subseteq> rm_id ` set (gn_rooms g) \<and> set rids \<inter> se_room_id ` set (gn_sessions g) = {})"

definition held :: "seed_env \<Rightarrow> (string \<Rightarrow> string) \<Rightarrow> user list \<Rightarrow> seed_config \<Rightarrow> nat \<Rightarrow> gen_state \<Rightarrow> gen_state \<Rightarrow> bool" where
  "held env ci users cfg n g0 g = (boundary env ci users g \<and> length (gn_events g) = Suc (length (gn_events g0)) \<and>
     length (gn_sessions g) = length (gn_sessions g0) + n \<and>
     length (gn_invitations g) = length (gn_invitations g0) + nat (InvitationsPerEvent cfg))"

lemma calls_irrelevant [simp]:
  "boundary env ci users (g\<lparr>gn_calls := c\<rparr>) = boundary env ci users g"
  "opened env ci users g0 ev mids (g\<lparr>gn_calls := c\<rparr>) = opened env ci users g0 ev mids g"
  "furnished env ci users g0 ev mids rids (g\<lparr>gn_calls := c\<rparr>) = furnished env ci users g0 ev mids rids g"
  "opened env ci users (g0\<lparr>gn_calls := c\<rparr>) ev mids g = opened env ci users g0 ev mids g"
  "held env ci users cfg n (g0\<lparr>gn_calls := c\<rparr>) g = held env ci users cfg n g0 g"
  by (simp_all add: boundary_def opened_def furnished_def held_def has_role_def invited_def)

lemma boundary_same:
  "boundary env ci users g \<Longrightarrow> gen_ok env ci users g' \<Longrightarrow> gn_events g' = gn_events g \<Longrightarrow> gn_members g' = gn_members g \<Longrightarrow>
     boundary env ci users g'"
  by (simp add: boundary_def has_role_def)

text \<open>What the whole run is given: the environment, the users and the configuration.\<close>

definition given :: "seed_env \<Rightarrow> (string \<Rightarrow> string) \<Rightarrow> seed_config \<Rightarrow> user list \<Rightarrow> uuid list \<Rightarrow> bool" where
  "given env ci cfg users pool = (seed_env_ok env \<and> folds_plain ci \<and> distinct (map usr_id users) \<and> users_plain users \<and>
     3 < length users \<and> set pool = usr_id ` set users \<and> 0 \<le> InvitationsPerEvent cfg \<and>
     four_fifths (InvitationsPerEvent cfg) \<le> int (length users))"

lemma no_rows_of_new_event:
  assumes "gen_ok env ci users g" "i \<notin> used_ids users g"
  shows "roster g i = {}" "\<forall>r \<in> set (gn_rooms g). rm_event_id r \<noteq> i" "invited g i = {}"
proof -
  have i: "i \<notin> ev_id ` set (gn_events g)" using assms(2) by (simp add: used_ids_def)
  have "\<forall>m \<in> set (gn_members g). mb_event_id m \<in> ev_id ` set (gn_events g)"
    using db_okD(3) [OF gen_okD(1) [OF assms(1)]] by (simp add: members_ok_def)
  then show "roster g i = {}" using i by (auto simp: roster_def)
  show "\<forall>r \<in> set (gn_rooms g). rm_event_id r \<noteq> i"
    using db_okD(4) [OF gen_okD(1) [OF assms(1)]] i by (auto simp: rooms_ok_def)
  have "\<forall>m \<in> set (gn_invitations g). iv_event_id m \<in> ev_id ` set (gn_events g)"
    using db_okD(8) [OF gen_okD(1) [OF assms(1)]] by (simp add: invitations_ok_def)
  then show "invited g i = {}" using i by (auto simp: invited_def)
qed

lemma runs_open_event:
  assumes gv: "given env ci cfg users pool" and g: "boundary env ci users g"
    and t: "st mod ns_per_s = 0" "en mod ns_per_s = 0" "st < en" and demo: "demo = [] \<or> demo = demoIdentities"
    and K: "\<And>ev mids g'. opened env ci users g ev mids g' \<Longrightarrow> ev_starts_at ev = st \<Longrightarrow>
      \<forall>r \<in> set (gn_rooms g'). rm_event_id r \<noteq> ev_id ev \<Longrightarrow> runs (K ev mids) g' Q"
  shows "runs (gbind (newEvent env name tz st en) (\<lambda>ev. gbind (addStandardMembers env users (ev_id ev) demo) (K ev))) g Q"
  unfolding runs_bind
proof (rule runs_newEvent)
  show ok: "gen_ok env ci users g" using g by (simp add: boundary_def)
  show inj: "inj (sv_uuid env)" using gv by (simp add: given_def seed_env_ok_def)
  show "pg_time st < pg_time en" using t whole_seconds by simp
  fix ev g1
  assume ok1: "gen_ok env ci users g1" and new: "ev_id ev \<notin> used_ids users g" and s: "ev_starts_at ev = st"
    and g1: "g1 = g\<lparr>gn_ids := gn_ids g1, gn_events := gn_events g @ [ev], gn_event_seq := Suc (gn_event_seq g)\<rparr>"
  have same: "gn_events g1 = gn_events g @ [ev]" "gn_members g1 = gn_members g" "gn_rooms g1 = gn_rooms g"
    "gn_sessions g1 = gn_sessions g" "gn_invitations g1 = gn_invitations g"
    by (subst g1, simp)+
  note none = no_rows_of_new_event [OF ok new]
  have "roster g1 (ev_id ev) = {}" using none(1) same by (simp add: roster_def)
  then have "runs (addStandardMembers env users (ev_id ev) demo) g1 (\<lambda>ids' g'. gen_ok env ci users g' \<and>
      same_but_members g1 g' \<and> set ids' \<subseteq> usr_id ` set users \<and> has_role (ev_id ev) ''admin'' g')"
    using gv demo ok1 same by (intro runs_addStandardMembers) (auto simp: given_def seed_env_ok_def)
  then show "runs (addStandardMembers env users (ev_id ev) demo) g1 (\<lambda>mids g'. runs (K ev mids) g' Q)"
  proof (rule runs_mono)
    fix mids g'
    assume a: "gen_ok env ci users g' \<and> same_but_members g1 g' \<and> set mids \<subseteq> usr_id ` set users \<and> has_role (ev_id ev) ''admin'' g'"
    then have "has_role i r g \<Longrightarrow> has_role i r g'" for i r
      using same by (auto simp: has_role_def same_but_members_def)
    then have "boundary env ci users g'"
      using a g same by (auto simp: boundary_def same_but_members_def)
    then have "opened env ci users g ev mids g'"
      using a s whole_seconds [OF t(1)] none(3) same by (simp add: opened_def same_but_members_def invited_def)
    then show "runs (K ev mids) g' Q"
      using s none(2) a same by (intro K) (simp_all add: same_but_members_def)
  qed
qed

lemma runs_furnish:
  assumes "inj (sv_uuid env)" "opened env ci users g0 ev mids g" "0 < n" "\<forall>r \<in> set (gn_rooms g). rm_event_id r \<noteq> ev_id ev"
  shows "runs (addRooms env (ev_id ev) n) g (\<lambda>rids g'. furnished env ci users g0 ev mids rids g' \<and> length rids = nat n)"
proof (rule runs_mono [OF runs_addRooms [OF assms(1)]])
  show "gen_ok env ci users g" "ev_id ev \<in> ev_id ` set (gn_events g)" using assms(2) by (simp_all add: opened_def boundary_def)
  fix rids g'
  assume a: "gen_ok env ci users g' \<and> same_but_rooms g g' \<and> length rids = nat n \<and> distinct rids \<and>
    set rids \<subseteq> rm_id ` set (gn_rooms g') \<and> set rids \<inter> se_room_id ` set (gn_sessions g') = {}"
  then have "boundary env ci users g'"
    using assms(2) boundary_same [of env ci users g g'] by (simp add: opened_def same_but_rooms_def)
  moreover have "invited g' (ev_id ev) = invited g (ev_id ev)" using a by (simp add: invited_def same_but_rooms_def)
  ultimately show "furnished env ci users g0 ev mids rids g' \<and> length rids = nat n"
    using assms(2) a unfolding furnished_def opened_def by (auto simp: same_but_rooms_def)
qed (use assms(3,4) in simp_all)

lemma given_stage: "given env ci cfg users pool \<Longrightarrow> opened env ci users g0 ev mids g \<Longrightarrow> stage env users pool mids"
  by (simp add: given_def seed_env_ok_def stage_def opened_def)

lemma runs_invite:
  assumes gv: "given env ci cfg users pool" and g: "boundary env ci users g" "ev_id ev \<in> ev_id ` set (gn_events g)"
    "invited g (ev_id ev) = {}"
  shows "runs (addInvitations env cfg users (ev_id ev)) g (\<lambda>_ g'. boundary env ci users g' \<and> same_but_invitations g g' \<and>
    length (gn_invitations g') = length (gn_invitations g) + nat (InvitationsPerEvent cfg))"
proof (rule runs_mono [OF runs_addInvitations])
  show "source_ok env" "inj (sv_uuid env)" "folds_plain ci" "users_plain users" "0 \<le> InvitationsPerEvent cfg"
    "four_fifths (InvitationsPerEvent cfg) \<le> int (length users)"
    using gv by (simp_all add: given_def seed_env_ok_def)
  show "gen_ok env ci users g" "ev_id ev \<in> ev_id ` set (gn_events g)" "invited g (ev_id ev) = {}"
    using g by (simp_all add: boundary_def)
  fix u g'
  assume "gen_ok env ci users g' \<and> same_but_invitations g g' \<and>
    length (gn_invitations g') = length (gn_invitations g) + nat (InvitationsPerEvent cfg)"
  then show "boundary env ci users g' \<and> same_but_invitations g g' \<and>
    length (gn_invitations g') = length (gn_invitations g) + nat (InvitationsPerEvent cfg)"
    using boundary_same [OF g(1)] by (simp add: same_but_invitations_def)
qed

lemma runs_fill:
  assumes gv: "given env ci cfg users pool" and g: "furnished env ci users g0 ev mids rids g" "rids \<noteq> []"
    and few: "0 \<le> tot" "length (gn_sessions g0) + nat tot \<le> length users"
  shows "runs (gbind (distributeSessions env pool ev rids mids tot ttl) (\<lambda>_. addInvitations env cfg users (ev_id ev))) g
    (\<lambda>_ g'. held env ci users cfg (nat tot) g0 g')"
  unfolding runs_bind
proof (rule runs_mono [OF runs_distributeSessions])
  have o: "opened env ci users g0 ev mids g" using g(1) by (simp add: furnished_def)
  show "stage env users pool mids" using given_stage [OF gv o] .
  show "gen_ok env ci users g" "ev_id ev \<in> ev_id ` set (gn_events g)" "whole (ev_starts_at ev)"
    "distinct rids" "set rids \<subseteq> rm_id ` set (gn_rooms g)" "set rids \<inter> se_room_id ` set (gn_sessions g) = {}"
    "length (gn_sessions g) + nat tot \<le> length users"
    using g few by (simp_all add: furnished_def opened_def boundary_def)
  fix u g1
  assume 1: "gen_ok env ci users g1 \<and> same_but_sessions g g1 \<and> length (gn_sessions g1) = length (gn_sessions g) + nat tot"
  have b: "boundary env ci users g1" using o 1 boundary_same [of env ci users g g1] by (simp add: opened_def same_but_sessions_def)
  show "runs (addInvitations env cfg users (ev_id ev)) g1 (\<lambda>_ g'. held env ci users cfg (nat tot) g0 g')"
    by (rule runs_mono [OF runs_invite [OF gv b]])
      (use o 1 in \<open>auto simp: opened_def same_but_sessions_def same_but_invitations_def invited_def held_def\<close>)
qed (use g few in simp_all)

text \<open>The three kinds of event, and how many sessions each can hold.\<close>

definition config_ok :: "seed_config \<Rightarrow> bool" where
  "config_ok cfg = (0 \<le> InvitationsPerEvent cfg \<and> four_fifths (InvitationsPerEvent cfg) \<le> UserCount cfg \<and>
     1 \<le> MinRoomsPerEvent cfg \<and> MinRoomsPerEvent cfg \<le> MaxRoomsPerEvent cfg \<and>
     0 \<le> MinSessionsPerEvent cfg \<and> MinSessionsPerEvent cfg \<le> MaxSessionsPerEvent cfg \<and>
     1 \<le> LargeEventRoomCount cfg \<and> 0 \<le> LargeEventSessionCount cfg \<and> 0 \<le> BulkEventCount cfg \<and>
     (BulkEventCount cfg + 1) * MaxSessionsPerEvent cfg + LargeEventSessionCount cfg + 6 \<le> UserCount cfg)"

definition held_upto :: "seed_env \<Rightarrow> (string \<Rightarrow> string) \<Rightarrow> user list \<Rightarrow> seed_config \<Rightarrow> nat \<Rightarrow> nat \<Rightarrow> gen_state \<Rightarrow> bool" where
  "held_upto env ci users cfg n k g = (boundary env ci users g \<and> length (gn_events g) = n \<and> length (gn_sessions g) \<le> k \<and>
     length (gn_invitations g) = n * nat (InvitationsPerEvent cfg))"

lemma held_next:
  "held env ci users cfg m g0 g \<Longrightarrow> held_upto env ci users cfg n k g0 \<Longrightarrow> m \<le> l \<Longrightarrow> held_upto env ci users cfg (Suc n) (k + l) g"
  by (simp add: held_def held_upto_def)

lemma runs_rooms_and_sessions:
  assumes gv: "given env ci cfg users pool" and c: "config_ok cfg" and g: "opened env ci users g0 ev mids g"
    "\<forall>r \<in> set (gn_rooms g). rm_event_id r \<noteq> ev_id ev"
    and few: "length (gn_sessions g0) + nat (MaxSessionsPerEvent cfg) \<le> length users"
  shows "runs (gbind (Intn env (MaxRoomsPerEvent cfg - MinRoomsPerEvent cfg + 1)) (\<lambda>r.
     gbind (addRooms env (ev_id ev) (MinRoomsPerEvent cfg + r)) (\<lambda>roomIDs.
     gbind (Intn env (MaxSessionsPerEvent cfg - MinSessionsPerEvent cfg + 1)) (\<lambda>x.
     gbind (distributeSessions env pool ev roomIDs mids (MinSessionsPerEvent cfg + x) ttl) (\<lambda>_.
     addInvitations env cfg users (ev_id ev)))))) g
    (\<lambda>_ g'. \<exists>m \<le> nat (MaxSessionsPerEvent cfg). held env ci users cfg m g0 g')"
proof -
  have env: "source_ok env" "inj (sv_uuid env)" using gv by (simp_all add: given_def seed_env_ok_def)
  let ?Q = "\<lambda>(_ :: unit) g'. \<exists>m \<le> nat (MaxSessionsPerEvent cfg). held env ci users cfg m g0 g'"
  have fill: "runs (gbind (Intn env (MaxSessionsPerEvent cfg - MinSessionsPerEvent cfg + 1)) (\<lambda>x.
     gbind (distributeSessions env pool ev rids mids (MinSessionsPerEvent cfg + x) ttl) (\<lambda>_.
     addInvitations env cfg users (ev_id ev)))) g' ?Q"
    if f: "furnished env ci users g0 ev mids rids g'" "rids \<noteq> []" for rids g'
    unfolding runs_bind [of "Intn env _"]
  proof (rule runs_Intn [OF env(1)])
    show "0 < MaxSessionsPerEvent cfg - MinSessionsPerEvent cfg + 1" using c by (simp add: config_ok_def)
    fix x
    assume x: "0 \<le> x" "x < MaxSessionsPerEvent cfg - MinSessionsPerEvent cfg + 1"
    then have m: "0 \<le> MinSessionsPerEvent cfg + x" "nat (MinSessionsPerEvent cfg + x) \<le> nat (MaxSessionsPerEvent cfg)"
      using c by (simp_all add: config_ok_def)
    show "runs (gbind (distributeSessions env pool ev rids mids (MinSessionsPerEvent cfg + x) ttl) (\<lambda>_.
     addInvitations env cfg users (ev_id ev))) (g'\<lparr>gn_calls := Suc (gn_calls g')\<rparr>) ?Q"
      by (rule runs_mono [OF runs_fill [OF gv]]) (use f m few in auto)
  qed
  show ?thesis
    unfolding runs_bind [of "Intn env (MaxRoomsPerEvent cfg - MinRoomsPerEvent cfg + 1)"]
  proof (rule runs_Intn [OF env(1)])
    show "0 < MaxRoomsPerEvent cfg - MinRoomsPerEvent cfg + 1" using c by (simp add: config_ok_def)
    fix r
    assume r: "0 \<le> r" "r < MaxRoomsPerEvent cfg - MinRoomsPerEvent cfg + 1"
    then have "0 < MinRoomsPerEvent cfg + r" using c by (simp add: config_ok_def)
    then show "runs (gbind (addRooms env (ev_id ev) (MinRoomsPerEvent cfg + r)) (\<lambda>roomIDs.
     gbind (Intn env (MaxSessionsPerEvent cfg - MinSessionsPerEvent cfg + 1)) (\<lambda>x.
     gbind (distributeSessions env pool ev roomIDs mids (MinSessionsPerEvent cfg + x) ttl) (\<lambda>_.
     addInvitations env cfg users (ev_id ev))))) (g\<lparr>gn_calls := Suc (gn_calls g)\<rparr>) ?Q"
      unfolding runs_bind [of "addRooms env _ _"]
      by (intro runs_mono [OF runs_furnish [OF env(2)]] fill) (use g in auto)
  qed
qed

lemma runs_located:
  assumes "seed_env_ok env" "name \<in> set (''America/New_York'' # bulkTimezones)"
    and "\<And>loc. zone_ok loc \<Longrightarrow> LoadLocation (sv_zoneinfo env) (sv_host env) name = Some loc \<Longrightarrow> runs (K loc) g Q"
  shows "runs (gbind (mustLoadLocation env name) K) g Q"
proof -
  have "zones_ok env" using assms(1) by (simp add: seed_env_ok_def)
  then obtain loc where "LoadLocation (sv_zoneinfo env) (sv_host env) name = Some loc" "zone_ok loc"
    using assms(2) unfolding zones_ok_def by blast
  then show ?thesis using assms(3) by (simp add: mustLoadLocation_def)
qed

text \<open>An event with a random number of rooms and sessions: the bulk events and the demo event.\<close>

lemma runs_random_event:
  assumes gv: "given env ci cfg users pool" and c: "config_ok cfg" and g: "held_upto env ci users cfg n k g"
    and few: "k + nat (MaxSessionsPerEvent cfg) \<le> length users" and loc: "zone_ok loc" "3 \<le> days"
    and demo: "demo = [] \<or> demo = demoIdentities" and st: "st mod ns_per_s = 0"
  shows "runs (gbind (newEvent env name tz st (add_days loc st days)) (\<lambda>ev.
     gbind (addStandardMembers env users (ev_id ev) demo) (\<lambda>memberIDs.
     gbind (Intn env (MaxRoomsPerEvent cfg - MinRoomsPerEvent cfg + 1)) (\<lambda>r.
     gbind (addRooms env (ev_id ev) (MinRoomsPerEvent cfg + r)) (\<lambda>roomIDs.
     gbind (Intn env (MaxSessionsPerEvent cfg - MinSessionsPerEvent cfg + 1)) (\<lambda>x.
     gbind (distributeSessions env pool ev roomIDs memberIDs (MinSessionsPerEvent cfg + x) ttl) (\<lambda>_.
     addInvitations env cfg users (ev_id ev)))))))) g
     (\<lambda>_. held_upto env ci users cfg (Suc n) (k + nat (MaxSessionsPerEvent cfg)))"
proof (rule runs_open_event [OF gv _ st add_days_seconds [OF st] add_days_later [OF loc st] demo])
  show "boundary env ci users g" using g by (simp add: held_upto_def)
  fix ev mids g'
  assume o: "opened env ci users g ev mids g'" "\<forall>r \<in> set (gn_rooms g'). rm_event_id r \<noteq> ev_id ev"
  have "length (gn_sessions g) + nat (MaxSessionsPerEvent cfg) \<le> length users" using g few by (simp add: held_upto_def)
  then show "runs (gbind (Intn env (MaxRoomsPerEvent cfg - MinRoomsPerEvent cfg + 1)) (\<lambda>r.
     gbind (addRooms env (ev_id ev) (MinRoomsPerEvent cfg + r)) (\<lambda>roomIDs.
     gbind (Intn env (MaxSessionsPerEvent cfg - MinSessionsPerEvent cfg + 1)) (\<lambda>x.
     gbind (distributeSessions env pool ev roomIDs mids (MinSessionsPerEvent cfg + x) ttl) (\<lambda>_.
     addInvitations env cfg users (ev_id ev)))))) g'
     (\<lambda>_. held_upto env ci users cfg (Suc n) (k + nat (MaxSessionsPerEvent cfg)))"
    by (rule runs_mono [OF runs_rooms_and_sessions [OF gv c o]]) (use g held_next in blast)
qed

lemma runs_addBulkEvent:
  assumes gv: "given env ci cfg users pool" and c: "config_ok cfg" and g: "held_upto env ci users cfg n k g"
    and few: "k + nat (MaxSessionsPerEvent cfg) \<le> length users"
  shows "runs (addBulkEvent env cfg users pool i) g (\<lambda>_. held_upto env ci users cfg (Suc n) (k + nat (MaxSessionsPerEvent cfg)))"
  unfolding addBulkEvent_def Let_def runs_bind [of "Intn env (int (length bulkTimezones))"]
proof (rule runs_Intn)
  have env: "seed_env_ok env" using gv by (simp add: given_def)
  then show "source_ok env" by (simp add: seed_env_ok_def)
  show "0 < int (length bulkTimezones)" by (simp add: bulkTimezones_def)
  have g': "held_upto env ci users cfg n k (g\<lparr>gn_calls := c\<rparr>)" for c using g by (simp add: held_upto_def)
  fix z
  assume "0 \<le> z" "z < int (length bulkTimezones)"
  then have "bulkTimezones ! nat z \<in> set bulkTimezones" by (intro nth_mem) linarith
  then have "bulkTimezones ! nat z \<in> set (''America/New_York'' # bulkTimezones)" by simp
  note zone = runs_located [OF env this]
  have located: "(\<And>loc. zone_ok loc \<Longrightarrow> runs (K loc) g' Q) \<Longrightarrow> runs (gbind (mustLoadLocation env (bulkTimezones ! nat z)) K) g' Q"
    for K :: "location \<Rightarrow> unit gen" and g' Q using zone by blast
  show "runs (gbind (mustLoadLocation env (bulkTimezones ! nat z)) (\<lambda>loc.
     gbind (newEvent env (''Seed Bulk Event '' @ zero_pad 3 (i + 1)) (bulkTimezones ! nat z)
       (add_days loc (date_in loc 2026 1 1) (int i * 3)) (add_days loc (add_days loc (date_in loc 2026 1 1) (int i * 3)) 14)) (\<lambda>ev.
     gbind (addStandardMembers env users (ev_id ev) []) (\<lambda>memberIDs.
     gbind (Intn env (MaxRoomsPerEvent cfg - MinRoomsPerEvent cfg + 1)) (\<lambda>r.
     gbind (addRooms env (ev_id ev) (MinRoomsPerEvent cfg + r)) (\<lambda>roomIDs.
     gbind (Intn env (MaxSessionsPerEvent cfg - MinSessionsPerEvent cfg + 1)) (\<lambda>x.
     gbind (distributeSessions env pool ev roomIDs memberIDs (MinSessionsPerEvent cfg + x)
       (''Seed Bulk Event '' @ zero_pad 3 (i + 1))) (\<lambda>_.
     addInvitations env cfg users (ev_id ev)))))))))
     (g\<lparr>gn_calls := Suc (gn_calls g)\<rparr>)
     (\<lambda>_. held_upto env ci users cfg (Suc n) (k + nat (MaxSessionsPerEvent cfg)))"
    by (rule located, rule runs_random_event [OF gv c g' few _ _ _ add_days_seconds [OF date_in_seconds]]) simp_all
qed

lemma runs_addDemoEvent:
  assumes gv: "given env ci cfg users pool" and c: "config_ok cfg" and g: "held_upto env ci users cfg n k g"
    and few: "k + nat (MaxSessionsPerEvent cfg) \<le> length users"
  shows "runs (addDemoEvent env cfg users pool) g (\<lambda>_. held_upto env ci users cfg (Suc n) (k + nat (MaxSessionsPerEvent cfg)))"
  unfolding addDemoEvent_def Let_def
proof (rule runs_located)
  show "seed_env_ok env" using gv by (simp add: given_def)
  show "''Asia/Colombo'' \<in> set (''America/New_York'' # bulkTimezones)" by (simp add: bulkTimezones_def)
  fix loc
  assume "zone_ok loc"
  note event = runs_random_event [OF gv c g few this _ _ date_in_seconds]
  show "runs (gbind (newEvent env seedDemoEventName ''Asia/Colombo'' (date_in loc 2026 9 1) (add_days loc (date_in loc 2026 9 1) 14)) (\<lambda>ev.
     gbind (addStandardMembers env users (ev_id ev) demoIdentities) (\<lambda>memberIDs.
     gbind (Intn env (MaxRoomsPerEvent cfg - MinRoomsPerEvent cfg + 1)) (\<lambda>r.
     gbind (addRooms env (ev_id ev) (MinRoomsPerEvent cfg + r)) (\<lambda>roomIDs.
     gbind (Intn env (MaxSessionsPerEvent cfg - MinSessionsPerEvent cfg + 1)) (\<lambda>x.
     gbind (distributeSessions env pool ev roomIDs memberIDs (MinSessionsPerEvent cfg + x) seedDemoEventName) (\<lambda>_.
     addInvitations env cfg users (ev_id ev)))))))) g
     (\<lambda>_. held_upto env ci users cfg (Suc n) (k + nat (MaxSessionsPerEvent cfg)))"
    by (rule event) simp_all
qed

lemma runs_addLargeEvent:
  assumes gv: "given env ci cfg users pool" and c: "config_ok cfg" and g: "held_upto env ci users cfg n k g"
    and few: "k + nat (LargeEventSessionCount cfg) \<le> length users"
  shows "runs (addLargeEvent env cfg users pool) g (\<lambda>_. held_upto env ci users cfg (Suc n) (k + nat (LargeEventSessionCount cfg)))"
  unfolding addLargeEvent_def Let_def
proof (rule runs_located)
  show env: "seed_env_ok env" using gv by (simp add: given_def)
  show "''Asia/Colombo'' \<in> set (''America/New_York'' # bulkTimezones)" by (simp add: bulkTimezones_def)
  fix loc
  assume loc: "zone_ok loc"
  let ?Q = "\<lambda>_ :: unit. held_upto env ci users cfg (Suc n) (k + nat (LargeEventSessionCount cfg))"
  have "runs (gbind (addRooms env (ev_id ev) (LargeEventRoomCount cfg)) (\<lambda>roomIDs.
     gbind (distributeSessions env pool ev roomIDs mids (LargeEventSessionCount cfg) seedLargeEventName) (\<lambda>_.
     addInvitations env cfg users (ev_id ev)))) g' ?Q"
    if o: "opened env ci users g ev mids g'" "\<forall>r \<in> set (gn_rooms g'). rm_event_id r \<noteq> ev_id ev" for ev mids g'
    unfolding runs_bind [of "addRooms env _ _"]
  proof (rule runs_mono [OF runs_furnish [OF _ o(1) _ o(2)]])
    show "inj (sv_uuid env)" using env by (simp add: seed_env_ok_def)
    show "0 < LargeEventRoomCount cfg" using c by (simp add: config_ok_def)
    fix rids g2
    assume "furnished env ci users g ev mids rids g2 \<and> length rids = nat (LargeEventRoomCount cfg)"
    moreover from this have "rids \<noteq> []" using c by (auto simp: config_ok_def)
    moreover have "0 \<le> LargeEventSessionCount cfg" using c by (simp add: config_ok_def)
    moreover have "length (gn_sessions g) + nat (LargeEventSessionCount cfg) \<le> length users"
      using few g by (simp add: held_upto_def)
    ultimately have "runs (gbind (distributeSessions env pool ev rids mids (LargeEventSessionCount cfg) seedLargeEventName) (\<lambda>_.
     addInvitations env cfg users (ev_id ev))) g2 (\<lambda>_ g'. held env ci users cfg (nat (LargeEventSessionCount cfg)) g g')"
      using runs_fill [OF gv] by blast
    then show "runs (gbind (distributeSessions env pool ev rids mids (LargeEventSessionCount cfg) seedLargeEventName) (\<lambda>_.
     addInvitations env cfg users (ev_id ev))) g2 ?Q"
      by (rule runs_mono) (rule held_next [OF _ g], auto)
  qed
  then show "runs (gbind (newEvent env seedLargeEventName ''Asia/Colombo'' (date_in loc 2026 6 1) (add_days loc (date_in loc 2026 6 1) 90)) (\<lambda>ev.
     gbind (addStandardMembers env users (ev_id ev) []) (\<lambda>memberIDs.
     gbind (addRooms env (ev_id ev) (LargeEventRoomCount cfg)) (\<lambda>roomIDs.
     gbind (distributeSessions env pool ev roomIDs memberIDs (LargeEventSessionCount cfg) seedLargeEventName) (\<lambda>_.
     addInvitations env cfg users (ev_id ev)))))) g ?Q"
    using g by (intro runs_open_event [OF gv _ date_in_seconds add_days_seconds [OF date_in_seconds]
      add_days_later [OF loc _ date_in_seconds]]) (simp_all add: held_upto_def)
qed

text \<open>The two daylight-saving fixtures: one session across the change and two fillers.\<close>

lemma runs_dst_sessions:
  assumes gv: "given env ci cfg users pool" and g: "furnished env ci users g0 ev mids rids g" "length rids = 2"
    and few: "length (gn_sessions g0) + 3 \<le> length users" and t: "start < end" "whole start" "whole end"
    and st: "whole st"
  shows "runs (gbind (addSession env pool (ev_id ev) (rids ! 0) mids title start end) (\<lambda>_.
     gbind (addGenericSessions env pool (ev_id ev) (rids ! 1) mids (st + hours 9) 2 ttl) (\<lambda>_.
     addInvitations env cfg users (ev_id ev)))) g (\<lambda>_ g'. held env ci users cfg 3 g0 g')"
  unfolding runs_bind [of "addSession env _ _ _ _ _ _ _"]
proof (rule runs_addSession)
  have o: "opened env ci users g0 ev mids g" using g(1) by (simp add: furnished_def)
  show stage: "stage env users pool mids" using given_stage [OF gv o] .
  have rids: "rids ! 0 \<noteq> rids ! 1" "rids ! 0 \<in> set rids" "rids ! 1 \<in> set rids"
    using g nth_eq_iff_index_eq [of rids 0 1] nth_mem [of 0 rids] nth_mem [of 1 rids] by (simp_all add: furnished_def)
  have rooms: "set rids \<subseteq> rm_id ` set (gn_rooms g)" "set rids \<inter> se_room_id ` set (gn_sessions g) = {}"
    using g(1) by (simp_all add: furnished_def)
  show "gen_ok env ci users g" "ev_id ev \<in> ev_id ` set (gn_events g)"
    using o by (simp_all add: opened_def boundary_def)
  show "rids ! 0 \<in> rm_id ` set (gn_rooms g)" using rids rooms by blast
  have free: "se_room_id x \<notin> set rids" if "x \<in> set (gn_sessions g)" for x using rooms(2) that by blast
  show "\<forall>x \<in> set (gn_sessions g). se_room_id x = rids ! 0 \<longrightarrow> se_ends_at x \<le> start" using free rids(2) by metis
  show "length (gn_sessions g) < length users" using few o by (simp add: opened_def)
  fix g1 x
  assume 1: "gen_ok env ci users g1" "same_but_sessions g g1" "gn_sessions g1 = gn_sessions g @ [x]" "se_room_id x = rids ! 0"
  have "runs (addGenericSessions env pool (ev_id ev) (rids ! 1) mids (st + hours 9) 2 ttl) g1 (\<lambda>_ g2. gen_ok env ci users g2 \<and>
    same_but_sessions g1 g2 \<and> length (gn_sessions g2) = length (gn_sessions g1) + nat 2 \<and>
    se_room_id ` set (gn_sessions g2) \<subseteq> insert (rids ! 1) (se_room_id ` set (gn_sessions g1)))"
  proof (rule runs_addGenericSessions [OF stage 1(1)])
    show "ev_id ev \<in> ev_id ` set (gn_events g1)" using 1(2) o by (simp add: same_but_sessions_def opened_def)
    show "rids ! 1 \<in> rm_id ` set (gn_rooms g1)" using 1(2) rids rooms by (auto simp: same_but_sessions_def)
    show "whole (st + hours 9)" using st by (rule whole_plus)
    show "\<forall>x \<in> set (gn_sessions g1). se_room_id x \<noteq> rids ! 1"
      unfolding 1(3) using 1(4) rids(1,3) free by (metis Un_iff empty_iff empty_set insert_iff list.simps(15) set_append)
    show "length (gn_sessions g1) + nat 2 \<le> length users" using 1(3) few o by (simp add: opened_def)
  qed
  then show "runs (gbind (addGenericSessions env pool (ev_id ev) (rids ! 1) mids (st + hours 9) 2 ttl) (\<lambda>_.
     addInvitations env cfg users (ev_id ev))) g1 (\<lambda>_ g'. held env ci users cfg 3 g0 g')"
    unfolding runs_bind
  proof (rule runs_mono)
    fix u g2
    assume 2: "gen_ok env ci users g2 \<and> same_but_sessions g1 g2 \<and> length (gn_sessions g2) = length (gn_sessions g1) + nat 2 \<and>
      se_room_id ` set (gn_sessions g2) \<subseteq> insert (rids ! 1) (se_room_id ` set (gn_sessions g1))"
    have b: "boundary env ci users g2"
      using o 1(2) 2 boundary_same [of env ci users g g2] by (simp add: opened_def same_but_sessions_def)
    have e: "ev_id ev \<in> ev_id ` set (gn_events g2)" "invited g2 (ev_id ev) = {}"
      using o 1(2) 2 by (simp_all add: opened_def same_but_sessions_def invited_def)
    show "runs (addInvitations env cfg users (ev_id ev)) g2 (\<lambda>_ g'. held env ci users cfg 3 g0 g')"
    proof (rule runs_mono [OF runs_invite [OF gv b e]])
      fix v g'
      assume "boundary env ci users g' \<and> same_but_invitations g2 g' \<and>
        length (gn_invitations g') = length (gn_invitations g2) + nat (InvitationsPerEvent cfg)"
      then show "held env ci users cfg 3 g0 g'"
        using o 1(2,3) 2 unfolding held_def opened_def same_but_sessions_def same_but_invitations_def by simp
    qed
  qed
qed (use t in simp_all)

lemma runs_addDSTFixtureEvent:
  assumes gv: "given env ci cfg users pool" and g: "held_upto env ci users cfg n k g"
    and few: "k + 3 \<le> length users" and loc: "zone_ok loc" "3 \<le> days"
    and local: "ResolveLocalTime a loc = Inr t" "ResolveLocalTime b loc = Inr u" "t < u" "whole t" "whole u"
  shows "runs (addDSTFixtureEvent env cfg users pool name title a b loc y m d days) g (\<lambda>_. held_upto env ci users cfg (Suc n) (k + 3))"
  unfolding addDSTFixtureEvent_def Let_def local(1,2) sum.case
proof (rule runs_open_event [OF gv _ date_in_seconds add_days_seconds [OF date_in_seconds] add_days_later [OF loc date_in_seconds]])
  show "boundary env ci users g" using g by (simp add: held_upto_def)
  fix ev mids g'
  assume o: "opened env ci users g ev mids g'" and none: "\<forall>r \<in> set (gn_rooms g'). rm_event_id r \<noteq> ev_id ev"
  have inj: "inj (sv_uuid env)" using gv by (simp add: given_def seed_env_ok_def)
  have few': "length (gn_sessions g) + 3 \<le> length users" using few g by (simp add: held_upto_def)
  show "runs (gbind (addRooms env (ev_id ev) 2) (\<lambda>roomIDs.
     gbind (addSession env pool (ev_id ev) (roomIDs ! 0) mids title t u) (\<lambda>_.
     gbind (addGenericSessions env pool (ev_id ev) (roomIDs ! 1) mids (date_in loc y m d + hours 9) 2 (name @ '' Filler'')) (\<lambda>_.
     addInvitations env cfg users (ev_id ev))))) g' (\<lambda>_. held_upto env ci users cfg (Suc n) (k + 3))"
    unfolding runs_bind [of "addRooms env _ _"]
  proof (rule runs_mono [OF runs_furnish [OF inj o _ none]])
    fix rids g2
    assume "furnished env ci users g ev mids rids g2 \<and> length rids = nat 2"
    then have f: "furnished env ci users g ev mids rids g2" "length rids = 2" by simp_all
    show "runs (gbind (addSession env pool (ev_id ev) (rids ! 0) mids title t u) (\<lambda>_.
     gbind (addGenericSessions env pool (ev_id ev) (rids ! 1) mids (date_in loc y m d + hours 9) 2 (name @ '' Filler'')) (\<lambda>_.
     addInvitations env cfg users (ev_id ev)))) g2 (\<lambda>_. held_upto env ci users cfg (Suc n) (k + 3))"
      by (rule runs_mono [OF runs_dst_sessions [OF gv f few' local(3-5) whole_seconds [OF date_in_seconds]]])
        (rule held_next [OF _ g], auto)
  qed simp
qed simp

section \<open>The whole run\<close>

lemma generate_events_holds:
  assumes gv: "given env ci cfg users pool" and c: "config_ok cfg" and n: "length users = nat (UserCount cfg)"
    and g: "held_upto env ci users cfg 0 0 g"
  shows "runs (generate_events env cfg users pool) g (\<lambda>_ g'. held_upto env ci users cfg (nat (BulkEventCount cfg) + 4) (length users) g')"
proof -
  let ?B = "nat (BulkEventCount cfg)" and ?S = "nat (MaxSessionsPerEvent cfg)" and ?L = "nat (LargeEventSessionCount cfg)"
  have env: "seed_env_ok env" using gv by (simp add: given_def)
  have pos: "0 \<le> MaxSessionsPerEvent cfg" "0 \<le> LargeEventSessionCount cfg" "0 \<le> BulkEventCount cfg"
    using c by (simp_all add: config_ok_def)
  have sum: "(BulkEventCount cfg + 1) * MaxSessionsPerEvent cfg + LargeEventSessionCount cfg + 6 \<le> UserCount cfg"
    using c by (simp add: config_ok_def)
  have "int (?B * ?S + 3 + 3 + ?L + ?S) = (BulkEventCount cfg + 1) * MaxSessionsPerEvent cfg + LargeEventSessionCount cfg + 6"
    using pos by (simp add: algebra_simps)
  then have "int (?B * ?S + 3 + 3 + ?L + ?S) \<le> int (length users)" using sum n by linarith
  then have all: "?B * ?S + 3 + 3 + ?L + ?S \<le> length users" by (simp only: of_nat_le_iff)
  let ?H = "held_upto env ci users cfg"
  have "runs (gfold (\<lambda>_ i. addBulkEvent env cfg users pool i) () [0..<?B]) g
    ((\<lambda>i (_ :: unit) g'. ?H i (i * ?S) g') (length [0..<?B]))"
  proof (rule runs_fold)
    fix i u g'
    assume i: "i < length [0..<?B]" and h: "?H i (i * ?S) g'"
    then have "Suc i * ?S \<le> ?B * ?S" by (intro mult_le_mono1) simp
    then have "i * ?S + ?S \<le> length users" using all by simp
    from runs_addBulkEvent [OF gv c h this]
    show "runs (addBulkEvent env cfg users pool ([0..<?B] ! i)) g' (\<lambda>_. ?H (Suc i) (Suc i * ?S))" by (simp add: add.commute)
  qed (use g in simp)
  then have 1: "runs (gfold (\<lambda>_ i. addBulkEvent env cfg users pool i) () [0..<?B]) g (\<lambda>_. ?H ?B (?B * ?S))" by simp
  obtain ny where ny: "mustLoadLocation env ''America/New_York'' = gret ny" "zone_ok ny" "fixtures_ok ny"
  proof -
    have "zones_ok env" "fixture_zone_ok env" using env by (simp_all add: seed_env_ok_def)
    then show ?thesis using that by (auto simp: zones_ok_def fixture_zone_ok_def mustLoadLocation_def split: option.splits)
  qed
  obtain t u t' u' where d: "ResolveLocalTime ''2026-03-08T01:30:00'' ny = Inr t" "ResolveLocalTime ''2026-03-08T03:30:00'' ny = Inr u"
    "t < u" "whole t" "whole u" "ResolveLocalTime ''2026-11-01T00:30:00'' ny = Inr t'" "ResolveLocalTime ''2026-11-01T02:30:00'' ny = Inr u'"
    "t' < u'" "whole t'" "whole u'"
    using ny(3) by (auto simp: fixtures_ok_def whole_def split: sum.splits)
  show ?thesis
    unfolding generate_events_def ny(1) runs_bind runs_ret
  proof (rule runs_mono [OF 1])
    fix u1 g1
    assume h1: "?H ?B (?B * ?S) g1"
    have 2: "runs (addDSTFixtureEvent env cfg users pool seedDSTSpringForwardEventName seedDSTSpringForwardSessionTitle
        ''2026-03-08T01:30:00'' ''2026-03-08T03:30:00'' ny 2026 3 1 15) g1 (\<lambda>_. ?H (Suc ?B) (?B * ?S + 3))"
      using all by (intro runs_addDSTFixtureEvent [OF gv h1 _ ny(2) _ d(1-5)]) simp_all
    have 3: "runs (addDSTFixtureEvent env cfg users pool seedDSTFallBackEventName seedDSTFallBackSessionTitle
        ''2026-11-01T00:30:00'' ''2026-11-01T02:30:00'' ny 2026 10 25 (8 + 31)) g2 (\<lambda>_. ?H (Suc (Suc ?B)) (?B * ?S + 3 + 3))"
      if "?H (Suc ?B) (?B * ?S + 3) g2" for g2
      using all by (intro runs_addDSTFixtureEvent [OF gv that _ ny(2) _ d(6-10)]) simp_all
    have 4: "runs (addLargeEvent env cfg users pool) g3 (\<lambda>_. ?H (Suc (Suc (Suc ?B))) (?B * ?S + 3 + 3 + ?L))"
      if "?H (Suc (Suc ?B)) (?B * ?S + 3 + 3) g3" for g3
      using all by (intro runs_addLargeEvent [OF gv c that]) simp_all
    have 5: "runs (addDemoEvent env cfg users pool) g4 (\<lambda>_. ?H (?B + 4) (length users))"
      if "?H (Suc (Suc (Suc ?B))) (?B * ?S + 3 + 3 + ?L) g4" for g4
      by (rule runs_mono [OF runs_addDemoEvent [OF gv c that]]) (use all in \<open>auto simp: held_upto_def algebra_simps\<close>)
    show "runs (addDSTFixtureEvent env cfg users pool seedDSTSpringForwardEventName seedDSTSpringForwardSessionTitle
        ''2026-03-08T01:30:00'' ''2026-03-08T03:30:00'' ny 2026 3 1 15) g1 (\<lambda>_ g2.
       runs (addDSTFixtureEvent env cfg users pool seedDSTFallBackEventName seedDSTFallBackSessionTitle
        ''2026-11-01T00:30:00'' ''2026-11-01T02:30:00'' ny 2026 10 25 (8 + 31)) g2 (\<lambda>_ g3.
       runs (addLargeEvent env cfg users pool) g3 (\<lambda>_ g4.
       runs (addDemoEvent env cfg users pool) g4 (\<lambda>_. ?H (?B + 4) (length users)))))"
      by (rule runs_mono [OF 2], rule runs_mono [OF 3], assumption, rule runs_mono [OF 4], assumption, rule 5)
  qed
qed

end
