(* ===== verification/Seed_All.thy ===== *)
theory Seed_All
  imports Seed_Ok
begin

text \<open>
  cmd/seed from beginning to end: the users, the whole data set, and that \<open>Load\<close> accepts it.
\<close>

section \<open>Users\<close>

lemma draw_users:
  "gfold (\<lambda>us x. gbind (newUUIDv7 env) (\<lambda>i. gret (us @ [f i x]))) us xs g =
     Inr (us @ map2 f (map (sv_uuid env) [gn_ids g..<gn_ids g + length xs]) xs, g\<lparr>gn_ids := gn_ids g + length xs\<rparr>)"
proof (induction xs arbitrary: us g)
  case (Cons x xs)
  have "[gn_ids g..<gn_ids g + length (x # xs)] = gn_ids g # [Suc (gn_ids g)..<Suc (gn_ids g) + length xs]"
    by (simp add: upt_conv_Cons del: upt_Suc)
  moreover have "gfold (\<lambda>us x. gbind (newUUIDv7 env) (\<lambda>i. gret (us @ [f i x]))) us (x # xs) g =
     gfold (\<lambda>us x. gbind (newUUIDv7 env) (\<lambda>i. gret (us @ [f i x]))) (us @ [f (sv_uuid env (gn_ids g)) x]) xs
       (g\<lparr>gn_ids := Suc (gn_ids g)\<rparr>)"
    by (simp add: gbind_def and_then_def newUUIDv7_def gret_def)
  ultimately show ?case unfolding Cons by simp
qed (simp add: gret_def)

definition first_users :: "seed_env \<Rightarrow> nat \<Rightarrow> user list" where
  "first_users env n = map2 demo_user (map (sv_uuid env) [0..<3]) demoIdentities @
     map2 seed_user (map (sv_uuid env) [3..<n]) [1..<n - 2]"

lemma generateUsers_eq:
  assumes "3 < UserCount cfg"
  shows "generateUsers env cfg new_generator =
    Inr (first_users env (nat (UserCount cfg)), new_generator\<lparr>gn_ids := nat (UserCount cfg)\<rparr>)"
proof -
  have d: "length demoIdentities = 3" by (simp add: demoIdentities_def)
  have n: "Suc (nat (UserCount cfg) - 3) = nat (UserCount cfg) - 2" "3 + (nat (UserCount cfg) - 2 - 1) = nat (UserCount cfg)"
    using assms by linarith+
  show ?thesis
    using assms n unfolding generateUsers_def
    by (simp add: gbind_def and_then_def draw_users d first_users_def new_generator_def del: upt_Suc)
qed

lemma map_usr_map2:
  "length is = length xs \<Longrightarrow> map usr_id (map2 demo_user is xs) = is"
  "length is = length xs \<Longrightarrow> map usr_subject (map2 demo_user is xs) = map di_subject xs"
  "length is = length xs \<Longrightarrow> map usr_email (map2 demo_user is xs) = map di_email xs"
  "length is = length ns \<Longrightarrow> map usr_id (map2 seed_user is ns) = is"
  "length is = length ns \<Longrightarrow> map usr_subject (map2 seed_user is ns) = map (\<lambda>n. ''seed-user-'' @ zero_pad 5 n) ns"
  "length is = length ns \<Longrightarrow> map usr_email (map2 seed_user is ns) = map (\<lambda>n. ''user'' @ zero_pad 5 n @ ''@seed.example'') ns"
proof -
  show "length is = length xs \<Longrightarrow> map usr_id (map2 demo_user is xs) = is"
    by (rule nth_equalityI) (auto simp: demo_user_def)
  show "length is = length xs \<Longrightarrow> map usr_subject (map2 demo_user is xs) = map di_subject xs"
    by (rule nth_equalityI) (auto simp: demo_user_def)
  show "length is = length xs \<Longrightarrow> map usr_email (map2 demo_user is xs) = map di_email xs"
    by (rule nth_equalityI) (auto simp: demo_user_def)
  show "length is = length ns \<Longrightarrow> map usr_id (map2 seed_user is ns) = is"
    by (rule nth_equalityI) (auto simp: seed_user_def)
  show "length is = length ns \<Longrightarrow> map usr_subject (map2 seed_user is ns) = map (\<lambda>n. ''seed-user-'' @ zero_pad 5 n) ns"
    by (rule nth_equalityI) (auto simp: seed_user_def)
  show "length is = length ns \<Longrightarrow> map usr_email (map2 seed_user is ns) = map (\<lambda>n. ''user'' @ zero_pad 5 n @ ''@seed.example'') ns"
    by (rule nth_equalityI) (auto simp: seed_user_def)
qed

lemma first_users_maps:
  assumes "3 < n"
  shows "map usr_id (first_users env n) = map (sv_uuid env) [0..<n]"
    and "map usr_subject (first_users env n) = map di_subject demoIdentities @ map (\<lambda>k. ''seed-user-'' @ zero_pad 5 k) [1..<n - 2]"
    and "map usr_email (first_users env n) = map di_email demoIdentities @ map (\<lambda>k. ''user'' @ zero_pad 5 k @ ''@seed.example'') [1..<n - 2]"
    and "length (first_users env n) = n"
proof -
  have d: "length demoIdentities = 3" by (simp add: demoIdentities_def)
  have "[0..<n] = [0..<3] @ [3..<n]" using assms by (metis le_add_diff_inverse less_imp_le upt_add_eq_append zero_le)
  then show "map usr_id (first_users env n) = map (sv_uuid env) [0..<n]"
    using assms d map_usr_map2(1) [of "map (sv_uuid env) [0..<3]" demoIdentities] map_usr_map2(4) [of "map (sv_uuid env) [3..<n]" "[1..<n - 2]"]
    by (simp only: first_users_def map_append length_map length_upt)
  show "map usr_subject (first_users env n) = map di_subject demoIdentities @ map (\<lambda>k. ''seed-user-'' @ zero_pad 5 k) [1..<n - 2]"
    using assms d map_usr_map2(2) [of "map (sv_uuid env) [0..<3]" demoIdentities] map_usr_map2(5) [of "map (sv_uuid env) [3..<n]" "[1..<n - 2]"]
    by (simp only: first_users_def map_append length_map length_upt)
  show "map usr_email (first_users env n) = map di_email demoIdentities @ map (\<lambda>k. ''user'' @ zero_pad 5 k @ ''@seed.example'') [1..<n - 2]"
    using assms d map_usr_map2(3) [of "map (sv_uuid env) [0..<3]" demoIdentities] map_usr_map2(6) [of "map (sv_uuid env) [3..<n]" "[1..<n - 2]"]
    by (simp only: first_users_def map_append length_map length_upt)
  show "length (first_users env n) = n" using assms d by (simp add: first_users_def)
qed

lemma first_users_distinct:
  assumes "3 < n" "inj (sv_uuid env)"
  shows "distinct (map usr_id (first_users env n))" "distinct (map usr_subject (first_users env n))"
    "distinct (map usr_email (first_users env n))" "users_plain (first_users env n)"
proof -
  show "distinct (map usr_id (first_users env n))"
    unfolding first_users_maps(1) [OF assms(1)] using assms(2) by (simp add: distinct_map inj_on_subset [OF assms(2)])
  show "distinct (map usr_subject (first_users env n))"
    unfolding first_users_maps(2) [OF assms(1)] by (auto simp: demoIdentities_def distinct_map inj_on_def)
  show "distinct (map usr_email (first_users env n))"
    unfolding first_users_maps(3) [OF assms(1)] by (auto simp: demoIdentities_def distinct_map inj_on_def)
  have d: "list_all (\<lambda>e. plain_email e \<and> take 1 e \<noteq> ''s'') (map di_email demoIdentities)" by code_simp
  have u: "plain_email ''user''" "plain_email ''@seed.example''" by code_simp+
  have "\<forall>e \<in> set (map usr_email (first_users env n)). plain_email e \<and> take 1 e \<noteq> ''s''"
    unfolding first_users_maps(3) [OF assms(1)] using d u digits_plain [OF zero_pad_digits]
    by (auto simp: list_all_iff simp flip: append_Cons)
  then show "users_plain (first_users env n)" by (simp add: users_plain_def)
qed

section \<open>Loading\<close>

text \<open>Rows inserted one after the other, each into the database that holds those before it.\<close>

lemma insert_all_prefixes:
  assumes "\<And>pre r post. rows = pre @ r # post \<Longrightarrow> ins r (S pre) = Inr (S (pre @ [r]))"
  shows "insert_all ins rows (S []) = Inr (S rows)"
proof -
  have "insert_all ins post (S pre) = Inr (S rows)" if "rows = pre @ post" for pre post
    using that
  proof (induction post arbitrary: pre)
    case (Cons r post)
    then have "insert_all ins post (S (pre @ [r])) = Inr (S rows)" by simp
    then show ?case using assms [OF Cons.prems] by (simp add: and_then_def)
  qed simp
  then show ?thesis by simp
qed

lemma run_chunks:
  assumes "insert_all insert_session (map session_to_row (concat chunks)) s = Inr s'"
  shows "run_statements (map loadSessionsChunk chunks) s = (Inr (), s')"
  using assms
proof (induction chunks arbitrary: s)
  case (Cons c cs)
  then obtain s1 where 1: "insert_all insert_session (map session_to_row c) s = Inr s1"
    and 2: "insert_all insert_session (map session_to_row (concat cs)) s1 = Inr s'"
    by (auto simp: insert_all_append and_then_def split: sum.splits)
  then have "loadSessionsChunk c s = Inr s1" by (cases "c = []") (auto simp: loadSessionsChunk_def)
  then show ?case using Cons.IH [OF 2] by simp
qed simp

definition whole_dataset :: "user list \<Rightarrow> gen_state \<Rightarrow> dataset" where
  "whole_dataset users g = \<lparr>ds_users = users, ds_events = gn_events g, ds_members = gn_members g, ds_rooms = gn_rooms g,
     ds_sessions = gn_sessions g, ds_invitations = gn_invitations g\<rparr>"

lemma load_users:
  assumes "users_ok ci us"
  shows "insert_all (insert_user ci) us (s\<lparr>t_users := []\<rparr>) = Inr (s\<lparr>t_users := us\<rparr>)"
proof -
  have "insert_user ci u (s\<lparr>t_users := pre\<rparr>) = Inr (s\<lparr>t_users := pre @ [u]\<rparr>)" if "us = pre @ u # post" for pre u post
    using assms unfolding insert_user_Inr users_ok_def that by auto
  then show ?thesis using insert_all_prefixes [of us "insert_user ci" "\<lambda>pre. s\<lparr>t_users := pre\<rparr>"] by simp
qed

lemma load_events:
  assumes "events_ok es"
  shows "insert_all insert_event es (s\<lparr>t_events := []\<rparr>) = Inr (s\<lparr>t_events := es\<rparr>)"
proof -
  have "insert_event e (s\<lparr>t_events := pre\<rparr>) = Inr (s\<lparr>t_events := pre @ [e]\<rparr>)" if "es = pre @ e # post" for pre e post
    using assms unfolding insert_event_Inr events_ok_def that by auto
  then show ?thesis using insert_all_prefixes [of es insert_event "\<lambda>pre. s\<lparr>t_events := pre\<rparr>"] by simp
qed

lemma load_members:
  assumes "members_ok (user_ids s) (event_ids s) ms"
  shows "insert_all insert_member ms (s\<lparr>t_members := []\<rparr>) = Inr (s\<lparr>t_members := ms\<rparr>)"
proof -
  have "insert_member m (s\<lparr>t_members := pre\<rparr>) = Inr (s\<lparr>t_members := pre @ [m]\<rparr>)" if "ms = pre @ m # post" for pre m post
    using assms unfolding insert_member_Inr members_ok_def that by auto
  then show ?thesis using insert_all_prefixes [of ms insert_member "\<lambda>pre. s\<lparr>t_members := pre\<rparr>"] by simp
qed

lemma load_rooms:
  assumes "rooms_ok (event_ids s) rs" "\<forall>r \<in> set rs. rr_capacity r = None"
  shows "insert_all insert_room rs (s\<lparr>t_rooms := []\<rparr>) = Inr (s\<lparr>t_rooms := rs\<rparr>)"
proof -
  have "insert_room r (s\<lparr>t_rooms := pre\<rparr>) = Inr (s\<lparr>t_rooms := pre @ [r]\<rparr>)" if "rs = pre @ r # post" for pre r post
  proof -
    have "\<not> room_name_taken r rs" "rr_event_id r \<in> event_ids s" "room_check r" "rr_capacity r = None"
      using assms that by (simp_all add: rooms_ok_def)
    then have "\<not> room_name_taken r pre" using that by (auto simp: room_name_taken_def)
    then show ?thesis
      using assms(1) \<open>rr_event_id r \<in> event_ids s\<close> \<open>room_check r\<close> \<open>rr_capacity r = None\<close>
      unfolding insert_room_Inr rooms_ok_def that by (auto simp: int4_opt_def)
  qed
  then show ?thesis using insert_all_prefixes [of rs insert_room "\<lambda>pre. s\<lparr>t_rooms := pre\<rparr>"] by simp
qed

lemma load_session_rows:
  assumes "sessions_ok (user_ids s) (event_ids s) (room_ids s) (series_ids s) ss"
  shows "insert_all insert_session ss (s\<lparr>t_sessions := []\<rparr>) = Inr (s\<lparr>t_sessions := ss\<rparr>)"
proof -
  have "insert_session x (s\<lparr>t_sessions := pre\<rparr>) = Inr (s\<lparr>t_sessions := pre @ [x]\<rparr>)" if "ss = pre @ x # post" for pre x post
  proof -
    have "session_refs_ok (user_ids s) (event_ids s) (room_ids s) (series_ids s) x" "no_double_booking sr_room_id ss"
      "no_double_booking sr_speaker_id ss" "sr_id x \<notin> sr_id ` set pre"
      using assms that by (auto simp: sessions_ok_def)
    then show ?thesis
      unfolding insert_session_Inr using that by (auto simp: excluded_by_def no_double_booking_def session_refs_ok_def)
  qed
  then show ?thesis using insert_all_prefixes [of ss insert_session "\<lambda>pre. s\<lparr>t_sessions := pre\<rparr>"] by simp
qed

lemma load_invitations:
  assumes "invitations_ok ci (user_ids s) (event_ids s) is"
  shows "insert_all (insert_invitation ci) is (s\<lparr>t_invitations := []\<rparr>) = Inr (s\<lparr>t_invitations := is\<rparr>)"
proof -
  have "insert_invitation ci i (s\<lparr>t_invitations := pre\<rparr>) = Inr (s\<lparr>t_invitations := pre @ [i]\<rparr>)" if "is = pre @ i # post" for pre i post
    using assms unfolding insert_invitation_Inr invitations_ok_def that by auto
  then show ?thesis using insert_all_prefixes [of "is" "insert_invitation ci" "\<lambda>pre. s\<lparr>t_invitations := pre\<rparr>"] by simp
qed

lemma Load_whole:
  assumes "gen_ok env ci users g"
  shows "Load ci (whole_dataset users g) empty_db = (Inr (), gen_db users g)"
proof -
  note d = gen_okD(1) [OF assms, unfolded db_ok_def gen_db_simps]
  let ?U = "empty_db\<lparr>t_users := map user_to_row users\<rparr>"
  let ?E = "?U\<lparr>t_events := map event_to_row (gn_events g)\<rparr>"
  let ?M = "?E\<lparr>t_members := map member_to_row (gn_members g)\<rparr>"
  let ?R = "?M\<lparr>t_rooms := map room_to_row (gn_rooms g)\<rparr>"
  let ?S = "?R\<lparr>t_sessions := map session_to_row (gn_sessions g)\<rparr>"
  have none: "empty_db\<lparr>t_users := []\<rparr> = empty_db" "?U\<lparr>t_events := []\<rparr> = ?U" "?E\<lparr>t_members := []\<rparr> = ?E"
    "?M\<lparr>t_rooms := []\<rparr> = ?M" "?R\<lparr>t_sessions := []\<rparr> = ?R" "?S\<lparr>t_invitations := []\<rparr> = ?S"
    by (simp_all add: empty_db_def)
  have series_none: "t_series empty_db = []" by (simp add: empty_db_def)
  have "insert_all (insert_user ci) (map user_to_row users) empty_db = Inr ?U"
    using load_users [of ci _ empty_db] d unfolding none by simp
  moreover have "insert_all insert_event (map event_to_row (gn_events g)) ?U = Inr ?E"
    using load_events [of _ ?U] d unfolding none by simp
  moreover have "insert_all insert_member (map member_to_row (gn_members g)) ?E = Inr ?M"
    using load_members [of ?E] d unfolding none by simp
  moreover have "insert_all insert_room (map room_to_row (gn_rooms g)) ?M = Inr ?R"
    using load_rooms [of ?M] d assms unfolding none gen_ok_def by simp
  moreover have "insert_all insert_session (map session_to_row (gn_sessions g)) ?R = Inr ?S"
    using load_session_rows [of ?R] d unfolding none by (simp add: series_none)
  then have "run_statements (loadSessions (gn_sessions g)) ?R = (Inr (), ?S)"
    unfolding loadSessions_def by (intro run_chunks) (simp add: concat_session_chunks)
  moreover have "insert_all (insert_invitation ci) (map invitation_to_row (gn_invitations g)) ?S = Inr (gen_db users g)"
    using load_invitations [of ci ?S] d unfolding none by (simp add: gen_db_def)
  ultimately show ?thesis
    by (simp add: Load_def whole_dataset_def run_statements_append)
qed

section \<open>The data set\<close>

lemma config_users: "config_ok cfg \<Longrightarrow> 3 < UserCount cfg"
proof -
  assume c: "config_ok cfg"
  then have "0 \<le> BulkEventCount cfg + 1" "0 \<le> MaxSessionsPerEvent cfg" by (simp_all add: config_ok_def)
  then have "0 \<le> (BulkEventCount cfg + 1) * MaxSessionsPerEvent cfg" by (rule mult_nonneg_nonneg)
  then show ?thesis using c unfolding config_ok_def by linarith
qed

lemma first_users_boundary:
  assumes "3 < n" "inj (sv_uuid env)" "folds_plain ci"
  shows "boundary env ci (first_users env n) (new_generator\<lparr>gn_ids := n\<rparr>)"
proof -
  let ?us = "first_users env n" and ?g = "new_generator\<lparr>gn_ids := n\<rparr>"
  note us = first_users_distinct [OF assms(1,2)]
  have "inj_on ci (usr_email ` set ?us)"
    using us(4) assms(3) by (auto simp: users_plain_def folds_plain_def inj_on_def)
  then have "distinct (map ci (map usr_email ?us))" using us(3) by (subst distinct_map) simp
  then have "users_ok ci (map user_to_row ?us)" using us(1,2) by (simp add: users_ok_def comp_def)
  then have "db_ok ci (gen_db ?us ?g)"
    by (simp add: db_ok_def new_generator_def events_ok_def members_ok_def rooms_ok_def sessions_ok_def series_ok_def
        exceptions_ok_def invitations_ok_def audit_ok_def idempotency_ok_def no_double_booking_def)
  moreover have "used_ids ?us ?g = sv_uuid env ` {..<n}"
  proof -
    have "usr_id ` set ?us = set (map (sv_uuid env) [0..<n])"
      unfolding first_users_maps(1) [OF assms(1), symmetric] by simp
    then show ?thesis by (simp add: used_ids_def new_generator_def lessThan_atLeast0)
  qed
  ultimately show ?thesis by (simp add: boundary_def gen_ok_def busy_exact_def new_generator_def)
qed

lemma generate_holds:
  assumes env: "seed_env_ok env" and ci: "folds_plain ci" and c: "config_ok cfg"
  obtains g where "GenerateDataset env cfg = Inr (whole_dataset (first_users env (nat (UserCount cfg))) g)"
    and "held_upto env ci (first_users env (nat (UserCount cfg))) cfg (nat (BulkEventCount cfg) + 4) (nat (UserCount cfg)) g"
    and "\<exists>pool g0. set pool = set (map usr_id (first_users env (nat (UserCount cfg)))) \<and> gn_events g0 = [] \<and> gn_members g0 = [] \<and>
      generate_events env cfg (first_users env (nat (UserCount cfg))) pool g0 = Inr ((), g)"
proof -
  let ?n = "nat (UserCount cfg)"
  let ?us = "first_users env ?n" and ?g = "new_generator\<lparr>gn_ids := ?n\<rparr>"
  have n: "3 < ?n" using config_users [OF c] by simp
  have inj: "inj (sv_uuid env)" and src: "source_ok env" using env by (simp_all add: seed_env_ok_def)
  note us = first_users_distinct [OF n inj] first_users_maps(4) [OF n, of env]
  let ?Q = "\<lambda>(_ :: unit) g. held_upto env ci ?us cfg (nat (BulkEventCount cfg) + 4) ?n g"
  have "runs (Shuffle env (map usr_id ?us)) ?g (\<lambda>pool g0. set pool = set (map usr_id ?us) \<and> gn_events g0 = [] \<and> gn_members g0 = [] \<and>
      runs (generate_events env cfg ?us pool) g0 ?Q)"
  proof (rule runs_Shuffle [OF src])
    fix pool
    assume "mset pool = mset (map usr_id ?us)"
    then have pool: "set pool = set (map usr_id ?us)" by (rule mset_eq_setD)
    have "given env ci cfg ?us pool"
      using env ci us n c pool by (simp add: given_def config_ok_def)
    then have "runs (generate_events env cfg ?us pool) (?g\<lparr>gn_calls := Suc (gn_calls ?g)\<rparr>)
        (\<lambda>_ g. held_upto env ci ?us cfg (nat (BulkEventCount cfg) + 4) (length ?us) g)"
      by (rule generate_events_holds [OF _ c us(5)])
        (use first_users_boundary [OF n inj ci] in \<open>simp add: held_upto_def, simp add: new_generator_def\<close>)
    then show "set pool = set (map usr_id ?us) \<and> gn_events (?g\<lparr>gn_calls := Suc (gn_calls ?g)\<rparr>) = [] \<and>
        gn_members (?g\<lparr>gn_calls := Suc (gn_calls ?g)\<rparr>) = [] \<and>
        runs (generate_events env cfg ?us pool) (?g\<lparr>gn_calls := Suc (gn_calls ?g)\<rparr>) ?Q"
      using pool us(5) by (simp add: new_generator_def)
  qed
  then obtain pool g0 where "Shuffle env (map usr_id ?us) ?g = Inr (pool, g0) \<and> set pool = set (map usr_id ?us) \<and>
    gn_events g0 = [] \<and> gn_members g0 = [] \<and> runs (generate_events env cfg ?us pool) g0 ?Q"
    unfolding runs_def [of "Shuffle env _"] by (cases "Shuffle env (map usr_id ?us) ?g") auto
  then have sh: "Shuffle env (map usr_id ?us) ?g = Inr (pool, g0)" "set pool = set (map usr_id ?us)"
    "gn_events g0 = []" "gn_members g0 = []" "runs (generate_events env cfg ?us pool) g0 ?Q"
    by simp_all
  from sh(5) obtain g where g: "generate_events env cfg ?us pool g0 = Inr ((), g)" "?Q () g"
    by (auto simp: runs_def split: sum.splits)
  have "GenerateDataset env cfg = Inr (whole_dataset ?us g)"
    using generateUsers_eq [of cfg env] config_users [OF c] sh(1) g(1)
    by (simp add: GenerateDataset_def gbind_def and_then_def gret_def whole_dataset_def)
  then show thesis using that g sh by blast
qed

text \<open>What \<open>Load\<close> makes of it.\<close>

definition dataset_loaded :: "seed_config \<Rightarrow> (string \<Rightarrow> string) \<Rightarrow> db \<Rightarrow> bool" where
  "dataset_loaded cfg ci s = (db_ok ci s \<and> admins_ok s \<and> int (length (t_users s)) = UserCount cfg \<and>
     int (length (t_events s)) = BulkEventCount cfg + 4 \<and>
     int (length (t_invitations s)) = (BulkEventCount cfg + 4) * InvitationsPerEvent cfg)"

lemma held_loaded:
  assumes "held_upto env ci us cfg (nat (BulkEventCount cfg) + 4) k g" "config_ok cfg" "length us = nat (UserCount cfg)"
  shows "dataset_loaded cfg ci (gen_db us g)"
proof -
  have b: "boundary env ci us g" "length (gn_events g) = nat (BulkEventCount cfg) + 4"
    "length (gn_invitations g) = (nat (BulkEventCount cfg) + 4) * nat (InvitationsPerEvent cfg)"
    using assms(1) by (simp_all add: held_upto_def)
  have "has_admin (gen_db us g) (ev_id e)" if "e \<in> set (gn_events g)" for e
    using b(1) that by (force simp: boundary_def has_role_def has_admin_def)
  then have "admins_ok (gen_db us g)" by (simp add: admins_ok_def)
  moreover have "db_ok ci (gen_db us g)" by (rule gen_okD(1) [of env]) (use b(1) in \<open>simp add: boundary_def\<close>)
  ultimately show ?thesis
    using b assms(2,3) config_users [OF assms(2)] by (simp add: dataset_loaded_def config_ok_def)
qed

end
