(* ===== verification/Seed_Check.thy ===== *)
theory Seed_Check
  imports Seed_All
begin

text \<open>
  The self-check at the end of cmd/seed. A second, weaker way to reason about the generator:
  \<open>ends m g Q\<close> says what holds if \<open>m\<close> returns. It follows the rows that are only ever added, the
  names of the events and the demo identities' memberships, which the self-check looks up.
\<close>

section \<open>Steps that only add rows\<close>

definition ends :: "'a gen \<Rightarrow> gen_state \<Rightarrow> ('a \<Rightarrow> gen_state \<Rightarrow> bool) \<Rightarrow> bool" where
  "ends m g Q = (case m g of Inl e \<Rightarrow> True | Inr (a, g') \<Rightarrow> Q a g')"

named_theorems quiet_steps

text \<open>\<open>quiet m\<close>: \<open>m\<close> leaves the events alone and loses no membership.\<close>

definition quietly :: "'a gen \<Rightarrow> bool" where
  "quietly m = (\<forall>g. ends m g (\<lambda>_ g'. gn_events g' = gn_events g \<and> set (gn_members g) \<subseteq> set (gn_members g')))"

lemma ends_bind: "ends (gbind m f) g Q = ends m g (\<lambda>a g'. ends (f a) g' Q)"
  by (auto simp: ends_def gbind_def and_then_def split: sum.splits)

lemma ends_mono: "ends m g Q \<Longrightarrow> (\<And>a g'. Q a g' \<Longrightarrow> R a g') \<Longrightarrow> ends m g R"
  by (auto simp: ends_def split: sum.splits)

lemma ends_quietly:
  "quietly m \<Longrightarrow> (\<And>a g'. gn_events g' = gn_events g \<Longrightarrow> set (gn_members g) \<subseteq> set (gn_members g') \<Longrightarrow> Q a g') \<Longrightarrow> ends m g Q"
  unfolding quietly_def by (elim allE, erule ends_mono) simp

lemma quietly_bind [quiet_steps]:
  assumes "quietly m" "\<And>a. quietly (f a)"
  shows "quietly (gbind m f)"
  unfolding quietly_def ends_bind
proof
  fix g
  show "ends m g (\<lambda>a g'. ends (f a) g' (\<lambda>_ g''. gn_events g'' = gn_events g \<and> set (gn_members g) \<subseteq> set (gn_members g'')))"
  proof (rule ends_quietly [OF assms(1)])
    fix a and g' :: gen_state
    assume 1: "gn_events g' = gn_events g" "set (gn_members g) \<subseteq> set (gn_members g')"
    show "ends (f a) g' (\<lambda>_ g''. gn_events g'' = gn_events g \<and> set (gn_members g) \<subseteq> set (gn_members g''))"
      by (rule ends_quietly [OF assms(2)]) (use 1 in auto)
  qed
qed

lemma quietly_fold [quiet_steps]: "(\<And>b x. quietly (f b x)) \<Longrightarrow> quietly (gfold f b xs)"
proof (induction xs arbitrary: b)
  case Nil
  show ?case by (simp add: quietly_def ends_def gret_def)
next
  case (Cons x xs)
  then show ?case by (simp add: quietly_bind)
qed

lemma quietly_simple [quiet_steps]:
  "quietly (gret a)" "quietly (gpanic e)" "quietly (newUUIDv7 env)" "quietly (Intn env n)" "quietly (Perm env k)"
  "quietly (Shuffle env xs)" "quietly (pickDistinctUsers env users n ex)" "quietly (pickSpeaker cs st en)" "quietly (reserve u st en)"
  by (auto simp: quietly_def ends_def gret_def gpanic_def newUUIDv7_def Intn_def Perm_def Shuffle_def pickDistinctUsers_def
      pickSpeaker_def reserve_def gput_def Let_def split: option.splits)

lemma quietly_put [quiet_steps]:
  "(\<And>g. gn_events (f g) = gn_events g \<and> set (gn_members g) \<subseteq> set (gn_members (f g))) \<Longrightarrow> quietly (gput f)"
  by (simp add: quietly_def ends_def gput_def)

lemma quietly_if [quiet_steps]: "(c \<Longrightarrow> quietly m) \<Longrightarrow> (\<not> c \<Longrightarrow> quietly n) \<Longrightarrow> quietly (if c then m else n)"
  by simp

lemma quietly_sum [quiet_steps]: "(\<And>e. quietly (f e)) \<Longrightarrow> (\<And>x. quietly (h x)) \<Longrightarrow> quietly (case r of Inl e \<Rightarrow> f e | Inr x \<Rightarrow> h x)"
  by (simp split: sum.split)

lemma quietly_here: "(\<And>h. quietly (m h)) \<Longrightarrow> quietly (\<lambda>g. m (k g) g)"
  by (auto simp: quietly_def ends_def)

lemma quietly_members [quiet_steps]:
  "quietly (addMember env ev u role)" "quietly (addRole env users ev n role ids)"
  "quietly (addStandardMembers env users ev demo)"
proof -
  show m: "quietly (addMember env ev u role)" for ev u role
    unfolding addMember_def by (intro quiet_steps) auto
  show r: "quietly (addRole env users ev n role ids)" for n role ids
    unfolding addRole_def by (intro quiet_steps m)
  show "quietly (addStandardMembers env users ev demo)"
    unfolding addStandardMembers_def Let_def by (intro quiet_steps m r)
qed

lemma quietly_rows [quiet_steps]:
  "quietly (addRooms env ev n)" "quietly (addSession env pool ev rm mids title st en)"
  "quietly (addGenericSessions env pool ev rm mids st n ttl)" "quietly (distributeSessions env pool e rids mids n ttl)"
  "quietly (addInvitation env ev u email)" "quietly (addInvitations env cfg users ev)"
proof -
  show "quietly (addRooms env ev n)" unfolding addRooms_def by (intro quiet_steps) auto
  show s: "quietly (addSession env pool ev rm mids title st en)" for ev rm title st en
    unfolding addSession_def pickCandidatesFor_def by (intro quiet_steps) auto
  show gs: "quietly (addGenericSessions env pool ev rm mids st n ttl)" for ev rm st n
    unfolding addGenericSessions_def Let_def by (intro quiet_steps s)
  show "quietly (distributeSessions env pool e rids mids n ttl)"
    unfolding distributeSessions_def Let_def by (intro quiet_steps) (auto intro: gs)
  show i: "quietly (addInvitation env ev u email)" for ev u email
    unfolding addInvitation_def pickRole_def by (intro quiet_steps) auto
  show "quietly (addInvitations env cfg users ev)"
    unfolding addInvitations_def Let_def by (intro quiet_steps i quietly_here [where k = gn_event_seq and m = "\<lambda>q. addInvitation env ev None (external_email q _)"])
qed

lemma quietly_zone [quiet_steps]: "quietly (mustLoadLocation env name)"
  by (auto simp: mustLoadLocation_def intro: quiet_steps split: option.splits)

section \<open>Events by name\<close>

definition adds_event :: "string \<Rightarrow> 'a gen \<Rightarrow> bool" where
  "adds_event name m = (\<forall>g. ends m g (\<lambda>_ g'. \<exists>e. ev_name e = name \<and> gn_events g' = gn_events g @ [e]))"

lemma adds_newEvent: "(\<And>e. quietly (K e)) \<Longrightarrow> adds_event name (gbind (newEvent env name tz st en) K)"
proof -
  assume q: "\<And>e. quietly (K e)"
  have "ends (newEvent env name tz st en) g (\<lambda>e g'. ev_name e = name \<and> gn_events g' = gn_events g @ [e])" for g
    by (simp add: ends_def newEvent_def Let_def gbind_def and_then_def gput_def newUUIDv7_def gret_def)
  then have "ends (newEvent env name tz st en) g (\<lambda>e g1. ends (K e) g1 (\<lambda>_ g'. \<exists>e. ev_name e = name \<and> gn_events g' = gn_events g @ [e]))" for g
  proof (rule ends_mono)
    fix e and g1 :: gen_state
    assume "ev_name e = name \<and> gn_events g1 = gn_events g @ [e]"
    then show "ends (K e) g1 (\<lambda>_ g'. \<exists>e. ev_name e = name \<and> gn_events g' = gn_events g @ [e])"
      by (intro ends_quietly [OF q]) auto
  qed
  then show ?thesis by (simp add: adds_event_def ends_bind)
qed

lemma adds_after:
  assumes "quietly m" "\<And>a. adds_event name (f a)"
  shows "adds_event name (gbind m f)"
  unfolding adds_event_def ends_bind
proof
  fix g
  show "ends m g (\<lambda>a g'. ends (f a) g' (\<lambda>_ g''. \<exists>e. ev_name e = name \<and> gn_events g'' = gn_events g @ [e]))"
  proof (rule ends_quietly [OF assms(1)])
    fix a and g' :: gen_state
    assume e: "gn_events g' = gn_events g"
    have "ends (f a) g' (\<lambda>_ g''. \<exists>e. ev_name e = name \<and> gn_events g'' = gn_events g' @ [e])"
      using assms(2) unfolding adds_event_def by (rule spec)
    then show "ends (f a) g' (\<lambda>_ g''. \<exists>e. ev_name e = name \<and> gn_events g'' = gn_events g @ [e])"
      unfolding e .
  qed
qed

lemma events_by_name:
  "adds_event (''Seed Bulk Event '' @ zero_pad 3 (i + 1)) (addBulkEvent env cfg users pool i)"
  "adds_event name (addDSTFixtureEvent env cfg users pool name title a b loc y mo d days)"
  "adds_event seedLargeEventName (addLargeEvent env cfg users pool)"
  unfolding addBulkEvent_def addDSTFixtureEvent_def addLargeEvent_def Let_def
  by (rule adds_newEvent adds_after quiet_steps)+

definition adds_others :: "'a gen \<Rightarrow> bool" where
  "adds_others m = (\<forall>g. ends m g (\<lambda>_ g'. \<exists>es. gn_events g' = gn_events g @ es \<and> (\<forall>e \<in> set es. ev_name e \<noteq> seedDemoEventName)))"

lemma others_ret: "adds_others (gret a)"
  by (simp add: adds_others_def ends_def gret_def)

lemma others_event: "adds_event name m \<Longrightarrow> name \<noteq> seedDemoEventName \<Longrightarrow> adds_others m"
  unfolding adds_others_def adds_event_def by (intro allI, elim allE, erule ends_mono) auto

lemma others_quiet: "quietly m \<Longrightarrow> adds_others m"
  unfolding adds_others_def by (intro allI, erule ends_quietly) auto

lemma others_bind:
  assumes "adds_others m" "\<And>a. adds_others (f a)"
  shows "adds_others (gbind m f)"
  unfolding adds_others_def ends_bind
proof
  fix g
  have "ends m g (\<lambda>_ g1. \<exists>es. gn_events g1 = gn_events g @ es \<and> (\<forall>e \<in> set es. ev_name e \<noteq> seedDemoEventName))"
    using assms(1) unfolding adds_others_def by (rule spec)
  then show "ends m g (\<lambda>a g1. ends (f a) g1 (\<lambda>_ g'. \<exists>es. gn_events g' = gn_events g @ es \<and> (\<forall>e \<in> set es. ev_name e \<noteq> seedDemoEventName)))"
  proof (rule ends_mono)
    fix a and g1 :: gen_state
    assume "\<exists>es. gn_events g1 = gn_events g @ es \<and> (\<forall>e \<in> set es. ev_name e \<noteq> seedDemoEventName)"
    then obtain es where es: "gn_events g1 = gn_events g @ es" "\<forall>e \<in> set es. ev_name e \<noteq> seedDemoEventName" by blast
    have "ends (f a) g1 (\<lambda>_ g'. \<exists>es. gn_events g' = gn_events g1 @ es \<and> (\<forall>e \<in> set es. ev_name e \<noteq> seedDemoEventName))"
      using assms(2) unfolding adds_others_def by (rule spec)
    then show "ends (f a) g1 (\<lambda>_ g'. \<exists>es. gn_events g' = gn_events g @ es \<and> (\<forall>e \<in> set es. ev_name e \<noteq> seedDemoEventName))"
    proof (rule ends_mono)
      fix b and g' :: gen_state
      assume "\<exists>fs. gn_events g' = gn_events g1 @ fs \<and> (\<forall>e \<in> set fs. ev_name e \<noteq> seedDemoEventName)"
      then obtain fs where "gn_events g' = gn_events g1 @ fs" "\<forall>e \<in> set fs. ev_name e \<noteq> seedDemoEventName" by blast
      then show "\<exists>es. gn_events g' = gn_events g @ es \<and> (\<forall>e \<in> set es. ev_name e \<noteq> seedDemoEventName)"
        using es by (intro exI [of _ "es @ fs"]) auto
    qed
  qed
qed

lemma others_fold: "(\<And>b x. adds_others (f b x)) \<Longrightarrow> adds_others (gfold f b xs)"
  by (induction xs arbitrary: b) (simp_all add: others_ret others_bind)

section \<open>The demo identities on the demo event\<close>

definition demo_on :: "user list \<Rightarrow> uuid \<Rightarrow> demoIdentity list \<Rightarrow> gen_state \<Rightarrow> bool" where
  "demo_on users ev demo g = (\<forall>d \<in> set demo. \<exists>m \<in> set (gn_members g).
     mb_event_id m = ev \<and> mb_user_id m = demoUserID users (di_subject d) \<and> mb_role m = di_role d)"

lemma demo_on_mono: "demo_on users ev demo g \<Longrightarrow> set (gn_members g) \<subseteq> set (gn_members g') \<Longrightarrow> demo_on users ev demo g'"
  unfolding demo_on_def by blast

lemma demo_on_addStandardMembers:
  "ends (addStandardMembers env users ev demo) g (\<lambda>_ g'. gn_events g' = gn_events g \<and> demo_on users ev demo g')"
proof -
  let ?add = "\<lambda>ids d. let i = demoUserID users (di_subject d) in gbind (addMember env ev i (di_role d)) (\<lambda>_. gret (ids @ [i]))"
  have q: "quietly (gfold ?add ids demo)" for ids demo unfolding Let_def by (intro quiet_steps)
  have fold: "ends (gfold ?add ids demo) g (\<lambda>_ g'. gn_events g' = gn_events g \<and> demo_on users ev demo g')" for ids
  proof (induction demo arbitrary: ids g)
    case Nil
    show ?case by (simp add: ends_def gret_def demo_on_def)
  next
    case (Cons d ds)
    have "ends (?add ids d) g (\<lambda>_ g1. gn_events g1 = gn_events g \<and> demo_on users ev [d] g1)"
      by (simp add: ends_def Let_def addMember_def gbind_def and_then_def newUUIDv7_def gput_def gret_def demo_on_def)
    then show ?case
      unfolding gfold.simps ends_bind
    proof (rule ends_mono)
      fix ids' g1
      assume 1: "gn_events g1 = gn_events g \<and> demo_on users ev [d] g1"
      have "ends (gfold ?add ids' ds) g1 (\<lambda>_ g'. gn_events g' = gn_events g \<and> demo_on users ev [d] g')"
        by (rule ends_quietly [OF q]) (use 1 demo_on_mono in auto)
      then show "ends (gfold ?add ids' ds) g1 (\<lambda>_ g'. gn_events g' = gn_events g \<and> demo_on users ev (d # ds) g')"
        using Cons [of ids' g1] by (auto simp: ends_def demo_on_def split: sum.splits)
    qed
  qed
  show ?thesis
    unfolding addStandardMembers_def ends_bind [of "gfold _ _ _"]
  proof (rule ends_mono [OF fold])
    fix ids g1
    assume 1: "gn_events g1 = gn_events g \<and> demo_on users ev demo g1"
    show "ends (gbind (Intn env 2) (\<lambda>a. gbind (addRole env users ev (1 + a) ''admin'' ids) (\<lambda>ids.
      gbind (Intn env 4) (\<lambda>c. gbind (addRole env users ev (2 + c) ''contributor'' ids) (\<lambda>ids.
      gbind (Intn env 31) (\<lambda>t. addRole env users ev (10 + t) ''attendee'' ids)))))) g1
      (\<lambda>_ g'. gn_events g' = gn_events g \<and> demo_on users ev demo g')"
      by (rule ends_quietly, intro quiet_steps) (use 1 demo_on_mono in auto)
  qed
qed

lemma demo_on_addDemoEvent:
  "ends (addDemoEvent env cfg users pool) g (\<lambda>_ g'. \<exists>e. gn_events g' = gn_events g @ [e] \<and> ev_name e = seedDemoEventName \<and>
     demo_on users (ev_id e) demoIdentities g')"
  unfolding addDemoEvent_def Let_def ends_bind [of "mustLoadLocation _ _"]
proof (rule ends_quietly [OF quietly_zone])
  fix loc and g1 :: gen_state
  assume 1: "gn_events g1 = gn_events g"
  let ?rest = "\<lambda>ev mids. gbind (Intn env (MaxRoomsPerEvent cfg - MinRoomsPerEvent cfg + 1)) (\<lambda>r.
     gbind (addRooms env (ev_id ev) (MinRoomsPerEvent cfg + r)) (\<lambda>roomIDs.
     gbind (Intn env (MaxSessionsPerEvent cfg - MinSessionsPerEvent cfg + 1)) (\<lambda>x.
     gbind (distributeSessions env pool ev roomIDs mids (MinSessionsPerEvent cfg + x) seedDemoEventName) (\<lambda>_.
     addInvitations env cfg users (ev_id ev)))))"
  let ?new = "newEvent env seedDemoEventName ''Asia/Colombo'' (date_in loc 2026 9 1) (add_days loc (date_in loc 2026 9 1) 14)"
  let ?Q = "\<lambda>_ g'. \<exists>e. gn_events g' = gn_events g @ [e] \<and> ev_name e = seedDemoEventName \<and> demo_on users (ev_id e) demoIdentities g'"
  have "ends ?new g1 (\<lambda>e g2. ev_name e = seedDemoEventName \<and> gn_events g2 = gn_events g1 @ [e])"
    by (simp add: ends_def newEvent_def Let_def gbind_def and_then_def gput_def newUUIDv7_def gret_def)
  then show "ends (gbind ?new (\<lambda>ev. gbind (addStandardMembers env users (ev_id ev) demoIdentities) (?rest ev))) g1 ?Q"
    unfolding ends_bind [of ?new]
  proof (rule ends_mono)
    fix ev and g2 :: gen_state
    assume 2: "ev_name ev = seedDemoEventName \<and> gn_events g2 = gn_events g1 @ [ev]"
    show "ends (gbind (addStandardMembers env users (ev_id ev) demoIdentities) (?rest ev)) g2 ?Q"
      unfolding ends_bind [of "addStandardMembers _ _ _ _"]
    proof (rule ends_mono [OF demo_on_addStandardMembers])
      fix mids and g3 :: gen_state
      assume 3: "gn_events g3 = gn_events g2 \<and> demo_on users (ev_id ev) demoIdentities g3"
      show "ends (?rest ev mids) g3 ?Q"
        by (rule ends_quietly, intro quiet_steps) (use 1 2 3 demo_on_mono in auto)
    qed
  qed
qed

lemma demo_on_generate_events:
  "ends (generate_events env cfg users pool) g (\<lambda>_ g'. \<exists>es e. gn_events g' = gn_events g @ es @ [e] \<and>
     (\<forall>x \<in> set es. ev_name x \<noteq> seedDemoEventName) \<and> ev_name e = seedDemoEventName \<and> demo_on users (ev_id e) demoIdentities g')"
proof -
  let ?dst = "\<lambda>name title a b y mo d days. gbind (mustLoadLocation env ''America/New_York'')
    (\<lambda>ny. addDSTFixtureEvent env cfg users pool name title a b ny y mo d days)"
  have assoc: "gbind (gbind m f) h = gbind m (\<lambda>x. gbind (f x) h)" for m :: "'a gen" and f :: "'a \<Rightarrow> 'b gen" and h :: "'b \<Rightarrow> 'c gen"
    by (rule ext) (auto simp: gbind_def and_then_def split: sum.splits)
  let ?before = "gbind (gfold (\<lambda>_ i. addBulkEvent env cfg users pool i) () [0..<nat (BulkEventCount cfg)]) (\<lambda>_.
     gbind (?dst seedDSTSpringForwardEventName seedDSTSpringForwardSessionTitle ''2026-03-08T01:30:00'' ''2026-03-08T03:30:00'' 2026 3 1 15) (\<lambda>_.
     gbind (?dst seedDSTFallBackEventName seedDSTFallBackSessionTitle ''2026-11-01T00:30:00'' ''2026-11-01T02:30:00'' 2026 10 25 (8 + 31)) (\<lambda>_.
     addLargeEvent env cfg users pool)))"
  have names: "''Seed Bulk Event '' @ zero_pad 3 (i + 1) \<noteq> seedDemoEventName" "seedDSTSpringForwardEventName \<noteq> seedDemoEventName"
    "seedDSTFallBackEventName \<noteq> seedDemoEventName" "seedLargeEventName \<noteq> seedDemoEventName" for i
    by (simp_all add: seedDemoEventName_def seedDSTSpringForwardEventName_def seedDSTFallBackEventName_def seedLargeEventName_def)
  have before: "adds_others ?before"
    by (intro others_bind others_fold others_quiet [OF quietly_zone]
      others_event [OF events_by_name(1) names(1)] others_event [OF events_by_name(2) names(2)]
      others_event [OF events_by_name(2) names(3)] others_event [OF events_by_name(3) names(4)])
  have split: "generate_events env cfg users pool = gbind ?before (\<lambda>_. addDemoEvent env cfg users pool)"
    unfolding generate_events_def assoc by simp
  show ?thesis
    unfolding split ends_bind [of ?before]
  proof (rule ends_mono [OF before [unfolded adds_others_def, rule_format]])
    fix u and g1 :: gen_state
    assume "\<exists>es. gn_events g1 = gn_events g @ es \<and> (\<forall>e \<in> set es. ev_name e \<noteq> seedDemoEventName)"
    then obtain es where es: "gn_events g1 = gn_events g @ es" "\<forall>e \<in> set es. ev_name e \<noteq> seedDemoEventName" by blast
    show "ends (addDemoEvent env cfg users pool) g1 (\<lambda>_ g'. \<exists>es e. gn_events g' = gn_events g @ es @ [e] \<and>
     (\<forall>x \<in> set es. ev_name x \<noteq> seedDemoEventName) \<and> ev_name e = seedDemoEventName \<and> demo_on users (ev_id e) demoIdentities g')"
      by (rule ends_mono [OF demo_on_addDemoEvent]) (use es in auto)
  qed
qed

section \<open>The self-check passes\<close>

text \<open>The issuer answers each demo client with a token for its subject.\<close>

definition issuer_ok :: "env \<Rightarrow> (string \<Rightarrow> (nat \<times> string) option) \<Rightarrow> bool" where
  "issuer_ok env post = list_all (\<lambda>d. case mintDemoToken post (di_client_id d) of
       None \<Rightarrow> False
     | Some token \<Rightarrow> (case Verify env token of Inl e \<Rightarrow> False | Inr c \<Rightarrow> cl_subject c = di_subject d)) demoIdentities"

lemma first_users_demo:
  "first_users env n = map2 demo_user [sv_uuid env 0, sv_uuid env 1, sv_uuid env 2] demoIdentities @
     map2 seed_user (map (sv_uuid env) [3..<n]) [1..<n - 2]"
proof -
  have "[0..<3] = [0, 1, 2]" by code_simp
  then show ?thesis by (simp add: first_users_def)
qed

lemma demo_rows_found:
  assumes "d \<in> set demoIdentities"
  obtains u where "find (\<lambda>u. usr_subject u = di_subject d) (map user_to_row (first_users env n)) = Some u"
    "usr_email u = di_email d" "usr_name u = di_name d" "usr_id u = demoUserID (first_users env n) (di_subject d)"
  using assms unfolding first_users_demo
  by (auto simp: demoIdentities_def demo_user_def user_to_row_def demoUserID_def)

lemma first_row: "xs \<noteq> [] \<Longrightarrow> \<forall>r \<in> set xs. r = w \<Longrightarrow> (case xs of [] \<Rightarrow> False | r # _ \<Rightarrow> r = w)"
  by (cases xs) auto

lemma self_check_passes:
  assumes us: "us = first_users sv n" and ok: "db_ok ci (gen_db us g)"
    and ev: "gn_events g = es @ [e]" "\<forall>x \<in> set es. ev_name x \<noteq> seedDemoEventName" "ev_name e = seedDemoEventName"
    and on: "demo_on us (ev_id e) demoIdentities g" and issuer: "issuer_ok env post"
  shows "selfCheckDemoIdentities env post (gen_db us g)"
proof -
  have "check_identity env post (gen_db us g) d" if d: "d \<in> set demoIdentities" for d
  proof -
    obtain token c where t: "mintDemoToken post (di_client_id d) = Some token" "Verify env token = Inr c" "cl_subject c = di_subject d"
    proof -
      have "case mintDemoToken post (di_client_id d) of None \<Rightarrow> False
        | Some token \<Rightarrow> (case Verify env token of Inl e \<Rightarrow> False | Inr c \<Rightarrow> cl_subject c = di_subject d)"
        using issuer d unfolding issuer_ok_def list_all_iff by (rule bspec)
      then show ?thesis using that by (cases "mintDemoToken post (di_client_id d)") (auto split: sum.splits)
    qed
    obtain u where u: "find (\<lambda>u. usr_subject u = di_subject d) (map user_to_row us) = Some u"
      "usr_email u = di_email d" "usr_name u = di_name d" "usr_id u = demoUserID us (di_subject d)"
      using demo_rows_found [OF d] unfolding us by blast
    let ?rows = "[mr_role em. em \<leftarrow> map member_to_row (gn_members g), x \<leftarrow> map event_to_row (gn_events g),
      er_id x = mr_event_id em \<and> mr_user_id em = usr_id u \<and> er_name x = seedDemoEventName]"
    have name: "er_name (event_to_row x) = ev_name x" for x by (simp add: event_to_row_def)
    obtain m where m: "m \<in> set (gn_members g)" "mb_event_id m = ev_id e" "mb_user_id m = usr_id u" "mb_role m = di_role d"
      using on d u(4) by (auto simp: demo_on_def)
    moreover have "e \<in> set (gn_events g)" using ev(1) by simp
    ultimately have row: "di_role d \<in> set ?rows"
      using ev(3) by (auto simp: name intro!: bexI [of _ m] bexI [of _ e])
    have "\<forall>r \<in> set ?rows. r = di_role d"
    proof
      fix r
      assume "r \<in> set ?rows"
      then obtain m' where m': "m' \<in> set (gn_members g)" "mb_role m' = r" "mb_user_id m' = usr_id u" "mb_event_id m' = ev_id e"
        using ev by (auto simp: name)
      have "distinct (map (\<lambda>m. (mb_event_id m, mb_user_id m)) (gn_members g))"
        using db_okD(3) [OF ok] by (simp add: members_ok_def comp_def)
      then have "inj_on (\<lambda>m. (mb_event_id m, mb_user_id m)) (set (gn_members g))" by (simp add: distinct_map)
      then have "m' = m" by (rule inj_onD) (use m m' in simp_all)
      then show "r = di_role d" using m m' by simp
    qed
    with row have "case ?rows of [] \<Rightarrow> False | role # _ \<Rightarrow> role = di_role d" by (intro first_row) auto
    then show ?thesis unfolding check_identity_def by (simp only: t u option.case sum.case gen_db_simps simp_thms if_False)
  qed
  then show ?thesis by (simp add: selfCheckDemoIdentities_def list_all_iff)
qed

lemma default_config: "config_ok DefaultConfig" "UserCount DefaultConfig = 5000" "BulkEventCount DefaultConfig = 46"
  by (simp_all add: config_ok_def DefaultConfig_def four_fifths_def go_division)

lemma seed_run_ok:
  assumes mode: "mode \<noteq> ''production''" and s: "db_ok (en_ci env) s" "t_series s = []"
    and sv: "seed_env_ok sv" "folds_plain (en_ci env)" and issuer: "issuer_ok env post"
  obtains ds s' where "seed_run mode env sv post s = (Inr ds, s')" "dataset_loaded DefaultConfig (en_ci env) s'"
proof -
  let ?us = "first_users sv (nat (UserCount DefaultConfig))"
  obtain g pool g0 where g: "GenerateDataset sv DefaultConfig = Inr (whole_dataset ?us g)"
    "held_upto sv (en_ci env) ?us DefaultConfig (nat (BulkEventCount DefaultConfig) + 4) (nat (UserCount DefaultConfig)) g"
    "generate_events sv DefaultConfig ?us pool g0 = Inr ((), g)" "gn_events g0 = []"
    using generate_holds [OF sv default_config(1)] by metis
  have ok: "gen_ok sv (en_ci env) ?us g" using g(2) by (simp add: held_upto_def boundary_def)
  have "length ?us = nat (UserCount DefaultConfig)" by (rule first_users_maps(4)) (simp add: default_config)
  then have loaded: "dataset_loaded DefaultConfig (en_ci env) (gen_db ?us g)"
    using held_loaded [OF g(2) default_config(1)] by blast
  have "ends (generate_events sv DefaultConfig ?us pool) g0 (\<lambda>_ g'. \<exists>es e. gn_events g' = gn_events g0 @ es @ [e] \<and>
     (\<forall>x \<in> set es. ev_name x \<noteq> seedDemoEventName) \<and> ev_name e = seedDemoEventName \<and> demo_on ?us (ev_id e) demoIdentities g')"
    by (rule demo_on_generate_events)
  then obtain es e where "gn_events g = es @ [e]" "\<forall>x \<in> set es. ev_name x \<noteq> seedDemoEventName" "ev_name e = seedDemoEventName"
    "demo_on ?us (ev_id e) demoIdentities g"
    unfolding ends_def g(3,4) by auto
  then have "selfCheckDemoIdentities env post (gen_db ?us g)"
    using self_check_passes [OF refl gen_okD(1) [OF ok] _ _ _ _ issuer] by blast
  then have "seed_run mode env sv post s = (Inr (whole_dataset ?us g), gen_db ?us g)"
    using mode Truncate_plain [OF s] g(1) Load_whole [OF ok] by (simp add: seed_run_def)
  then show thesis using that loaded by blast
qed

end
