(* ===== verification/Seed_Overlap.thy ===== *)
theory Seed_Overlap
  imports Seed_Check
begin

text \<open>
  The overlap check of cmd/seed/generate.go against what it stands for: the EXCLUDE constraints of
  the sessions table. Comparing neighbours in the order of their starts is enough.
\<close>

definition sorts_by_start :: "(session list \<Rightarrow> session list) \<Rightarrow> bool" where
  "sorts_by_start srt = (\<forall>xs. mset (srt xs) = mset xs \<and> sorted (map se_starts_at (srt xs)))"

definition proper :: "session list \<Rightarrow> bool" where
  "proper ss = (distinct (map se_id ss) \<and> (\<forall>x \<in> set ss. se_starts_at x < se_ends_at x \<and> whole (se_starts_at x) \<and> whole (se_ends_at x)))"

lemma neighbours_enough:
  assumes "\<forall>x \<in> set xs. se_starts_at x < se_ends_at x"
    and "\<And>i. 1 \<le> i \<Longrightarrow> i < length xs \<Longrightarrow> se_ends_at (xs ! (i - 1)) \<le> se_starts_at (xs ! i)"
    and "i < j" "j < length xs"
  shows "se_ends_at (xs ! i) \<le> se_starts_at (xs ! j)"
  using assms(3,4)
proof (induction j)
  case (Suc j)
  have step: "se_ends_at (xs ! j) \<le> se_starts_at (xs ! Suc j)" using assms(2) [of "Suc j"] Suc.prems by simp
  show ?case
  proof (cases "i = j")
    case False
    then have "se_ends_at (xs ! i) \<le> se_starts_at (xs ! j)" using Suc by simp
    moreover have "se_starts_at (xs ! j) < se_ends_at (xs ! j)" using assms(1) Suc.prems by simp
    ultimately show ?thesis using step by linarith
  qed (use step in simp)
qed simp

definition disjoint_times :: "session \<Rightarrow> session \<Rightarrow> bool" where
  "disjoint_times x y = (se_ends_at x \<le> se_starts_at y \<or> se_ends_at y \<le> se_starts_at x)"

lemma disjoint_rows:
  "whole (se_starts_at x) \<Longrightarrow> whole (se_ends_at x) \<Longrightarrow> whole (se_starts_at y) \<Longrightarrow> whole (se_ends_at y) \<Longrightarrow>
     overlaps (session_to_row x) (session_to_row y) \<longleftrightarrow> \<not> disjoint_times x y"
  by (auto simp: overlaps_def ranges_overlap_def disjoint_times_def)

lemma group_check:
  assumes "proper xs" "sorted (map se_starts_at xs)"
  shows "list_all (\<lambda>i. \<not> se_starts_at (xs ! i) < se_ends_at (xs ! (i - 1))) [1..<length xs] \<longleftrightarrow>
    (\<forall>x \<in> set xs. \<forall>y \<in> set xs. se_id x \<noteq> se_id y \<longrightarrow> disjoint_times x y)" (is "?check \<longleftrightarrow> ?free")
proof
  have pos: "\<forall>x \<in> set xs. se_starts_at x < se_ends_at x" using assms(1) by (simp add: proper_def)
  {
    assume ?check
    then have step: "1 \<le> i \<Longrightarrow> i < length xs \<Longrightarrow> se_ends_at (xs ! (i - 1)) \<le> se_starts_at (xs ! i)" for i
      by (auto simp: list_all_iff not_less)
    show ?free
    proof (intro ballI impI)
      fix x y
      assume "x \<in> set xs" "y \<in> set xs" "se_id x \<noteq> se_id y"
      then obtain i j where ij: "i < length xs" "j < length xs" "x = xs ! i" "y = xs ! j" "i \<noteq> j"
        by (auto simp: in_set_conv_nth)
      then consider "i < j" | "j < i" by linarith
      then show "disjoint_times x y"
        using neighbours_enough [OF pos step] ij by cases (auto simp: disjoint_times_def)
    qed
  }
  {
    assume free: ?free
    have "\<not> se_starts_at (xs ! i) < se_ends_at (xs ! (i - 1))" if i: "1 \<le> i" "i < length xs" for i
    proof -
      have mem: "xs ! i \<in> set xs" "xs ! (i - 1) \<in> set xs" using i by simp_all
      have "distinct (map se_id xs)" using assms(1) by (simp add: proper_def)
      then have "map se_id xs ! (i - 1) \<noteq> map se_id xs ! i" using i by (simp add: nth_eq_iff_index_eq del: nth_map)
      then have "se_id (xs ! (i - 1)) \<noteq> se_id (xs ! i)" using i by simp
      then have "disjoint_times (xs ! (i - 1)) (xs ! i)" using free mem by blast
      moreover have "se_starts_at (xs ! (i - 1)) \<le> se_starts_at (xs ! i)"
        using sorted_nth_mono [OF assms(2), of "i - 1" i] i by simp
      moreover have "se_starts_at (xs ! i) < se_ends_at (xs ! i)" using pos mem by blast
      ultimately show ?thesis by (auto simp: disjoint_times_def)
    qed
    then show ?check by (simp add: list_all_iff)
  }
qed

lemma key_check:
  assumes srt: "sorts_by_start srt" and ss: "proper ss"
  shows "noOverlapByKey srt ss key label = None \<longleftrightarrow>
    (\<forall>x \<in> set ss. \<forall>y \<in> set ss. se_id x \<noteq> se_id y \<and> key x = key y \<longrightarrow> disjoint_times x y)"
proof -
  have group: "list_all (\<lambda>i. \<not> se_starts_at (g ! i) < se_ends_at (g ! (i - 1))) [1..<length g] \<longleftrightarrow>
      (\<forall>x \<in> set ss. \<forall>y \<in> set ss. se_id x \<noteq> se_id y \<and> key x = k \<and> key y = k \<longrightarrow> disjoint_times x y)"
    if g: "g = srt (filter (\<lambda>x. key x = k) ss)" for g k
  proof -
    have m: "mset g = mset (filter (\<lambda>x. key x = k) ss)" and s: "sorted (map se_starts_at g)"
      using srt unfolding sorts_by_start_def g by blast+
    have set: "set g = {x \<in> set ss. key x = k}" using mset_eq_setD [OF m] by simp
    have "mset (map se_id g) = mset (map se_id (filter (\<lambda>x. key x = k) ss))" using m by simp
    moreover have "distinct (map se_id (filter (\<lambda>x. key x = k) ss))"
      using ss by (intro distinct_map_filter) (simp add: proper_def)
    ultimately have "distinct (map se_id g)" by (metis mset_eq_imp_distinct_iff)
    then have "proper g" using ss set by (simp add: proper_def)
    from group_check [OF this s] show ?thesis unfolding set by blast
  qed
  have "noOverlapByKey srt ss key label = None \<longleftrightarrow> (\<forall>k \<in> set (map key ss).
      list_all (\<lambda>i. \<not> se_starts_at (srt (filter (\<lambda>x. key x = k) ss) ! i) < se_ends_at (srt (filter (\<lambda>x. key x = k) ss) ! (i - 1)))
        [1..<length (srt (filter (\<lambda>x. key x = k) ss))])"
    by (simp add: noOverlapByKey_def Let_def list_all_iff [of _ "map key ss"])
  then show ?thesis unfolding group [OF refl] by auto
qed

lemma overlap_check_exact:
  assumes "sorts_by_start srt" "proper ss"
  shows "noSpeakerOrRoomOverlap srt ss = None \<longleftrightarrow>
    no_double_booking sr_room_id (map session_to_row ss) \<and> no_double_booking sr_speaker_id (map session_to_row ss)"
proof -
  have rows: "no_double_booking res (map session_to_row ss) \<longleftrightarrow>
      (\<forall>x \<in> set ss. \<forall>y \<in> set ss. se_id x \<noteq> se_id y \<and> key x = key y \<longrightarrow> disjoint_times x y)"
    if "\<And>x. res (session_to_row x) = key x" for res key
    using assms(2) that by (auto simp: no_double_booking_def live_def proper_def disjoint_rows)
  have "noSpeakerOrRoomOverlap srt ss = None \<longleftrightarrow>
      noOverlapByKey srt ss se_room_id ''room'' = None \<and> noOverlapByKey srt ss se_speaker_id ''speaker'' = None"
    by (simp add: noSpeakerOrRoomOverlap_def split: option.split)
  then show ?thesis
    using rows [of sr_room_id se_room_id] rows [of sr_speaker_id se_speaker_id] key_check [OF assms] by simp
qed

end
