(* ===== verification/Demo_Seed.thy ===== *)
theory Demo_Seed
  imports Demo_Http Seed_Overlap
begin

text \<open>
  A concrete environment for cmd/seed: a random source that counts, New York with its two changes
  of 2026, the other zones without any, and an issuer that answers a client id with a token of the
  same subject.
\<close>

definition demo_new_york :: location where
  "demo_new_york = zone_lookup 63897660000 (- 18000) [(63908550000, - 14400), (63929109600, - 18000)]"

definition demo_seed_env :: seed_env where
  "demo_seed_env = \<lparr>sv_intn = (\<lambda>call n. call mod n), sv_perm = (\<lambda>call n. [0..<n]), sv_shuffle = (\<lambda>call n. [0..<n]),
     sv_uuid = (\<lambda>n. n), sv_zoneinfo = (\<lambda>name. Some (if name = ''America/New_York'' then demo_new_york else utc)),
     sv_host = utc\<rparr>"

definition demo_seed_oidc :: "string \<Rightarrow> string option" where
  "demo_seed_oidc token = Some (''{\"sub\":\"'' @ token @ ''\",\"email\":\"e\",\"name\":\"n\"}'')"

definition demo_seed_http :: env where
  "demo_seed_http = demo_env\<lparr>en_oidc := demo_seed_oidc\<rparr>"

definition demo_issuer :: "string \<Rightarrow> (nat \<times> string) option" where
  "demo_issuer form = Some (200, ''{\"access_token\":\"'' @ drop 61 form @ ''\"}'')"

lemma demo_new_york_ok: "zone_ok demo_new_york" "zone_ok utc"
  by (auto simp: zone_ok_def demo_new_york_def offset_at_def utc_def split: prod.splits)

lemma demo_fixtures: "fixtures_ok demo_new_york"
  by code_simp

lemma demo_fair: "fair_source demo_seed_env"
  unfolding fair_source_def
proof (intro allI impI)
  fix n k call :: nat
  assume "k < n"
  then have "call \<le> k + n * call" "sv_intn demo_seed_env (k + n * call) n = k"
    by (auto simp: demo_seed_env_def intro: trans_le_add2)
  then show "\<exists>later \<ge> call. sv_intn demo_seed_env later n = k" by blast
qed

lemma demo_seed_env_ok: "seed_env_ok demo_seed_env"
proof -
  have names: "list_all (\<lambda>name. name \<noteq> [] \<and> name \<noteq> ''Local'' \<and> \<not> contains_dot_dot name \<and> hd name \<noteq> CHR ''/'' \<and> hd name \<noteq> CHR 0x5C)
    (''America/New_York'' # bulkTimezones)"
    by code_simp
  have "\<exists>loc. LoadLocation (sv_zoneinfo demo_seed_env) (sv_host demo_seed_env) name = Some loc \<and> zone_ok loc"
    if "name \<in> set (''America/New_York'' # bulkTimezones)" for name
  proof -
    have "name \<noteq> [] \<and> name \<noteq> ''Local'' \<and> \<not> contains_dot_dot name \<and> hd name \<noteq> CHR ''/'' \<and> hd name \<noteq> CHR 0x5C"
      using names that unfolding list_all_iff by (rule bspec)
    then show ?thesis using demo_new_york_ok by (simp add: LoadLocation_def demo_seed_env_def)
  qed
  then have "zones_ok demo_seed_env" by (simp add: zones_ok_def)
  moreover have "LoadLocation (sv_zoneinfo demo_seed_env) (sv_host demo_seed_env) ''America/New_York'' = Some demo_new_york"
    by (simp add: LoadLocation_def demo_seed_env_def)
  ultimately show ?thesis
    using demo_fair demo_fixtures unfolding seed_env_ok_def fixture_zone_ok_def
    by (simp add: source_ok_def demo_seed_env_def inj_def)
qed

lemma demo_folds: "folds_plain id"
  by (simp add: folds_plain_def)

lemma demo_issuer_ok: "issuer_ok demo_seed_http demo_issuer"
  by code_simp

definition demo_slot :: "uuid \<Rightarrow> time \<Rightarrow> time \<Rightarrow> session" where
  "demo_slot i a b = \<lparr>se_id = i, se_event_id = 1, se_room_id = 2, se_speaker_id = 3, se_title = [], se_description = None,
     se_starts_at = a, se_ends_at = b, se_version = 1, se_created_at = 0, se_updated_at = 0, se_room_name = [],
     se_speaker_name = [], se_series_id = None\<rparr>"

text \<open>The concrete run of Demo with one recurring series more.\<close>

definition demo_series_row :: series where
  "demo_series_row = \<lparr>sx_id = 400, sx_event_id = 10, sx_room_id = 20, sx_speaker_id = 1, sx_title = ''S'', sx_description = None,
     sx_freq = ''daily'', sx_interval_count = 1, sx_occurrences = 2, sx_created_at = 0\<rparr>"

definition demo_series_db :: db where
  "demo_series_db = demo_db\<lparr>t_series := [demo_series_row]\<rparr>"

lemma demo_series_ok: "db_ok id demo_series_db"
proof -
  have rows: "er_id demo_event_row = 10" "rr_id demo_room_row = 20" by code_simp+
  have "set (map usr_id (t_users demo_db)) = {1, 2}" unfolding demo_tables(6) by auto
  then have users: "usr_id ` set (t_users demo_db) = {1, 2}" by simp
  have "insert_series demo_series_row demo_db = Inr demo_series_db"
    unfolding insert_series_Inr
    by (simp add: demo_tables demo_series_db_def demo_series_row_def int4_def rows users)
  then show ?thesis by (rule insert_series_ok [OF demo_ok])
qed

end
