(* ===== verification/Uuid_V7.thy ===== *)
theory Uuid_V7
  imports Prelude "HOL-Library.Word" "HOL-Library.Char_ord"
begin

text \<open>
  cmd/seed/uuidv7.go: the sixteen bytes of a version 7 identifier and their text. The clock
  (\<open>uint64(time.Now().UnixMilli())\<close>) and the ten bytes read from crypto/rand are arguments.
\<close>

unbundle bit_operations_syntax

type_synonym byte = "8 word"

definition hex_digit :: "nat \<Rightarrow> char" where
  "hex_digit n = ''0123456789abcdef'' ! n"

definition EncodeToString :: "byte list \<Rightarrow> string" where
  "EncodeToString bs = concat (map (\<lambda>b. [hex_digit (unat b div 16), hex_digit (unat b mod 16)]) bs)"

definition uuid_bytes :: "64 word \<Rightarrow> byte list \<Rightarrow> byte list" where
  "uuid_bytes ms rnd =
     (let b = [ucast (drop_bit 40 ms), ucast (drop_bit 32 ms), ucast (drop_bit 24 ms),
               ucast (drop_bit 16 ms), ucast (drop_bit 8 ms), ucast ms] @ rnd;
          b = b[6 := (b ! 6 AND 0x0f) OR 0x70]
      in b[8 := (b ! 8 AND 0x3f) OR 0x80])"

definition uuid_text :: "string \<Rightarrow> string" where
  "uuid_text s =
     take 8 s @ ''-'' @ take 4 (drop 8 s) @ ''-'' @ take 4 (drop 12 s) @ ''-'' @ take 4 (drop 16 s) @ ''-'' @ take 12 (drop 20 s)"

definition uuid_v7 :: "64 word \<Rightarrow> byte list \<Rightarrow> string" where
  "uuid_v7 ms rnd = uuid_text (EncodeToString (uuid_bytes ms rnd))"

section \<open>Hexadecimal digits\<close>

lemma hex_mono: "i < j \<Longrightarrow> j < 16 \<Longrightarrow> hex_digit i < hex_digit j"
proof -
  have "list_all (\<lambda>j. list_all (\<lambda>i. hex_digit i < hex_digit j) [0..<j]) [0..<16]" by code_simp
  then show "i < j \<Longrightarrow> j < 16 \<Longrightarrow> hex_digit i < hex_digit j" by (simp add: list_all_iff)
qed

text \<open>The last \<open>k\<close> hexadecimal digits of a number.\<close>

primrec hex_digits :: "nat \<Rightarrow> nat \<Rightarrow> string" where
  "hex_digits 0 n = []"
| "hex_digits (Suc k) n = hex_digits k (n div 16) @ [hex_digit (n mod 16)]"

lemma length_hex_digits [simp]: "length (hex_digits k n) = k"
  by (induction k arbitrary: n) simp_all

lemma hex_digits_append: "hex_digits (j + k) n = hex_digits j (n div 16 ^ k) @ hex_digits k n"
proof (induction k arbitrary: n)
  case (Suc k)
  then show ?case by (simp add: div_mult2_eq [symmetric])
qed simp

lemma hex_digits_less:
  assumes "m < n" "n < 16 ^ k"
  shows "(hex_digits k m, hex_digits k n) \<in> lexord {(a, b). a < b}"
  using assms
proof (induction k arbitrary: m n)
  case (Suc k)
  show ?case
  proof (cases "m div 16 < n div 16")
    case True
    then have "(hex_digits k (m div 16), hex_digits k (n div 16)) \<in> lexord {(a, b). a < b}"
      using Suc by (intro Suc.IH) (simp_all add: less_mult_imp_div_less)
    then show ?thesis by (simp add: lexord_sufI)
  next
    case False
    then have eq: "m div 16 = n div 16" using Suc.prems(1) by (meson div_le_mono le_antisym linorder_not_less order_less_imp_le)
    then have "m mod 16 < n mod 16" using Suc.prems(1) by (metis div_mult_mod_eq nat_add_left_cancel_less)
    then have "hex_digit (m mod 16) < hex_digit (n mod 16)" by (rule hex_mono) simp
    then show ?thesis unfolding hex_digits.simps eq by (intro lexord_append_leftI) simp
  qed
qed simp

section \<open>Shape and order of the identifiers\<close>

lemma high_nibble: "unat (b :: byte) div 16 = unat (drop_bit 4 b)"
  by (subst unat_drop_bit_eq) (simp add: drop_bit_eq_div)

lemma version_bits: "hex_digit (unat ((b AND 0x0f) OR 0x70 :: byte) div 16) = CHR ''7''"
proof -
  have "drop_bit 4 ((b AND 0x0f) OR 0x70 :: byte) = 7" by (simp add: drop_bit_or drop_bit_and)
  then show ?thesis unfolding high_nibble by (simp add: hex_digit_def)
qed

lemma variant_bits: "hex_digit (unat ((b AND 0x3f) OR 0x80 :: byte) div 16) \<in> set ''89ab''"
proof -
  define x where "x = (drop_bit 4 b AND 3 :: byte)"
  have "x = take_bit 2 (drop_bit 4 b)" by (simp add: x_def take_bit_eq_mask mask_eq_exp_minus_1)
  then have "unat x < 4" using take_bit_nat_less_exp [of 2 "unat (drop_bit 4 b)"] by (simp add: unsigned_take_bit_eq)
  then consider "unat x = 0" | "unat x = 1" | "unat x = 2" | "unat x = 3" by linarith
  then have "x \<in> {0, 1, 2, 3}" by cases (simp_all add: word_unat_eq_iff)
  moreover have "drop_bit 4 ((b AND 0x3f) OR 0x80 :: byte) = x OR 8" by (simp add: drop_bit_or drop_bit_and x_def)
  ultimately show ?thesis unfolding high_nibble by (auto simp: hex_digit_def)
qed

lemma ten_bytes:
  assumes "length rnd = 10"
  shows "\<exists>a b c d e f g h i j. rnd = [a, b, c, d, e, f, g, h, i, j]"
  using assms by (auto simp: length_Suc_conv eval_nat_numeral)

lemma byte_digits:
  "[hex_digit (unat (ucast w :: byte) div 16), hex_digit (unat (ucast w :: byte) mod 16)] = hex_digits 2 (unat (w :: 64 word))"
proof -
  have "unat (ucast w :: byte) = unat w mod 256" by (simp add: unsigned_ucast_eq take_bit_eq_mod)
  moreover have "n mod 256 div 16 = n div 16 mod 16" "n mod 256 mod 16 = n mod (16 :: nat)" for n
    using mod_mult2_eq [of n 16 16] by (simp_all add: mod_mod_cancel)
  ultimately show ?thesis by (simp add: numeral_2_eq_2)
qed

lemma time_digits:
  "EncodeToString [ucast (drop_bit 40 ms), ucast (drop_bit 32 ms), ucast (drop_bit 24 ms),
     ucast (drop_bit 16 ms), ucast (drop_bit 8 ms), ucast (ms :: 64 word)] = hex_digits 12 (unat ms)"
proof -
  have byte: "EncodeToString [ucast w] = hex_digits 2 (unat w)" for w :: "64 word"
    using byte_digits by (simp add: EncodeToString_def)
  have drop: "unat (drop_bit k ms) = unat ms div 2 ^ k" for k by (subst unat_drop_bit_eq) (simp add: drop_bit_eq_div)
  have app: "EncodeToString (x # y # xs) = EncodeToString [x] @ EncodeToString (y # xs)" for x y xs
    by (simp add: EncodeToString_def)
  have "hex_digits 12 n = hex_digits 2 (n div 2 ^ 40) @ hex_digits 2 (n div 2 ^ 32) @ hex_digits 2 (n div 2 ^ 24) @
      hex_digits 2 (n div 2 ^ 16) @ hex_digits 2 (n div 2 ^ 8) @ hex_digits 2 n" for n
    using hex_digits_append [of 10 2 n] hex_digits_append [of 8 2 "n div 16 ^ 2"] hex_digits_append [of 6 2 "n div 16 ^ 4"]
      hex_digits_append [of 4 2 "n div 16 ^ 6"] hex_digits_append [of 2 2 "n div 16 ^ 8"]
    by (simp add: div_mult2_eq [symmetric])
  then show ?thesis unfolding app byte drop by simp
qed

lemma uuid_v7_text:
  assumes "length rnd = 10"
  obtains v w where "uuid_v7 ms rnd = hex_digits 8 (unat ms div 16 ^ 4) @ ''-'' @ hex_digits 4 (unat ms) @ ''-'' @ v"
    "length v = 22" "v ! 0 = CHR ''7''" "v ! 4 = CHR ''-''" "v ! 5 \<in> set ''89ab''" "v ! 9 = CHR ''-''"
proof -
  obtain a b c d e f g h i j where r: "rnd = [a, b, c, d, e, f, g, h, i, j]" using ten_bytes [OF assms] by blast
  let ?x = "\<lambda>b. [hex_digit (unat b div 16), hex_digit (unat b mod 16)]"
  let ?tail = "?x ((a AND 0x0f) OR 0x70) @ ?x b @ ?x ((c AND 0x3f) OR 0x80) @ ?x d @ ?x e @ ?x f @ ?x g @ ?x h @ ?x i @ ?x j"
  have "EncodeToString (uuid_bytes ms rnd) = EncodeToString [ucast (drop_bit 40 ms), ucast (drop_bit 32 ms), ucast (drop_bit 24 ms),
     ucast (drop_bit 16 ms), ucast (drop_bit 8 ms), ucast ms] @ ?tail"
    by (simp add: uuid_bytes_def r EncodeToString_def)
  then have t: "EncodeToString (uuid_bytes ms rnd) = hex_digits 8 (unat ms div 16 ^ 4) @ hex_digits 4 (unat ms) @ ?tail"
    unfolding time_digits using hex_digits_append [of 8 4 "unat ms"] by simp
  let ?v = "?x ((a AND 0x0f) OR 0x70) @ ?x b @ ''-'' @ ?x ((c AND 0x3f) OR 0x80) @ ?x d @ ''-'' @ ?x e @ ?x f @ ?x g @ ?x h @ ?x i @ ?x j"
  have "uuid_v7 ms rnd = hex_digits 8 (unat ms div 16 ^ 4) @ ''-'' @ hex_digits 4 (unat ms) @ ''-'' @ ?v"
    unfolding uuid_v7_def uuid_text_def t by simp
  then show thesis
    by (rule that) (use version_bits [of a] variant_bits [of c] in simp_all)
qed

text \<open>36 characters, dashes where RFC 9562 puts them, version 7, variant 10; and later ids sort after earlier ones.\<close>

lemma uuid_v7_shape:
  assumes "length rnd = 10"
  shows "length (uuid_v7 ms rnd) = 36 \<and> uuid_v7 ms rnd ! 8 = CHR ''-'' \<and> uuid_v7 ms rnd ! 13 = CHR ''-'' \<and>
    uuid_v7 ms rnd ! 14 = CHR ''7'' \<and> uuid_v7 ms rnd ! 18 = CHR ''-'' \<and> uuid_v7 ms rnd ! 19 \<in> set ''89ab'' \<and>
    uuid_v7 ms rnd ! 23 = CHR ''-''"
  by (rule uuid_v7_text [OF assms, of ms]) (auto simp: nth_append)

lemma uuid_v7_sorted:
  assumes "length rnd = 10" "length rnd' = 10" "ms < ms'" "unat ms' < 2 ^ 48"
  shows "(uuid_v7 ms rnd, uuid_v7 ms' rnd') \<in> lexord {(a, b). a < b}"
proof -
  obtain v where v: "uuid_v7 ms rnd = hex_digits 8 (unat ms div 16 ^ 4) @ ''-'' @ hex_digits 4 (unat ms) @ ''-'' @ v"
    using uuid_v7_text [OF assms(1)] by metis
  obtain v' where v': "uuid_v7 ms' rnd' = hex_digits 8 (unat ms' div 16 ^ 4) @ ''-'' @ hex_digits 4 (unat ms') @ ''-'' @ v'"
    using uuid_v7_text [OF assms(2)] by metis
  have less: "unat ms < unat ms'" using assms(3) by (simp add: word_less_nat_alt)
  show ?thesis
  proof (cases "unat ms div 16 ^ 4 < unat ms' div 16 ^ 4")
    case True
    moreover have "unat ms' div 16 ^ 4 < 16 ^ 8" using assms(4) by (simp add: less_mult_imp_div_less)
    ultimately have "(hex_digits 8 (unat ms div 16 ^ 4), hex_digits 8 (unat ms' div 16 ^ 4)) \<in> lexord {(a, b). a < b}"
      by (rule hex_digits_less)
    then show ?thesis unfolding v v' by (rule lexord_sufI) simp
  next
    case False
    then have eq: "unat ms div 16 ^ 4 = unat ms' div 16 ^ 4" using less by (meson div_le_mono le_antisym linorder_not_less order_less_imp_le)
    have "(hex_digits 8 (unat ms div 16 ^ 4) @ hex_digits 4 (unat ms), hex_digits 8 (unat ms' div 16 ^ 4) @ hex_digits 4 (unat ms'))
        \<in> lexord {(a, b). a < b}"
      using hex_digits_less [OF less, of "8 + 4"] assms(4) unfolding hex_digits_append by simp
    then have "(hex_digits 4 (unat ms), hex_digits 4 (unat ms')) \<in> lexord {(a, b). a < b}"
      unfolding eq by (rule lexord_append_leftD) simp
    then have "(hex_digits 4 (unat ms) @ ''-'' @ v, hex_digits 4 (unat ms') @ ''-'' @ v') \<in> lexord {(a, b). a < b}"
      by (rule lexord_sufI) simp
    then show ?thesis unfolding v v' eq by (intro lexord_append_leftI)
  qed
qed

end
