(* ===== verification/Url_Text.thy ===== *)
theory Url_Text
  imports Json
begin

text \<open>
  net/url as the demo agent and the server use it: percent-encoding of a path segment and of a query
  value, and how the server takes a request target apart again.
\<close>

section \<open>Escaping\<close>

definition upper_hex :: "nat \<Rightarrow> char" where
  "upper_hex n = (if n < 10 then byte (48 + n) else byte (55 + n))"

definition percent :: "char \<Rightarrow> string" where
  "percent c = [CHR ''%'', upper_hex (of_char c div 16), upper_hex (of_char c mod 16)]"

definition unreserved :: "char \<Rightarrow> bool" where
  "unreserved c = (byte_in 97 122 c \<or> byte_in 65 90 c \<or> byte_in 48 57 c \<or> c \<in> set ''-_.~'')"

text \<open>\<open>PathEscape\<close> leaves the reserved characters that have no meaning inside a segment.\<close>

definition segment_char :: "char \<Rightarrow> bool" where
  "segment_char c = (unreserved c \<or> c \<in> set ''$&+:=@'')"

definition PathEscape :: "string \<Rightarrow> string" where
  "PathEscape s = concat (map (\<lambda>c. if segment_char c then [c] else percent c) s)"

definition QueryEscape :: "string \<Rightarrow> string" where
  "QueryEscape s = concat (map (\<lambda>c. if unreserved c then [c] else if c = CHR '' '' then ''+'' else percent c) s)"

text \<open>\<open>PathUnescape\<close>, and \<open>QueryUnescape\<close> when the flag is set.\<close>

fun unescape :: "bool \<Rightarrow> string \<Rightarrow> string option" where
  "unescape q [] = Some []"
| "unescape q (c # r) =
     (if c = CHR ''%'' then
        (case r of
           a # b # r' \<Rightarrow>
             (case (hex_val a, hex_val b) of
                (Some x, Some y) \<Rightarrow> map_option ((#) (byte (16 * x + y))) (unescape q r')
              | _ \<Rightarrow> None)
         | _ \<Rightarrow> None)
      else map_option ((#) (if q \<and> c = CHR ''+'' then CHR '' '' else c)) (unescape q r))"

section \<open>Targets\<close>

text \<open>\<open>strings.Cut\<close>: the text before the first separator and the text after it.\<close>

definition cut :: "char \<Rightarrow> string \<Rightarrow> string \<times> string" where
  "cut c s = (takeWhile (\<lambda>x. x \<noteq> c) s, drop 1 (dropWhile (\<lambda>x. x \<noteq> c) s))"

fun fields_on :: "char \<Rightarrow> string \<Rightarrow> string list" where
  "fields_on c [] = [[]]"
| "fields_on c (x # xs) =
     (if x = c then [] # fields_on c xs
      else case fields_on c xs of [] \<Rightarrow> [[x]] | f # fs \<Rightarrow> (x # f) # fs)"

text \<open>\<open>ParseQuery\<close>: pairs it cannot read are left out.\<close>

definition query_pair :: "string \<Rightarrow> (string \<times> string) option" where
  "query_pair s =
     (if s = [] \<or> CHR '';'' \<in> set s then None
      else Option.bind (unescape True (fst (cut (CHR ''='') s))) (\<lambda>k.
             map_option (\<lambda>v. (k, v)) (unescape True (snd (cut (CHR ''='') s)))))"

definition parse_query :: "string \<Rightarrow> (string \<times> string) list" where
  "parse_query s = List.map_filter query_pair (fields_on (CHR ''&'') s)"

text \<open>
  \<open>path.Clean\<close> on the segments of an absolute path: empty segments and dots disappear, and \<open>..\<close> takes
  the segment before it away.
\<close>

fun clean_onto :: "string list \<Rightarrow> string list \<Rightarrow> string list" where
  "clean_onto done [] = rev done"
| "clean_onto done (x # xs) =
     (if x = [] \<or> x = ''.'' then clean_onto done xs
      else if x = ''..'' then clean_onto (tl done) xs
      else clean_onto (x # done) xs)"

definition clean_path :: "string list \<Rightarrow> string list" where
  "clean_path segs = clean_onto [] segs @ (if segs \<noteq> [] \<and> last segs = [] \<and> clean_onto [] segs \<noteq> [] then [[]] else [])"

section \<open>What was escaped is read back\<close>

lemma upper_hex_val: "n < 16 \<Longrightarrow> hex_val (upper_hex n) = Some n"
  by (auto simp: hex_val_def upper_hex_def byte_def of_char_of Let_def)

lemma char_nibbles: "of_char c div 16 < (16 :: nat)" "of_char c mod 16 < (16 :: nat)"
proof -
  have "of_char c < (16 * 16 :: nat)" by simp
  then show "of_char c div 16 < (16 :: nat)" by (rule less_mult_imp_div_less)
qed simp

lemma unescape_percent: "unescape q (percent c @ r) = map_option ((#) c) (unescape q r)"
proof -
  have "byte (16 * (of_char c div 16) + of_char c mod 16) = c"
    by (simp add: byte_def mult_div_mod_eq)
  then show ?thesis using char_nibbles [of c] by (simp add: percent_def upper_hex_val)
qed

lemma unreserved_chars: "unreserved c \<Longrightarrow> c \<notin> set ''%+/?&=; ''"
  by (auto simp: unreserved_def byte_in_def)

lemma segment_chars: "segment_char c \<Longrightarrow> c \<noteq> CHR ''%'' \<and> c \<noteq> CHR ''/'' \<and> c \<noteq> CHR ''?'' \<and> c \<noteq> CHR '' ''"
  using unreserved_chars [of c] by (auto simp: segment_char_def)

lemma path_unescape_escape: "unescape False (PathEscape s) = Some s"
proof (induction s)
  case (Cons c s)
  then show ?case
    using unescape_percent [of False c "PathEscape s"] segment_chars [of c] by (simp add: PathEscape_def)
qed (simp add: PathEscape_def)

lemma query_unescape_escape: "unescape True (QueryEscape s) = Some s"
proof (induction s)
  case (Cons c s)
  then show ?case
    using unescape_percent [of True c "QueryEscape s"] unreserved_chars [of c]
    by (auto simp: QueryEscape_def)
qed (simp add: QueryEscape_def)

lemma percent_chars: "x \<in> set (percent c) \<Longrightarrow> x = CHR ''%'' \<or> unreserved x"
proof -
  have "unreserved (upper_hex n)" if "n < 16" for n
  proof -
    have "of_char (upper_hex n) \<in> {48..57} \<union> {65..70 :: nat}"
      using that by (auto simp: upper_hex_def byte_def of_char_of)
    then show ?thesis by (auto simp: unreserved_def byte_in_def)
  qed
  then show "x \<in> set (percent c) \<Longrightarrow> x = CHR ''%'' \<or> unreserved x"
    using char_nibbles [of c] by (auto simp: percent_def)
qed

lemma path_escape_set: "x \<in> set (PathEscape s) \<Longrightarrow> segment_char x \<or> x = CHR ''%''"
  by (auto simp: PathEscape_def segment_char_def split: if_splits dest!: percent_chars)

lemma query_escape_set: "x \<in> set (QueryEscape s) \<Longrightarrow> unreserved x \<or> x = CHR ''%'' \<or> x = CHR ''+''"
  by (auto simp: QueryEscape_def split: if_splits dest!: percent_chars)

lemma path_escape_chars: "x \<in> set (PathEscape s) \<Longrightarrow> x \<noteq> CHR ''/'' \<and> x \<noteq> CHR ''?''"
  using path_escape_set [of x s] segment_chars [of x] by auto

lemma query_escape_chars: "x \<in> set (QueryEscape s) \<Longrightarrow> x \<noteq> CHR ''&'' \<and> x \<noteq> CHR ''='' \<and> x \<noteq> CHR '';''"
  using query_escape_set [of x s] unreserved_chars [of x] by auto

lemma path_escape_Nil [simp]: "PathEscape s = [] \<longleftrightarrow> s = []"
  by (cases s) (auto simp: PathEscape_def percent_def)

lemma cut_at: "c \<notin> set s \<Longrightarrow> cut c (s @ c # r) = (s, r)"
  by (induction s) (auto simp: cut_def)

lemma cut_none: "c \<notin> set s \<Longrightarrow> cut c s = (s, [])"
  by (induction s) (auto simp: cut_def)

lemma fields_none: "c \<notin> set s \<Longrightarrow> fields_on c s = [s]"
  by (induction s) auto

lemma fields_at: "c \<notin> set s \<Longrightarrow> fields_on c (s @ c # r) = s # fields_on c r"
  by (induction s) auto

end
