(* ===== verification/Agent_Client.thy ===== *)
theory Agent_Client
  imports Json_Print Url_Text
begin

text \<open>
  cmd/agent/client.go: the demo agent's read-only client of the API. Sending a request is a
  parameter, the \<open>transport\<close>, which acts on a state of its own; what it answers is decoded with the
  struct fields the file declares. Texts of encoding/json errors and \<open>%q\<close> are parameters too.
\<close>

section \<open>Requests and answers\<close>

record http_request =
  hq_method :: string
  hq_url :: string
  hq_headers :: "(string \<times> string) list"
  hq_body :: string

text \<open>
  \<open>NewRequest\<close> refuses the URL, \<open>Do\<close> fails, the body cannot be read to its end, or there is a status
  and a body.
\<close>

datatype answer = Unbuilt string | Unsent string | Unread string | Answer nat string

type_synonym 'w transport = "http_request \<Rightarrow> 'w \<Rightarrow> answer \<times> 'w"

text \<open>\<open>tx_json_error\<close>: the error of \<open>Unmarshal\<close> for a target and a text; \<open>tx_quote\<close>: a string as \<open>%q\<close> shows it.\<close>

record texts =
  tx_json_error :: "string \<Rightarrow> string \<Rightarrow> string"
  tx_quote :: "string \<Rightarrow> string"

record api_client =
  cl_base_url :: string
  cl_token :: string

definition NewClient :: "string \<Rightarrow> string \<Rightarrow> api_client" where
  "NewClient baseURL token = \<lparr>cl_base_url = baseURL, cl_token = token\<rparr>"

datatype client_error = APIError nat string string | OtherError string

definition APIError_text :: "nat \<Rightarrow> string \<Rightarrow> string \<Rightarrow> string" where
  "APIError_text status code message = code @ '' (http '' @ decimal status @ ''): '' @ message"

section \<open>What the answers are decoded into\<close>

text \<open>A slice that \<open>null\<close> or a missing member leaves nil.\<close>

definition to_nilable :: "'a field \<Rightarrow> 'a \<Rightarrow> 'a list option field" where
  "to_nilable f zero v z = (case v of JNull \<Rightarrow> Some None | JArr vs \<Rightarrow> map_option Some (to_elems f zero vs) | _ \<Rightarrow> None)"

record agent_event =
  age_id :: string
  age_name :: string
  age_description :: "string option"
  age_timezone :: string
  age_starts_at :: string
  age_ends_at :: string
  age_version :: int
  age_created_at :: string
  age_updated_at :: string

definition agent_event_zero :: agent_event where
  "agent_event_zero = \<lparr>age_id = [], age_name = [], age_description = None, age_timezone = [], age_starts_at = [],
     age_ends_at = [], age_version = 0, age_created_at = [], age_updated_at = []\<rparr>"

definition agent_event_fields :: "(string \<times> agent_event field) list" where
  "agent_event_fields =
     [(''id'', in_field age_id age_id_update to_string),
      (''name'', in_field age_name age_name_update to_string),
      (''description'', in_field age_description age_description_update (to_pointer to_string [])),
      (''timezone'', in_field age_timezone age_timezone_update to_string),
      (''starts_at'', in_field age_starts_at age_starts_at_update to_string),
      (''ends_at'', in_field age_ends_at age_ends_at_update to_string),
      (''version'', in_field age_version age_version_update to_int),
      (''created_at'', in_field age_created_at age_created_at_update to_string),
      (''updated_at'', in_field age_updated_at age_updated_at_update to_string)]"

record agent_room =
  agr_id :: string
  agr_event_id :: string
  agr_name :: string
  agr_capacity :: "int option"
  agr_version :: int
  agr_created_at :: string
  agr_updated_at :: string

definition agent_room_zero :: agent_room where
  "agent_room_zero = \<lparr>agr_id = [], agr_event_id = [], agr_name = [], agr_capacity = None, agr_version = 0,
     agr_created_at = [], agr_updated_at = []\<rparr>"

definition agent_room_fields :: "(string \<times> agent_room field) list" where
  "agent_room_fields =
     [(''id'', in_field agr_id agr_id_update to_string),
      (''event_id'', in_field agr_event_id agr_event_id_update to_string),
      (''name'', in_field agr_name agr_name_update to_string),
      (''capacity'', in_field agr_capacity agr_capacity_update (to_pointer to_int 0)),
      (''version'', in_field agr_version agr_version_update to_int),
      (''created_at'', in_field agr_created_at agr_created_at_update to_string),
      (''updated_at'', in_field agr_updated_at agr_updated_at_update to_string)]"

record agent_session =
  ags_id :: string
  ags_event_id :: string
  ags_room_id :: string
  ags_speaker_id :: string
  ags_title :: string
  ags_description :: "string option"
  ags_starts_at :: string
  ags_ends_at :: string
  ags_duration_minutes :: int
  ags_version :: int
  ags_created_at :: string
  ags_updated_at :: string

definition agent_session_zero :: agent_session where
  "agent_session_zero = \<lparr>ags_id = [], ags_event_id = [], ags_room_id = [], ags_speaker_id = [], ags_title = [],
     ags_description = None, ags_starts_at = [], ags_ends_at = [], ags_duration_minutes = 0, ags_version = 0,
     ags_created_at = [], ags_updated_at = []\<rparr>"

definition agent_session_fields :: "(string \<times> agent_session field) list" where
  "agent_session_fields =
     [(''id'', in_field ags_id ags_id_update to_string),
      (''event_id'', in_field ags_event_id ags_event_id_update to_string),
      (''room_id'', in_field ags_room_id ags_room_id_update to_string),
      (''speaker_id'', in_field ags_speaker_id ags_speaker_id_update to_string),
      (''title'', in_field ags_title ags_title_update to_string),
      (''description'', in_field ags_description ags_description_update (to_pointer to_string [])),
      (''starts_at'', in_field ags_starts_at ags_starts_at_update to_string),
      (''ends_at'', in_field ags_ends_at ags_ends_at_update to_string),
      (''duration_minutes'', in_field ags_duration_minutes ags_duration_minutes_update to_int),
      (''version'', in_field ags_version ags_version_update to_int),
      (''created_at'', in_field ags_created_at ags_created_at_update to_string),
      (''updated_at'', in_field ags_updated_at ags_updated_at_update to_string)]"

record 'a agent_list =
  agl_data :: "'a list option"
  agl_next_cursor :: "string option"

definition agent_list_zero :: "'a agent_list" where
  "agent_list_zero = \<lparr>agl_data = None, agl_next_cursor = None\<rparr>"

definition agent_list_fields :: "(string \<times> 'a field) list \<Rightarrow> 'a \<Rightarrow> (string \<times> 'a agent_list field) list" where
  "agent_list_fields fs zero =
     [(''data'', in_field agl_data agl_data_update (to_nilable (decode_struct fs) zero)),
      (''next_cursor'', in_field agl_next_cursor agl_next_cursor_update (to_pointer to_string []))]"

record api_error =
  ape_code :: string
  ape_message :: string

definition envelope_fields :: "(string \<times> api_error field) list" where
  "envelope_fields =
     [(''error'', decode_struct
        [(''code'', in_field ape_code ape_code_update to_string),
         (''message'', in_field ape_message ape_message_update to_string)])]"

section \<open>The calls\<close>

text \<open>\<open>Unmarshal\<close>: the whole text is one value, and the value fits the target.\<close>

definition Unmarshal :: "(string \<times> 'a field) list \<Rightarrow> 'a \<Rightarrow> string \<Rightarrow> 'a option" where
  "Unmarshal fs zero body = Option.bind (json_whole body) (\<lambda>v. decode_struct fs v zero)"

definition get_request :: "api_client \<Rightarrow> string \<Rightarrow> http_request" where
  "get_request c path = \<lparr>hq_method = ''GET'', hq_url = cl_base_url c @ path,
     hq_headers = [(''Authorization'', ''Bearer '' @ cl_token c)], hq_body = []\<rparr>"

definition error_answer :: "nat \<Rightarrow> string \<Rightarrow> client_error" where
  "error_answer status body =
     (case Unmarshal envelope_fields \<lparr>ape_code = [], ape_message = []\<rparr> body of
        None \<Rightarrow> APIError status ''unknown'' body
      | Some e \<Rightarrow> APIError status (ape_code e) (ape_message e))"

definition get_answer :: "texts \<Rightarrow> string \<Rightarrow> (string \<times> 'a field) list \<Rightarrow> 'a \<Rightarrow> string \<Rightarrow> answer \<Rightarrow> client_error + 'a" where
  "get_answer tx target fs zero path a =
     (case a of
        Unbuilt e \<Rightarrow> Inl (OtherError (''building request for '' @ path @ '': '' @ e))
      | Unsent e \<Rightarrow> Inl (OtherError (''requesting '' @ path @ '': '' @ e))
      | Unread e \<Rightarrow> Inl (OtherError (''reading response for '' @ path @ '': '' @ e))
      | Answer status body \<Rightarrow>
          if status < 200 \<or> 300 \<le> status then Inl (error_answer status body)
          else case Unmarshal fs zero body of
                 None \<Rightarrow> Inl (OtherError (''decoding response for '' @ path @ '': '' @ tx_json_error tx target body))
               | Some out \<Rightarrow> Inr out)"

definition client_get :: "texts \<Rightarrow> 'w transport \<Rightarrow> api_client \<Rightarrow> string \<Rightarrow> (string \<times> 'a field) list \<Rightarrow> 'a \<Rightarrow> string \<Rightarrow> 'w \<Rightarrow>
    (client_error + 'a) \<times> 'w" where
  "client_get tx send c target fs zero path w =
     (let (a, w') = send (get_request c path) w in (get_answer tx target fs zero path a, w'))"

text \<open>\<open>url.Values.Encode\<close> for the one key the client sets.\<close>

definition cursor_query :: "string \<Rightarrow> string" where
  "cursor_query cursor = (if cursor = [] then [] else ''cursor='' @ QueryEscape cursor)"

definition events_target :: "string \<Rightarrow> string" where
  "events_target cursor = ''/v1/events?'' @ cursor_query cursor"

definition event_target :: "string \<Rightarrow> string" where
  "event_target eventID = ''/v1/events/'' @ PathEscape eventID"

definition items_target :: "string \<Rightarrow> string \<Rightarrow> string \<Rightarrow> string" where
  "items_target eventID items cursor = ''/v1/events/'' @ PathEscape eventID @ ''/'' @ items @ ''?'' @ cursor_query cursor"

definition client_ListEvents :: "texts \<Rightarrow> 'w transport \<Rightarrow> api_client \<Rightarrow> string \<Rightarrow> 'w \<Rightarrow>
    (client_error + agent_event agent_list) \<times> 'w" where
  "client_ListEvents tx send c cursor =
     client_get tx send c ''EventList'' (agent_list_fields agent_event_fields agent_event_zero) agent_list_zero (events_target cursor)"

definition client_GetEvent :: "texts \<Rightarrow> 'w transport \<Rightarrow> api_client \<Rightarrow> string \<Rightarrow> 'w \<Rightarrow> (client_error + agent_event) \<times> 'w" where
  "client_GetEvent tx send c eventID =
     client_get tx send c ''Event'' agent_event_fields agent_event_zero (event_target eventID)"

definition client_ListSessions :: "texts \<Rightarrow> 'w transport \<Rightarrow> api_client \<Rightarrow> string \<Rightarrow> string \<Rightarrow> 'w \<Rightarrow>
    (client_error + agent_session agent_list) \<times> 'w" where
  "client_ListSessions tx send c eventID cursor =
     client_get tx send c ''SessionList'' (agent_list_fields agent_session_fields agent_session_zero) agent_list_zero
       (items_target eventID ''sessions'' cursor)"

definition client_ListRooms :: "texts \<Rightarrow> 'w transport \<Rightarrow> api_client \<Rightarrow> string \<Rightarrow> string \<Rightarrow> 'w \<Rightarrow>
    (client_error + agent_room agent_list) \<times> 'w" where
  "client_ListRooms tx send c eventID cursor =
     client_get tx send c ''RoomList'' (agent_list_fields agent_room_fields agent_room_zero) agent_list_zero
       (items_target eventID ''rooms'' cursor)"

lemmas client_calls = client_ListEvents_def client_GetEvent_def client_ListSessions_def client_ListRooms_def

end
