(* ===== verification/Agent_Tools.thy ===== *)
theory Agent_Tools
  imports Agent_Client
begin

text \<open>
  cmd/agent/tools.go: the four tools the model may call, and \<open>Dispatch\<close>, which decodes a call's
  arguments, runs it against the client and turns what came back into the text the model reads. The
  arguments are the JSON value of the call, \<open>None\<close> when the call has none.
\<close>

section \<open>The tools\<close>

record tool_def =
  td_name :: string
  td_description :: string
  td_input_schema :: json

text \<open>A map is printed with its keys in order, so a schema is an object with sorted keys.\<close>

definition string_schema :: "string \<Rightarrow> json" where
  "string_schema description = JObj [(''description'', json_text description), (''type'', json_text ''string'')]"

definition object_schema :: "(string \<times> json) list \<Rightarrow> string list \<Rightarrow> json" where
  "object_schema properties required = JObj
     ((''properties'', JObj properties) #
      (if required = [] then [] else [(''required'', JArr (map json_text required))]) @ [(''type'', json_text ''object'')])"

definition event_id_schema :: json where
  "event_id_schema = string_schema ''The event's UUID.''"

definition cursor_schema :: "string \<Rightarrow> json" where
  "cursor_schema tool = string_schema (''Opaque pagination cursor from a previous '' @ tool @ '' call's next_cursor.'')"

definition ToolDefinitions :: "tool_def list" where
  "ToolDefinitions =
     [\<lparr>td_name = ''list_events'',
       td_description = ''List the events the caller is a member of. Read-only; results are already scoped to the caller's own authorization -- it never sees events it doesn't belong to.'',
       td_input_schema = object_schema [(''cursor'', cursor_schema ''list_events'')] []\<rparr>,
      \<lparr>td_name = ''get_event'',
       td_description = ''Get one event by id, including its IANA timezone and start/end. 403 if the caller isn't a member of that event.'',
       td_input_schema = object_schema [(''event_id'', event_id_schema)] [''event_id'']\<rparr>,
      \<lparr>td_name = ''list_sessions'',
       td_description = ''List an event's sessions (room, speaker, localized start/end, duration). 403 if the caller isn't a member of that event.'',
       td_input_schema = object_schema [(''cursor'', cursor_schema ''list_sessions''), (''event_id'', event_id_schema)] [''event_id'']\<rparr>,
      \<lparr>td_name = ''list_rooms'',
       td_description = ''List an event's rooms and their capacity. 403 if the caller isn't a member of that event.'',
       td_input_schema = object_schema [(''cursor'', cursor_schema ''list_rooms''), (''event_id'', event_id_schema)] [''event_id'']\<rparr>]"

section \<open>Arguments\<close>

record tool_args =
  ta_event_id :: string
  ta_cursor :: string

definition tool_args_zero :: tool_args where
  "tool_args_zero = \<lparr>ta_event_id = [], ta_cursor = []\<rparr>"

definition event_id_field :: "string \<times> tool_args field" where
  "event_id_field = (''event_id'', in_field ta_event_id ta_event_id_update to_string)"

definition cursor_field :: "string \<times> tool_args field" where
  "cursor_field = (''cursor'', in_field ta_cursor ta_cursor_update to_string)"

definition tool_args_of :: "(string \<times> tool_args field) list \<Rightarrow> json option \<Rightarrow> tool_args option" where
  "tool_args_of fs input = Option.bind input (\<lambda>v. decode_struct fs v tool_args_zero)"

definition input_text :: "json option \<Rightarrow> string" where
  "input_text input = (case input of None \<Rightarrow> [] | Some v \<Rightarrow> print_json v)"

section \<open>Results\<close>

definition agent_event_json :: "agent_event \<Rightarrow> json" where
  "agent_event_json e = JObj
     [(''id'', json_text (age_id e)), (''name'', json_text (age_name e)),
      (''description'', json_pointer json_text (age_description e)), (''timezone'', json_text (age_timezone e)),
      (''starts_at'', json_text (age_starts_at e)), (''ends_at'', json_text (age_ends_at e)),
      (''version'', json_int (age_version e)),
      (''created_at'', json_text (age_created_at e)), (''updated_at'', json_text (age_updated_at e))]"

definition agent_room_json :: "agent_room \<Rightarrow> json" where
  "agent_room_json r = JObj
     [(''id'', json_text (agr_id r)), (''event_id'', json_text (agr_event_id r)), (''name'', json_text (agr_name r)),
      (''capacity'', json_pointer json_int (agr_capacity r)), (''version'', json_int (agr_version r)),
      (''created_at'', json_text (agr_created_at r)), (''updated_at'', json_text (agr_updated_at r))]"

definition agent_session_json :: "agent_session \<Rightarrow> json" where
  "agent_session_json s = JObj
     [(''id'', json_text (ags_id s)), (''event_id'', json_text (ags_event_id s)),
      (''room_id'', json_text (ags_room_id s)), (''speaker_id'', json_text (ags_speaker_id s)),
      (''title'', json_text (ags_title s)), (''description'', json_pointer json_text (ags_description s)),
      (''starts_at'', json_text (ags_starts_at s)), (''ends_at'', json_text (ags_ends_at s)),
      (''duration_minutes'', json_int (ags_duration_minutes s)), (''version'', json_int (ags_version s)),
      (''created_at'', json_text (ags_created_at s)), (''updated_at'', json_text (ags_updated_at s))]"

definition agent_list_json :: "('a \<Rightarrow> json) \<Rightarrow> 'a agent_list \<Rightarrow> json" where
  "agent_list_json f l = JObj
     ((''data'', json_pointer (\<lambda>xs. JArr (map f xs)) (agl_data l)) # omit_empty ''next_cursor'' json_text (agl_next_cursor l))"

text \<open>A denial is the API's code and message; \<open>Marshal\<close> of these types never fails.\<close>

definition encodeToolResult :: "('a \<Rightarrow> json) \<Rightarrow> client_error + 'a \<Rightarrow> string \<times> bool" where
  "encodeToolResult f out =
     (case out of
        Inl (APIError status code message) \<Rightarrow> (code @ '': '' @ message, True)
      | Inl (OtherError e) \<Rightarrow> (e, True)
      | Inr v \<Rightarrow> (print_json (f v), False))"

section \<open>Dispatch\<close>

text \<open>A tool runs with its decoded arguments, or its answer says what is wrong with them.\<close>

definition with_args :: "texts \<Rightarrow> (string \<times> tool_args field) list \<Rightarrow> bool \<Rightarrow> json option \<Rightarrow>
    (tool_args \<Rightarrow> 'w \<Rightarrow> (string \<times> bool) \<times> 'w) \<Rightarrow> 'w \<Rightarrow> (string + string \<times> bool) \<times> 'w" where
  "with_args tx fs needs_event input run w =
     (case tool_args_of fs input of
        None \<Rightarrow> (Inr (''invalid arguments: '' @ tx_json_error tx ''args'' (input_text input), True), w)
      | Some args \<Rightarrow>
          if needs_event \<and> ta_event_id args = [] then (Inr (''missing required argument: event_id'', True), w)
          else let (r, w') = run args w in (Inr r, w'))"

definition encoded :: "('a \<Rightarrow> json) \<Rightarrow> ('w \<Rightarrow> (client_error + 'a) \<times> 'w) \<Rightarrow> 'w \<Rightarrow> (string \<times> bool) \<times> 'w" where
  "encoded f call w = (let (out, w') = call w in (encodeToolResult f out, w'))"

definition Dispatch :: "texts \<Rightarrow> 'w transport \<Rightarrow> api_client \<Rightarrow> string \<Rightarrow> json option \<Rightarrow> 'w \<Rightarrow> (string + string \<times> bool) \<times> 'w" where
  "Dispatch tx send c name input w =
     (if name = ''list_events'' then
        with_args tx [cursor_field] False input
          (\<lambda>a. encoded (agent_list_json agent_event_json) (client_ListEvents tx send c (ta_cursor a))) w
      else if name = ''get_event'' then
        with_args tx [event_id_field] True input
          (\<lambda>a. encoded agent_event_json (client_GetEvent tx send c (ta_event_id a))) w
      else if name = ''list_sessions'' then
        with_args tx [event_id_field, cursor_field] True input
          (\<lambda>a. encoded (agent_list_json agent_session_json) (client_ListSessions tx send c (ta_event_id a) (ta_cursor a))) w
      else if name = ''list_rooms'' then
        with_args tx [event_id_field, cursor_field] True input
          (\<lambda>a. encoded (agent_list_json agent_room_json) (client_ListRooms tx send c (ta_event_id a) (ta_cursor a))) w
      else (Inl (''unknown tool: '' @ tx_quote tx name), w))"

section \<open>What a call does\<close>

text \<open>Every call leaves the state alone or sends one \<open>GET\<close> with the caller's token.\<close>

lemma client_get_sends: "snd (client_get tx send c target fs zero path w) = snd (send (get_request c path) w)"
  by (simp add: client_get_def case_prod_beta)

lemma encoded_sends: "snd (encoded f call w) = snd (call w)"
  by (simp add: encoded_def case_prod_beta)

lemma with_args_sends:
  "(\<And>a. \<exists>path. snd (run a w) = snd (send (get_request c path) w)) \<Longrightarrow>
   snd (with_args tx fs b input run w) = w \<or> (\<exists>path. snd (with_args tx fs b input run w) = snd (send (get_request c path) w))"
  by (simp add: with_args_def case_prod_beta split: option.split)

lemma Dispatch_sends:
  "snd (Dispatch tx send c name input w) = w \<or> (\<exists>path. snd (Dispatch tx send c name input w) = snd (send (get_request c path) w))"
proof -
  have call: "\<exists>path. snd (encoded f (client_get tx send c target fs zero p) w) = snd (send (get_request c path) w)" for f target fs zero p
    by (rule exI [of _ p]) (simp add: encoded_sends client_get_sends)
  have args: "snd (with_args tx fs b input (\<lambda>a. encoded f (client_get tx send c target fs' zero (p a))) w) = w \<or>
      (\<exists>path. snd (with_args tx fs b input (\<lambda>a. encoded f (client_get tx send c target fs' zero (p a))) w) =
        snd (send (get_request c path) w))" for fs b f target fs' zero p
    by (rule with_args_sends) (rule call)
  show ?thesis
    unfolding Dispatch_def client_calls
    by (simp only: split: if_split) (intro conjI impI; (rule args | simp only: snd_conv simp_thms))
qed

text \<open>The only Go error is the unknown tool.\<close>

lemma with_args_answers: "fst (with_args tx fs b input run w) \<noteq> Inl e"
  by (auto simp: with_args_def case_prod_beta split: option.split)

lemma Dispatch_error:
  assumes "fst (Dispatch tx send c name input w) = Inl e"
  shows "name \<notin> td_name ` set ToolDefinitions \<and> e = ''unknown tool: '' @ tx_quote tx name"
proof -
  have names: "td_name ` set ToolDefinitions = {''list_events'', ''get_event'', ''list_sessions'', ''list_rooms''}"
    by (simp add: ToolDefinitions_def)
  have "fst (Dispatch tx send c name input w) = Inl e \<longrightarrow>
      name \<notin> {''list_events'', ''get_event'', ''list_sessions'', ''list_rooms''} \<and> e = ''unknown tool: '' @ tx_quote tx name"
    unfolding Dispatch_def by (simp only: split: if_split) (intro conjI impI; simp add: with_args_answers)
  then show ?thesis using assms unfolding names by blast
qed

end
