(* ===== verification/Agent_Loop.thy ===== *)
theory Agent_Loop
  imports Agent_Tools
begin

text \<open>
  cmd/agent/agent.go, scenarios.go and main.go: the tool loop, the three canned prompts and the
  checks of the command line. The model is a parameter with a state of its own, so it may answer
  anything; the API is reached through the transport of the client.
\<close>

section \<open>Conversation\<close>

text \<open>One block shape for texts, calls and results; the fields a type does not use are zero.\<close>

record content_block =
  cb_type :: string
  cb_text :: string
  cb_id :: string
  cb_name :: string
  cb_input :: "json option"
  cb_tool_use_id :: string
  cb_content :: string
  cb_is_error :: bool

definition content_block_zero :: content_block where
  "content_block_zero = \<lparr>cb_type = [], cb_text = [], cb_id = [], cb_name = [], cb_input = None, cb_tool_use_id = [],
     cb_content = [], cb_is_error = False\<rparr>"

definition text_block :: "string \<Rightarrow> content_block" where
  "text_block t = content_block_zero\<lparr>cb_type := ''text'', cb_text := t\<rparr>"

definition result_block :: "string \<Rightarrow> string \<times> bool \<Rightarrow> content_block" where
  "result_block ident r = content_block_zero\<lparr>cb_type := ''tool_result'', cb_tool_use_id := ident, cb_content := fst r, cb_is_error := snd r\<rparr>"

record message =
  msg_role :: string
  msg_content :: "content_block list"

definition user_message :: "content_block list \<Rightarrow> message" where
  "user_message bs = \<lparr>msg_role = ''user'', msg_content = bs\<rparr>"

definition assistant_message :: "content_block list \<Rightarrow> message" where
  "assistant_message bs = \<lparr>msg_role = ''assistant'', msg_content = bs\<rparr>"

record model_request =
  mrq_system :: string
  mrq_messages :: "message list"
  mrq_tools :: "tool_def list"

record model_response =
  mrs_stop_reason :: string
  mrs_content :: "content_block list"

type_synonym 'm model = "model_request \<Rightarrow> 'm \<Rightarrow> (string + model_response) \<times> 'm"

section \<open>Run\<close>

definition maxAgentTurns :: nat where "maxAgentTurns = 8"

fun finalText :: "content_block list \<Rightarrow> string" where
  "finalText [] = []"
| "finalText (b # bs) = (if cb_type b = ''text'' then cb_text b else finalText bs)"

definition is_call :: "content_block \<Rightarrow> bool" where
  "is_call b = (cb_type b = ''tool_use'')"

text \<open>The calls of one answer in their order; the first Go error ends the run.\<close>

fun run_calls :: "texts \<Rightarrow> 'w transport \<Rightarrow> api_client \<Rightarrow> content_block list \<Rightarrow> 'w \<Rightarrow> (string + content_block list) \<times> 'w" where
  "run_calls tx send c [] w = (Inr [], w)"
| "run_calls tx send c (b # bs) w =
     (if \<not> is_call b then run_calls tx send c bs w
      else case Dispatch tx send c (cb_name b) (cb_input b) w of
             (Inl e, w') \<Rightarrow> (Inl (''dispatching tool '' @ tx_quote tx (cb_name b) @ '': '' @ e), w')
           | (Inr r, w') \<Rightarrow>
               (case run_calls tx send c bs w' of
                  (Inl e, w'') \<Rightarrow> (Inl e, w'')
                | (Inr rs, w'') \<Rightarrow> (Inr (result_block (cb_id b) r # rs), w'')))"

text \<open>\<open>k\<close> turns are left; turn numbers count up from 0.\<close>

fun run_turns :: "texts \<Rightarrow> 'm model \<Rightarrow> 'w transport \<Rightarrow> api_client \<Rightarrow> string \<Rightarrow> nat \<Rightarrow> message list \<Rightarrow> 'm \<Rightarrow> 'w \<Rightarrow>
    (string + string) \<times> 'm \<times> 'w" where
  "run_turns tx model send c system 0 messages m w =
     (Inl (''exceeded '' @ decimal maxAgentTurns @ '' turns without a final answer''), m, w)"
| "run_turns tx model send c system (Suc k) messages m w =
     (case model \<lparr>mrq_system = system, mrq_messages = messages, mrq_tools = ToolDefinitions\<rparr> m of
        (Inl e, m') \<Rightarrow> (Inl (''model turn '' @ decimal (maxAgentTurns - Suc k) @ '': '' @ e), m', w)
      | (Inr resp, m') \<Rightarrow>
          if mrs_stop_reason resp \<noteq> ''tool_use'' then (Inr (finalText (mrs_content resp)), m', w)
          else case run_calls tx send c (mrs_content resp) w of
                 (Inl e, w') \<Rightarrow> (Inl e, m', w')
               | (Inr results, w') \<Rightarrow>
                   run_turns tx model send c system k
                     (messages @ [assistant_message (mrs_content resp), user_message results]) m' w')"

definition Run :: "texts \<Rightarrow> 'm model \<Rightarrow> 'w transport \<Rightarrow> api_client \<Rightarrow> string \<Rightarrow> string \<Rightarrow> 'm \<Rightarrow> 'w \<Rightarrow> (string + string) \<times> 'm \<times> 'w" where
  "Run tx model send c systemPrompt userPrompt m w =
     run_turns tx model send c systemPrompt maxAgentTurns [user_message [text_block userPrompt]] m w"

section \<open>scenarios.go\<close>

definition systemPrompt :: string where
  "systemPrompt = ''You are a read-only assistant for the Krane event management platform. You can only see what the current user is authorized to see -- if a tool call is denied (403) or the resource doesn't exist (404), say so plainly. Never claim access you don't have, and never guess at data you haven't fetched with a tool.''"

record scenario =
  sc_name :: string
  sc_prompt :: string

definition Scenarios :: "string \<Rightarrow> string \<Rightarrow> string \<Rightarrow> scenario list" where
  "Scenarios eventID foreignEventID localDate =
     (let date = (if localDate = [] then ''its own start date'' else localDate) in
      [\<lparr>sc_name = ''normal-read'',
        sc_prompt = ''What events am I a member of, and what sessions are scheduled for the first one?''\<rparr>,
       \<lparr>sc_name = ''permission-boundary'',
        sc_prompt = ''What sessions are scheduled for event '' @ foreignEventID @ ''?''\<rparr>,
       \<lparr>sc_name = ''composition'',
        sc_prompt = ''For event '' @ eventID @ '', is there a room free on '' @ date @ ''? Work out the event's local date from its timezone, list what's booked that day, and tell me which room (if any) has nothing scheduled.''\<rparr>])"

section \<open>main.go\<close>

text \<open>A flag that is not given has its default; \<open>getenv\<close> is the environment, empty for what is not set.\<close>

record agent_flags =
  fl_scenario :: "int option"
  fl_token :: "string option"
  fl_base_url :: "string option"
  fl_anthropic_key :: "string option"
  fl_model :: "string option"
  fl_event_id :: "string option"
  fl_foreign_event_id :: "string option"
  fl_local_date :: "string option"

definition envOr :: "(string \<Rightarrow> string) \<Rightarrow> string \<Rightarrow> string \<Rightarrow> string" where
  "envOr getenv key fallback = (if getenv key \<noteq> [] then getenv key else fallback)"

definition given :: "'a option \<Rightarrow> 'a \<Rightarrow> 'a" where
  "given flag d = (case flag of None \<Rightarrow> d | Some v \<Rightarrow> v)"

text \<open>\<open>model_of\<close> makes the model client from the key and the model's name.\<close>

definition agent_main :: "texts \<Rightarrow> (string \<Rightarrow> string \<Rightarrow> 'm model) \<Rightarrow> 'w transport \<Rightarrow> (string \<Rightarrow> string) \<Rightarrow> agent_flags \<Rightarrow> 'm \<Rightarrow> 'w \<Rightarrow>
    (string + string) \<times> 'm \<times> 'w" where
  "agent_main tx model_of send getenv fl m w =
     (let scenario = given (fl_scenario fl) 0; token = given (fl_token fl) (getenv ''KRANE_TOKEN'');
          baseURL = given (fl_base_url fl) ''http://localhost:8080'';
          key = given (fl_anthropic_key fl) (getenv ''ANTHROPIC_API_KEY'');
          model = given (fl_model fl) (envOr getenv ''ANTHROPIC_MODEL'' ''claude-sonnet-5'');
          eventID = given (fl_event_id fl) []; foreignEventID = given (fl_foreign_event_id fl) [];
          localDate = given (fl_local_date fl) [] in
      if scenario < 1 \<or> 3 < scenario then (Inl ''-scenario must be 1, 2, or 3'', m, w)
      else if token = [] then (Inl ''no bearer token: pass -token or set KRANE_TOKEN (see `make token USER=...`)'', m, w)
      else if key = [] then (Inl ''no Anthropic API key: pass -anthropic-key or set ANTHROPIC_API_KEY'', m, w)
      else if scenario = 2 \<and> foreignEventID = [] then (Inl ''-foreign-event-id is required for scenario 2'', m, w)
      else if scenario = 3 \<and> eventID = [] then (Inl ''-event-id is required for scenario 3'', m, w)
      else let chosen = Scenarios eventID foreignEventID localDate ! nat (scenario - 1) in
           case Run tx (model_of key model) send (NewClient baseURL token) systemPrompt (sc_prompt chosen) m w of
             (Inl e, m', w') \<Rightarrow> (Inl (''running scenario '' @ tx_quote tx (sc_name chosen) @ '': '' @ e), m', w')
           | (Inr final, m', w') \<Rightarrow> (Inr final, m', w'))"

section \<open>What every run keeps\<close>

text \<open>
  The interface between the agent and the two services it talks to: \<open>P\<close> is kept by every model call
  and by every \<open>GET\<close> with the caller's token.
\<close>

locale agent_services =
  fixes model :: "'m model" and send :: "'w transport" and client :: api_client and P :: "'m \<Rightarrow> 'w \<Rightarrow> bool"
  assumes model_keeps: "P m w \<Longrightarrow> P (snd (model rq m)) w"
    and api_keeps: "P m w \<Longrightarrow> P m (snd (send (get_request client path) w))"
begin

lemma dispatch_keeps: "P m w \<Longrightarrow> P m (snd (Dispatch tx send client name input w))"
  using Dispatch_sends [of tx send client name input w] api_keeps by (elim disjE exE) simp_all

lemma calls_keep: "P m w \<Longrightarrow> P m (snd (run_calls tx send client bs w))"
proof (induction bs arbitrary: w)
  case (Cons b bs)
  show ?case
  proof (cases "is_call b")
    case True
    obtain r w' where d: "Dispatch tx send client (cb_name b) (cb_input b) w = (r, w')" by (cases "Dispatch tx send client (cb_name b) (cb_input b) w")
    then have "P m w'" using dispatch_keeps [OF Cons.prems, of tx "cb_name b" "cb_input b"] by simp
    then have "P m (snd (run_calls tx send client bs w'))" by (rule Cons.IH)
    then show ?thesis
      using d True \<open>P m w'\<close> by (cases r; cases "run_calls tx send client bs w'"; cases "fst (run_calls tx send client bs w')") simp_all
  qed (use Cons in simp)
qed simp

lemma turns_keep: "P m w \<Longrightarrow> case run_turns tx model send client system k ms m w of (r, m', w') \<Rightarrow> P m' w'"
proof (induction k arbitrary: ms m w)
  case (Suc k)
  let ?rq = "\<lparr>mrq_system = system, mrq_messages = ms, mrq_tools = ToolDefinitions\<rparr>"
  obtain a m' where a: "model ?rq m = (a, m')" by (cases "model ?rq m")
  then have m': "P m' w" using model_keeps [OF Suc.prems, of ?rq] by simp
  show ?case
  proof (cases a)
    case (Inl e)
    then show ?thesis using a m' by simp
  next
    case (Inr resp)
    obtain r w' where c: "run_calls tx send client (mrs_content resp) w = (r, w')"
      by (cases "run_calls tx send client (mrs_content resp) w")
    then have w': "P m' w'" using calls_keep [OF m', of tx "mrs_content resp"] by simp
    show ?thesis using a Inr c m' w' Suc.IH [OF w'] by (cases r) simp_all
  qed
qed simp

lemma run_keeps: "P m w \<Longrightarrow> case Run tx model send client system prompt m w of (r, m', w') \<Rightarrow> P m' w'"
  unfolding Run_def by (rule turns_keep)

end


section \<open>What the model is shown\<close>

text \<open>
  \<open>recorded\<close> keeps every request the model gets. A request is in order when it opens with the prompt,
  goes on in rounds, and each round answers exactly the calls of the assistant's message, in order.
\<close>

definition recorded :: "'m model \<Rightarrow> (model_request list \<times> 'm) model" where
  "recorded model rq lm = (case model rq (snd lm) of (a, m') \<Rightarrow> (a, (fst lm @ [rq], m')))"

definition answers_calls :: "message \<Rightarrow> message \<Rightarrow> bool" where
  "answers_calls a u = (msg_role a = ''assistant'' \<and> msg_role u = ''user'' \<and>
     map cb_tool_use_id (msg_content u) = map cb_id (filter is_call (msg_content a)) \<and>
     list_all (\<lambda>r. cb_type r = ''tool_result'') (msg_content u))"

fun rounds_ok :: "message list \<Rightarrow> bool" where
  "rounds_ok [] = True"
| "rounds_ok [a] = False"
| "rounds_ok (a # u # ms) = (answers_calls a u \<and> rounds_ok ms)"

definition request_ok :: "string \<Rightarrow> string \<Rightarrow> nat \<Rightarrow> model_request \<Rightarrow> bool" where
  "request_ok system prompt turn rq =
     (mrq_system rq = system \<and> mrq_tools rq = ToolDefinitions \<and> length (mrq_messages rq) = 2 * turn + 1 \<and>
      hd (mrq_messages rq) = user_message [text_block prompt] \<and> rounds_ok (tl (mrq_messages rq)))"

lemma rounds_ok_snoc: "rounds_ok ms \<Longrightarrow> answers_calls a u \<Longrightarrow> rounds_ok (ms @ [a, u])"
  by (induction ms rule: rounds_ok.induct) auto

lemma run_calls_answer:
  "run_calls tx send c bs w = (Inr rs, w') \<Longrightarrow> answers_calls (assistant_message bs) (user_message rs)"
proof (induction bs arbitrary: w rs)
  case Nil
  then show ?case by (simp add: answers_calls_def assistant_message_def user_message_def)
next
  case (Cons b bs)
  show ?case
  proof (cases "is_call b")
    case False
    then show ?thesis
      using Cons.IH [of w rs] Cons.prems by (simp add: answers_calls_def assistant_message_def user_message_def)
  next
    case True
    obtain r w1 where d: "Dispatch tx send c (cb_name b) (cb_input b) w = (r, w1)"
      by (cases "Dispatch tx send c (cb_name b) (cb_input b) w")
    obtain q w2 where c: "run_calls tx send c bs w1 = (q, w2)" by (cases "run_calls tx send c bs w1")
    from Cons.prems True d c obtain x y where q: "r = Inr x" "q = Inr y" "rs = result_block (cb_id b) x # y" "w' = w2"
      by (cases r; cases q) auto
    then have "answers_calls (assistant_message bs) (user_message y)" using Cons.IH c by simp
    then show ?thesis
      using True by (simp add: q(3) answers_calls_def assistant_message_def user_message_def result_block_def content_block_zero_def)
  qed
qed

lemma turns_recorded:
  assumes "rounds_ok (tl ms)" "hd ms = user_message [text_block prompt]" "length ms = 2 * length l + 1"
    and "run_turns tx (recorded model) send c system k ms (l, m) w = (r, (l', m'), w')"
  shows "\<exists>new. l' = l @ new \<and> length new \<le> k \<and>
    (\<forall>i < length new. request_ok system prompt (length l + i) (new ! i))"
  using assms
proof (induction k arbitrary: ms l m w)
  case 0
  then show ?case by simp
next
  case (Suc k)
  let ?rq = "\<lparr>mrq_system = system, mrq_messages = ms, mrq_tools = ToolDefinitions\<rparr>"
  have ok: "request_ok system prompt (length l) ?rq" using Suc.prems(1-3) by (simp add: request_ok_def)
  obtain a m1 where a: "model ?rq m = (a, m1)" by (cases "model ?rq m")
  then have rec: "recorded model ?rq (l, m) = (a, (l @ [?rq], m1))" by (simp add: recorded_def)
  have one: "\<exists>new. l @ [?rq] = l @ new \<and> length new \<le> Suc k \<and> (\<forall>i < length new. request_ok system prompt (length l + i) (new ! i))"
    using ok by (intro exI [of _ "[?rq]"]) simp
  show ?case
  proof (cases "\<exists>resp results w1. a = Inr resp \<and> mrs_stop_reason resp = ''tool_use'' \<and>
      run_calls tx send c (mrs_content resp) w = (Inr results, w1)")
    case False
    then have "l' = l @ [?rq]"
      using Suc.prems(4) rec
      by (cases a; cases "run_calls tx send c (mrs_content (projr a)) w"; cases "fst (run_calls tx send c (mrs_content (projr a)) w)")
        (auto split: if_splits)
    then show ?thesis using one by blast
  next
    case True
    then obtain resp results w1 where t: "a = Inr resp" "mrs_stop_reason resp = ''tool_use''"
      "run_calls tx send c (mrs_content resp) w = (Inr results, w1)" by blast
    let ?ms = "ms @ [assistant_message (mrs_content resp), user_message results]"
    have next_run: "run_turns tx (recorded model) send c system k ?ms (l @ [?rq], m1) w1 = (r, (l', m'), w')"
      using Suc.prems(4) rec t by simp
    have "ms \<noteq> []" using Suc.prems(3) by auto
    then have "rounds_ok (tl ?ms)" "hd ?ms = user_message [text_block prompt]" "length ?ms = 2 * length (l @ [?rq]) + 1"
      using Suc.prems(1-3) rounds_ok_snoc run_calls_answer [OF t(3)] by auto
    from Suc.IH [OF this next_run] obtain new where new: "l' = (l @ [?rq]) @ new" "length new \<le> k"
      "\<forall>i < length new. request_ok system prompt (length (l @ [?rq]) + i) (new ! i)" by blast
    have "request_ok system prompt (length l + i) ((?rq # new) ! i)" if "i < length (?rq # new)" for i
      using that ok new(3) by (cases i) auto
    then show ?thesis using new by (intro exI [of _ "?rq # new"]) auto
  qed
qed

lemma run_recorded:
  assumes "Run tx (recorded model) send c system prompt ([], m) w = (r, (l, m'), w')"
  shows "length l \<le> maxAgentTurns \<and> (\<forall>i < length l. request_ok system prompt i (l ! i))"
proof -
  have "\<exists>new. l = [] @ new \<and> length new \<le> maxAgentTurns \<and> (\<forall>i < length new. request_ok system prompt (length ([] :: model_request list) + i) (new ! i))"
    by (rule turns_recorded [OF _ _ _ assms [unfolded Run_def]]) simp_all
  then show ?thesis by simp
qed

end
