(* ===== verification/Response_Json.thy ===== *)
theory Response_Json
  imports Http Json_Print
begin

text \<open>
  The bytes of an answer: the struct tags of internal/http/response and the encoder every handler
  writes a body with. Nil pointers are \<open>null\<close> unless their tag says omitempty, map keys are sorted, and
  the text ends with a line feed. \<open>time.Time\<close> refuses to print a year that has not four digits or an
  offset of a day or more; the encoder then writes nothing after the status.
\<close>

section \<open>Scalars\<close>

definition json_time :: "location \<Rightarrow> time \<Rightarrow> json" where
  "json_time loc t = JStr (format_rfc3339_nano loc t)"

definition time_encodes :: "location \<Rightarrow> time \<Rightarrow> bool" where
  "time_encodes loc t = (year_0_9999 (wall_clock loc (t div ns_per_s)) \<and> \<bar>offset_at loc (t div ns_per_s)\<bar> < 86400)"

definition fixed_zone :: "int \<Rightarrow> location" where
  "fixed_zone off u = (off, - 9223372036854775808, 9223372036854775807)"

definition json_local :: "local_instant \<Rightarrow> json" where
  "json_local li = json_time (fixed_zone (li_offset li)) (li_instant li)"

definition local_encodes :: "local_instant \<Rightarrow> bool" where
  "local_encodes li = time_encodes (fixed_zone (li_offset li)) (li_instant li)"

text \<open>Keys of a map in the order of their bytes.\<close>

fun key_before :: "string \<Rightarrow> string \<Rightarrow> bool" where
  "key_before [] k = True"
| "key_before (x # xs) [] = False"
| "key_before (x # xs) (y # ys) = ((of_char x :: nat) < of_char y \<or> x = y \<and> key_before xs ys)"

fun insert_member :: "string \<times> json \<Rightarrow> (string \<times> json) list \<Rightarrow> (string \<times> json) list" where
  "insert_member m [] = [m]"
| "insert_member m (n # ns) = (if key_before (fst m) (fst n) then m # n # ns else n # insert_member m ns)"

definition json_map :: "(string \<times> json) list \<Rightarrow> json" where
  "json_map ms = JObj (map (\<lambda>(k, v). (json_escape k, v)) (foldr insert_member ms []))"

section \<open>Bodies\<close>

definition event_json :: "env \<Rightarrow> event_response \<Rightarrow> json" where
  "event_json env e = JObj
     [(''id'', json_text (en_text env (evr_id e))), (''name'', json_text (evr_name e)),
      (''description'', json_pointer json_text (evr_description e)), (''timezone'', json_text (evr_timezone e)),
      (''starts_at'', json_time (en_host env) (evr_starts_at e)), (''ends_at'', json_time (en_host env) (evr_ends_at e)),
      (''version'', json_int (evr_version e)),
      (''created_at'', json_time (en_host env) (evr_created_at e)), (''updated_at'', json_time (en_host env) (evr_updated_at e))]"

definition member_json :: "env \<Rightarrow> member_response \<Rightarrow> json" where
  "member_json env m = JObj
     ([(''id'', json_text (en_text env (mbr_id m))), (''event_id'', json_text (en_text env (mbr_event_id m))),
       (''user_id'', json_text (en_text env (mbr_user_id m)))] @
      omit_empty ''user_email'' json_text (mbr_user_email m) @
      [(''user_name'', json_text (mbr_user_name m)), (''role'', json_text (mbr_role m)), (''version'', json_int (mbr_version m)),
       (''created_at'', json_time (en_host env) (mbr_created_at m)), (''updated_at'', json_time (en_host env) (mbr_updated_at m))])"

definition room_json :: "env \<Rightarrow> room_response \<Rightarrow> json" where
  "room_json env r = JObj
     [(''id'', json_text (en_text env (rmr_id r))), (''event_id'', json_text (en_text env (rmr_event_id r))),
      (''name'', json_text (rmr_name r)), (''capacity'', json_pointer json_int (rmr_capacity r)),
      (''version'', json_int (rmr_version r)),
      (''created_at'', json_time (en_host env) (rmr_created_at r)), (''updated_at'', json_time (en_host env) (rmr_updated_at r))]"

definition session_members :: "env \<Rightarrow> session_response \<Rightarrow> (string \<times> json) list" where
  "session_members env s =
     [(''id'', json_text (en_text env (ser_id s))), (''event_id'', json_text (en_text env (ser_event_id s))),
      (''room_id'', json_text (en_text env (ser_room_id s))), (''speaker_id'', json_text (en_text env (ser_speaker_id s))),
      (''title'', json_text (ser_title s)), (''description'', json_pointer json_text (ser_description s)),
      (''starts_at'', json_local (ser_starts_at s)), (''ends_at'', json_local (ser_ends_at s)),
      (''duration_minutes'', json_int (ser_duration_minutes s)), (''version'', json_int (ser_version s)),
      (''created_at'', json_time (en_host env) (ser_created_at s)), (''updated_at'', json_time (en_host env) (ser_updated_at s))]"

definition session_json :: "env \<Rightarrow> session_response \<Rightarrow> json" where
  "session_json env s = JObj (session_members env s @
     omit_empty ''room_name'' json_text (ser_room_name s) @ omit_empty ''speaker_name'' json_text (ser_speaker_name s))"

definition occurrence_json :: "env \<Rightarrow> series_occurrence_response \<Rightarrow> json" where
  "occurrence_json env x = JObj
     ([(''starts_at'', json_local (sro_starts_at x)), (''status'', json_text (sro_status x))] @
      omit_empty ''session_id'' (\<lambda>u. json_text (en_text env u)) (sro_session_id x))"

definition series_json :: "env \<Rightarrow> series_response \<Rightarrow> json" where
  "series_json env x = JObj
     [(''id'', json_text (en_text env (srr_id x))), (''event_id'', json_text (en_text env (srr_event_id x))),
      (''room_id'', json_text (en_text env (srr_room_id x))), (''speaker_id'', json_text (en_text env (srr_speaker_id x))),
      (''title'', json_text (srr_title x)), (''description'', json_pointer json_text (srr_description x)),
      (''freq'', json_text (srr_freq x)), (''interval_count'', json_int (srr_interval_count x)),
      (''occurrences'', JArr (map (occurrence_json env) (srr_occurrences x))),
      (''created_at'', json_time (en_host env) (srr_created_at x))]"

definition invitation_json :: "env \<Rightarrow> invitation_response \<Rightarrow> json" where
  "invitation_json env i = JObj
     [(''id'', json_text (en_text env (ivr_id i))), (''event_id'', json_text (en_text env (ivr_event_id i))),
      (''user_id'', json_pointer (\<lambda>u. json_text (en_text env u)) (ivr_user_id i)),
      (''email'', json_text (ivr_email i)), (''role'', json_text (ivr_role i)),
      (''created_at'', json_time (en_host env) (ivr_created_at i)), (''updated_at'', json_time (en_host env) (ivr_updated_at i))]"

definition bulk_json :: "env \<Rightarrow> bulk_invite_response \<Rightarrow> json" where
  "bulk_json env b = JObj
     [(''results'', JArr (map (\<lambda>x. JObj ([(''email'', json_text (bii_email x)), (''status'', json_text (bii_status x))] @
        omit_empty ''invitation_id'' (\<lambda>u. json_text (en_text env u)) (bii_invitation_id x))) (bvs_results b)))]"

definition list_json :: "('a \<Rightarrow> json) \<Rightarrow> 'a list_response \<Rightarrow> json" where
  "list_json f l = JObj ((''data'', JArr (map f (lr_data l))) # omit_empty ''next_cursor'' json_text (lr_next_cursor l))"

fun issue_json :: "issue \<Rightarrow> json" where
  "issue_json (Issue m) = json_text m"
| "issue_json (Items xs) = JArr (map (\<lambda>ms. json_map (map (\<lambda>m. (fst m, issue_json (snd m))) ms)) xs)"

fun body_json :: "env \<Rightarrow> body \<Rightarrow> json"
  and details_json :: "env \<Rightarrow> details \<Rightarrow> json" where
  "body_json env NoBody = JNull"
| "body_json env HealthBody = json_map [(''status'', json_text ''ok''), (''database'', json_text ''ok'')]"
| "body_json env (EventBody e) = event_json env e"
| "body_json env (EventListBody l) = list_json (event_json env) l"
| "body_json env (MemberBody m) = member_json env m"
| "body_json env (MemberListBody l) = list_json (member_json env) l"
| "body_json env (RoomBody r) = room_json env r"
| "body_json env (RoomListBody l) = list_json (room_json env) l"
| "body_json env (SessionBody s) = session_json env s"
| "body_json env (SessionListBody l) = list_json (session_json env) l"
| "body_json env (SeriesBody x) = series_json env x"
| "body_json env (InvitationBody i) = invitation_json env i"
| "body_json env (InvitationListBody l) = list_json (invitation_json env) l"
| "body_json env (BulkInviteBody b) = bulk_json env b"
| "body_json env (TextBody t) = JNull"
| "body_json env (Envelope code message d) = JObj [(''error'', JObj
     [(''code'', json_text code), (''message'', json_text message), (''details'', details_json env d)])]"
| "details_json env NoDetails = JObj []"
| "details_json env (Issues xs) = json_map (map (\<lambda>(k, i). (k, issue_json i)) xs)"
| "details_json env (Current b) = JObj [(''current'', case b of None \<Rightarrow> JNull | Some b \<Rightarrow> body_json env b)]"

section \<open>What can be printed\<close>

definition event_encodes :: "env \<Rightarrow> event_response \<Rightarrow> bool" where
  "event_encodes env e = list_all (time_encodes (en_host env)) [evr_starts_at e, evr_ends_at e, evr_created_at e, evr_updated_at e]"

definition member_encodes :: "env \<Rightarrow> member_response \<Rightarrow> bool" where
  "member_encodes env m = list_all (time_encodes (en_host env)) [mbr_created_at m, mbr_updated_at m]"

definition room_encodes :: "env \<Rightarrow> room_response \<Rightarrow> bool" where
  "room_encodes env r = list_all (time_encodes (en_host env)) [rmr_created_at r, rmr_updated_at r]"

definition session_encodes :: "env \<Rightarrow> session_response \<Rightarrow> bool" where
  "session_encodes env s = (list_all (time_encodes (en_host env)) [ser_created_at s, ser_updated_at s] \<and>
     list_all local_encodes [ser_starts_at s, ser_ends_at s])"

definition series_encodes :: "env \<Rightarrow> series_response \<Rightarrow> bool" where
  "series_encodes env x = (time_encodes (en_host env) (srr_created_at x) \<and>
     list_all (\<lambda>x. local_encodes (sro_starts_at x)) (srr_occurrences x))"

definition invitation_encodes :: "env \<Rightarrow> invitation_response \<Rightarrow> bool" where
  "invitation_encodes env i = list_all (time_encodes (en_host env)) [ivr_created_at i, ivr_updated_at i]"

fun body_encodes :: "env \<Rightarrow> body \<Rightarrow> bool" where
  "body_encodes env (EventBody e) = event_encodes env e"
| "body_encodes env (EventListBody l) = list_all (event_encodes env) (lr_data l)"
| "body_encodes env (MemberBody m) = member_encodes env m"
| "body_encodes env (MemberListBody l) = list_all (member_encodes env) (lr_data l)"
| "body_encodes env (RoomBody r) = room_encodes env r"
| "body_encodes env (RoomListBody l) = list_all (room_encodes env) (lr_data l)"
| "body_encodes env (SessionBody s) = session_encodes env s"
| "body_encodes env (SessionListBody l) = list_all (session_encodes env) (lr_data l)"
| "body_encodes env (SeriesBody x) = series_encodes env x"
| "body_encodes env (InvitationBody i) = invitation_encodes env i"
| "body_encodes env (InvitationListBody l) = list_all (invitation_encodes env) (lr_data l)"
| "body_encodes env (Envelope code message (Current (Some b))) = body_encodes env b"
| "body_encodes env b = True"

section \<open>The bytes\<close>

text \<open>\<open>http.Error\<close> writes its text and a line feed, the encoder a value and a line feed.\<close>

definition body_bytes :: "env \<Rightarrow> body \<Rightarrow> string" where
  "body_bytes env b = (case b of
       NoBody \<Rightarrow> []
     | TextBody t \<Rightarrow> t @ [CHR 0x0A]
     | _ \<Rightarrow> if body_encodes env b then print_json (body_json env b) @ [CHR 0x0A] else [])"


section \<open>Every answer is read back\<close>

lemma scans_key: "list_all plain k \<Longrightarrow> scans k"
  by (rule scans_plain)

lemmas key_chars = plain_def byte_in_def

lemma scannable_time: "time_encodes loc t \<Longrightarrow> scannable (json_time loc t)"
  by (simp add: time_encodes_def json_time_def scans_plain plain_rfc3339)

lemma scannable_local: "local_encodes li \<Longrightarrow> scannable (json_local li)"
  by (simp add: local_encodes_def json_local_def scannable_time)

lemma insert_member_set: "set (insert_member m ms) = insert m (set ms)"
  by (induction ms) auto

lemma scannable_map: "scannable (json_map ms) \<longleftrightarrow> (\<forall>m \<in> set ms. scannable (snd m))"
proof -
  have "set (foldr insert_member ms []) = set ms" by (induction ms) (simp_all add: insert_member_set)
  then show ?thesis by (auto simp: json_map_def scans_escaped)
qed

lemma scannable_members: "(\<And>m. m \<in> set ms \<Longrightarrow> list_all plain (fst m) \<and> scannable (snd m)) \<Longrightarrow> scannable (JObj ms)"
  by (auto intro: scans_plain)

lemma plain_optional: "(\<And>y. scannable (f y)) \<Longrightarrow> list_all plain k \<Longrightarrow> m \<in> set (omit_empty k f x) \<Longrightarrow>
    list_all plain (fst m) \<and> scannable (snd m)"
  by (auto simp: omit_empty_def split: option.splits)

lemma event_scannable: "event_encodes env e \<Longrightarrow> scannable (event_json env e)"
  unfolding event_json_def by (rule scannable_members) (auto simp: event_encodes_def scannable_time key_chars)

lemma member_scannable: "member_encodes env m \<Longrightarrow> scannable (member_json env m)"
  unfolding member_json_def
  by (rule scannable_members) (auto simp: member_encodes_def scannable_time key_chars omit_empty_def split: option.splits)

lemma room_scannable: "room_encodes env r \<Longrightarrow> scannable (room_json env r)"
  unfolding room_json_def by (rule scannable_members) (auto simp: room_encodes_def scannable_time key_chars)

lemma session_scannable: "session_encodes env s \<Longrightarrow> scannable (session_json env s)"
  unfolding session_json_def session_members_def
  by (rule scannable_members) (auto simp: session_encodes_def scannable_time scannable_local key_chars omit_empty_def split: option.splits)

lemma occurrence_scannable: "local_encodes (sro_starts_at x) \<Longrightarrow> scannable (occurrence_json env x)"
  unfolding occurrence_json_def
  by (rule scannable_members) (auto simp: scannable_local key_chars omit_empty_def split: option.splits)

lemma series_scannable: "series_encodes env x \<Longrightarrow> scannable (series_json env x)"
  unfolding series_json_def
  by (rule scannable_members) (auto simp: series_encodes_def scannable_time occurrence_scannable list_all_iff key_chars)

lemma invitation_scannable: "invitation_encodes env i \<Longrightarrow> scannable (invitation_json env i)"
  unfolding invitation_json_def
  by (rule scannable_members) (auto simp: invitation_encodes_def scannable_time key_chars)

lemma bulk_item_scannable: "scannable (JObj ([(''email'', json_text e), (''status'', json_text t)] @
    omit_empty ''invitation_id'' (\<lambda>u. json_text (f u)) x))"
  by (rule scannable_members) (auto simp: key_chars omit_empty_def split: option.splits)

lemma bulk_scannable: "scannable (bulk_json env b)"
  unfolding bulk_json_def
  by (rule scannable_members) (use bulk_item_scannable in \<open>auto simp: key_chars simp del: append.simps\<close>)

lemma list_scannable: "list_all enc (lr_data l) \<Longrightarrow> (\<And>x. enc x \<Longrightarrow> scannable (f x)) \<Longrightarrow> scannable (list_json f l)"
  unfolding list_json_def
  by (rule scannable_members) (auto simp: list_all_iff key_chars omit_empty_def split: option.splits)

lemma issue_scannable: "scannable (issue_json i)"
  by (induction i rule: issue_json.induct) (auto simp: scannable_map)

lemma body_scannable:
  "body_encodes env b \<Longrightarrow> scannable (body_json env b)"
  "(\<forall>b. d = Current (Some b) \<longrightarrow> body_encodes env b) \<Longrightarrow> scannable (details_json env d)"
proof (induction env b and env d rule: body_json_details_json.induct)
  case (16 env code message d)
  have "scannable (details_json env d)"
  proof (rule 16(1), intro allI impI)
    fix b assume "d = Current (Some b)"
    then show "body_encodes env b" using 16(2) by simp
  qed
  then have "scannable (JObj [(''code'', json_text code), (''message'', json_text message), (''details'', details_json env d)])"
    by (intro scannable_members) (auto simp: key_chars)
  then show ?case
    unfolding body_json.simps by (intro scannable_members) (auto simp: key_chars simp del: scannable.simps)
next
  case (19 env b)
  then have "scannable (case b of None \<Rightarrow> JNull | Some b \<Rightarrow> body_json env b)" by (cases b) auto
  then show ?case
    unfolding details_json.simps by (intro scannable_members) (auto simp: key_chars simp del: scannable.simps)
qed (simp_all add: event_scannable member_scannable room_scannable session_scannable series_scannable invitation_scannable
  bulk_scannable list_scannable scannable_map issue_scannable case_prod_beta)

lemma answer_parses:
  assumes "body_encodes env b" "b \<noteq> NoBody" "\<forall>t. b \<noteq> TextBody t" "json_depth (body_json env b) \<le> 10000"
  shows "json_whole (body_bytes env b) = Some (body_json env b)"
proof -
  have "body_bytes env b = print_json (body_json env b) @ [CHR 0x0A]"
    using assms(1-3) by (cases b) (auto simp: body_bytes_def)
  then show ?thesis
    using json_whole_print [OF printable_depth [OF body_scannable(1) [OF assms(1)] assms(4)]] by simp
qed

end
