(* ===== verification/Agent_Decode.thy ===== *)
theory Agent_Decode
  imports Agent_Tools Response_Json
begin

text \<open>
  What the agent's client makes of the backend's answers: the bytes of a 200 are decoded and printed
  again as they were, of a session without the names of its room and speaker, which the client does
  not know; an error envelope becomes its code and message.
\<close>

section \<open>Fields\<close>

lemma decode_member:
  "list_all plain k \<Longrightarrow> map_of fs k = Some f \<Longrightarrow>
     decode_members fs ((k, v) # ms) z = Option.bind (f v z) (decode_members fs ms)"
  by (simp add: unquote_plain find_field_def)

lemma decode_unknown:
  "list_all plain k \<Longrightarrow> list_all (\<lambda>n. n \<noteq> k \<and> fold_key n \<noteq> fold_key k) (map fst fs) \<Longrightarrow>
     decode_members fs ((k, v) # ms) z = decode_members fs ms z"
proof -
  assume k: "list_all plain k" "list_all (\<lambda>n. n \<noteq> k \<and> fold_key n \<noteq> fold_key k) (map fst fs)"
  have "map_of fs k = None" using k(2) by (induction fs) auto
  moreover have "find (\<lambda>(n, f). fold_key n = fold_key k) fs = None" using k(2) by (induction fs) auto
  ultimately show ?thesis by (simp add: find_field_def unquote_plain k(1))
qed

lemma string_field: "utf8 s \<Longrightarrow> in_field get upd to_string (json_text s) z = Some (upd (\<lambda>_. s) z)"
  by (simp add: in_field_def json_text_def unquote_escape)

lemma plain_time: "time_encodes loc t \<Longrightarrow> list_all plain (format_rfc3339_nano loc t)"
  by (simp add: time_encodes_def plain_rfc3339)

lemma time_field: "time_encodes loc t \<Longrightarrow> in_field get upd to_string (json_time loc t) z = Some (upd (\<lambda>_. format_rfc3339_nano loc t) z)"
  by (simp add: in_field_def json_time_def unquote_plain plain_time)

lemma int_field: "int64 n \<Longrightarrow> in_field get upd to_int (json_int n) z = Some (upd (\<lambda>_. n) z)"
  by (simp add: in_field_def json_int_def atoi_int_text)

lemma string_pointer_field:
  "pred_option utf8 x \<Longrightarrow> in_field get upd (to_pointer to_string []) (json_pointer json_text x) z = Some (upd (\<lambda>_. x) z)"
  by (cases x) (simp_all add: in_field_def to_pointer_def json_pointer_def json_text_def unquote_escape)

lemma int_pointer_field:
  "pred_option int64 x \<Longrightarrow> in_field get upd (to_pointer to_int 0) (json_pointer json_int x) z = Some (upd (\<lambda>_. x) z)"
  by (cases x) (simp_all add: in_field_def to_pointer_def json_pointer_def json_int_def atoi_int_text)

lemma json_time_text: "time_encodes loc t \<Longrightarrow> json_text (format_rfc3339_nano loc t) = json_time loc t"
  by (simp add: json_text_def json_time_def json_escape_plain plain_time)

lemmas fields_read = string_field time_field int_field string_pointer_field int_pointer_field

section \<open>Events\<close>

definition event_readable :: "env \<Rightarrow> event_response \<Rightarrow> bool" where
  "event_readable env e = (event_encodes env e \<and> list_all utf8 [en_text env (evr_id e), evr_name e, evr_timezone e] \<and>
     pred_option utf8 (evr_description e) \<and> int64 (evr_version e))"

definition seen_event :: "env \<Rightarrow> event_response \<Rightarrow> agent_event" where
  "seen_event env e = \<lparr>age_id = en_text env (evr_id e), age_name = evr_name e, age_description = evr_description e,
     age_timezone = evr_timezone e, age_starts_at = format_rfc3339_nano (en_host env) (evr_starts_at e),
     age_ends_at = format_rfc3339_nano (en_host env) (evr_ends_at e), age_version = evr_version e,
     age_created_at = format_rfc3339_nano (en_host env) (evr_created_at e),
     age_updated_at = format_rfc3339_nano (en_host env) (evr_updated_at e)\<rparr>"

lemma event_decodes:
  assumes "event_readable env e"
  shows "decode_struct agent_event_fields (event_json env e) agent_event_zero = Some (seen_event env e)"
  using assms unfolding decode_struct_def event_json_def json.case agent_event_fields_def
  by (simp add: decode_member key_chars fields_read event_readable_def event_encodes_def agent_event_zero_def seen_event_def
      del: decode_members.simps(2))

lemma event_printed: "event_readable env e \<Longrightarrow> agent_event_json (seen_event env e) = event_json env e"
  by (simp add: agent_event_json_def event_json_def seen_event_def event_readable_def event_encodes_def json_time_text)

section \<open>Rooms\<close>

definition room_readable :: "env \<Rightarrow> room_response \<Rightarrow> bool" where
  "room_readable env r = (room_encodes env r \<and> list_all utf8 [en_text env (rmr_id r), en_text env (rmr_event_id r), rmr_name r] \<and>
     pred_option int64 (rmr_capacity r) \<and> int64 (rmr_version r))"

definition seen_room :: "env \<Rightarrow> room_response \<Rightarrow> agent_room" where
  "seen_room env r = \<lparr>agr_id = en_text env (rmr_id r), agr_event_id = en_text env (rmr_event_id r), agr_name = rmr_name r,
     agr_capacity = rmr_capacity r, agr_version = rmr_version r,
     agr_created_at = format_rfc3339_nano (en_host env) (rmr_created_at r),
     agr_updated_at = format_rfc3339_nano (en_host env) (rmr_updated_at r)\<rparr>"

lemma room_decodes:
  assumes "room_readable env r"
  shows "decode_struct agent_room_fields (room_json env r) agent_room_zero = Some (seen_room env r)"
  using assms unfolding decode_struct_def room_json_def json.case agent_room_fields_def
  by (simp add: decode_member key_chars fields_read room_readable_def room_encodes_def agent_room_zero_def seen_room_def
      del: decode_members.simps(2))

lemma room_printed: "room_readable env r \<Longrightarrow> agent_room_json (seen_room env r) = room_json env r"
  by (simp add: agent_room_json_def room_json_def seen_room_def room_readable_def room_encodes_def json_time_text)

section \<open>Sessions\<close>

definition local_text :: "local_instant \<Rightarrow> string" where
  "local_text li = format_rfc3339_nano (fixed_zone (li_offset li)) (li_instant li)"

definition session_readable :: "env \<Rightarrow> session_response \<Rightarrow> bool" where
  "session_readable env s = (session_encodes env s \<and>
     list_all utf8 [en_text env (ser_id s), en_text env (ser_event_id s), en_text env (ser_room_id s),
       en_text env (ser_speaker_id s), ser_title s] \<and>
     pred_option utf8 (ser_description s) \<and> int64 (ser_duration_minutes s) \<and> int64 (ser_version s))"

definition seen_session :: "env \<Rightarrow> session_response \<Rightarrow> agent_session" where
  "seen_session env s = \<lparr>ags_id = en_text env (ser_id s), ags_event_id = en_text env (ser_event_id s),
     ags_room_id = en_text env (ser_room_id s), ags_speaker_id = en_text env (ser_speaker_id s), ags_title = ser_title s,
     ags_description = ser_description s, ags_starts_at = local_text (ser_starts_at s), ags_ends_at = local_text (ser_ends_at s),
     ags_duration_minutes = ser_duration_minutes s, ags_version = ser_version s,
     ags_created_at = format_rfc3339_nano (en_host env) (ser_created_at s),
     ags_updated_at = format_rfc3339_nano (en_host env) (ser_updated_at s)\<rparr>"

lemma local_field: "local_encodes li \<Longrightarrow> in_field get upd to_string (json_local li) z = Some (upd (\<lambda>_. local_text li) z)"
  by (simp add: local_encodes_def json_local_def time_field local_text_def)

lemma json_local_text: "local_encodes li \<Longrightarrow> json_text (local_text li) = json_local li"
  by (simp add: local_encodes_def json_local_def json_time_text local_text_def)

lemma names_unknown:
  "list_all (\<lambda>n. n \<noteq> ''room_name'' \<and> fold_key n \<noteq> fold_key ''room_name'') (map fst agent_session_fields)"
  "list_all (\<lambda>n. n \<noteq> ''speaker_name'' \<and> fold_key n \<noteq> fold_key ''speaker_name'') (map fst agent_session_fields)"
proof -
  have k: "map fst agent_session_fields = [''id'', ''event_id'', ''room_id'', ''speaker_id'', ''title'', ''description'', ''starts_at'',
      ''ends_at'', ''duration_minutes'', ''version'', ''created_at'', ''updated_at'']" by (simp add: agent_session_fields_def)
  show "list_all (\<lambda>n. n \<noteq> ''room_name'' \<and> fold_key n \<noteq> fold_key ''room_name'') (map fst agent_session_fields)"
    unfolding k by code_simp
  show "list_all (\<lambda>n. n \<noteq> ''speaker_name'' \<and> fold_key n \<noteq> fold_key ''speaker_name'') (map fst agent_session_fields)"
    unfolding k by code_simp
qed

lemma names_skipped:
  "decode_members agent_session_fields (omit_empty ''room_name'' json_text x @ omit_empty ''speaker_name'' json_text y) z = Some z"
proof -
  have "list_all plain ''room_name''" "list_all plain ''speaker_name''" by (simp_all add: key_chars)
  then show ?thesis
    by (simp add: omit_empty_def decode_unknown [OF _ names_unknown(1)] decode_unknown [OF _ names_unknown(2)]
        del: decode_members.simps(2) split: option.split)
qed

lemma decode_append: "decode_members fs (ms @ ns) z = Option.bind (decode_members fs ms z) (decode_members fs ns)"
proof (induction ms arbitrary: z)
  case (Cons m ms)
  obtain k v where m: "m = (k, v)" by (cases m)
  show ?case
  proof (cases "find_field fs (unquote k)")
    case None
    then show ?thesis using Cons by (simp add: m)
  next
    case (Some f)
    then show ?thesis using Cons by (cases "f v z") (simp_all add: m)
  qed
qed simp

lemma session_members_decode:
  assumes "session_readable env s"
  shows "decode_members agent_session_fields (session_members env s) agent_session_zero = Some (seen_session env s)"
  using assms unfolding session_members_def agent_session_fields_def
  by (simp add: decode_member key_chars fields_read local_field session_readable_def session_encodes_def agent_session_zero_def
      seen_session_def del: decode_members.simps(2))

lemma session_decodes:
  assumes "session_readable env s"
  shows "decode_struct agent_session_fields (session_json env s) agent_session_zero = Some (seen_session env s)"
  by (simp add: decode_struct_def session_json_def decode_append [of _ "session_members env s"]
      session_members_decode [OF assms] names_skipped)

lemma session_printed: "session_readable env s \<Longrightarrow> agent_session_json (seen_session env s) = JObj (session_members env s)"
  by (simp add: agent_session_json_def session_members_def seen_session_def session_readable_def session_encodes_def
      json_time_text json_local_text)

section \<open>Lists\<close>

definition list_readable :: "('a \<Rightarrow> bool) \<Rightarrow> 'a list_response \<Rightarrow> bool" where
  "list_readable ok l = (list_all ok (lr_data l) \<and> pred_option utf8 (lr_next_cursor l))"

definition seen_list :: "('a \<Rightarrow> 'b) \<Rightarrow> 'a list_response \<Rightarrow> 'b agent_list" where
  "seen_list f l = \<lparr>agl_data = Some (map f (lr_data l)), agl_next_cursor = lr_next_cursor l\<rparr>"

lemma elems_decode:
  "list_all ok xs \<Longrightarrow> (\<And>x. ok x \<Longrightarrow> decode_struct fs (f x) zero = Some (g x)) \<Longrightarrow>
     to_elems (decode_struct fs) zero (map f xs) = Some (map g xs)"
  by (induction xs) simp_all

lemma list_decodes:
  assumes "list_readable ok l" "\<And>x. ok x \<Longrightarrow> decode_struct fs (f x) zero = Some (g x)"
  shows "decode_struct (agent_list_fields fs zero) (list_json f l) agent_list_zero = Some (seen_list g l)"
proof -
  have data: "to_elems (decode_struct fs) zero (map f (lr_data l)) = Some (map g (lr_data l))"
    using assms by (intro elems_decode [of ok]) (simp_all add: list_readable_def)
  show ?thesis
  proof (cases "lr_next_cursor l")
    case None
    then show ?thesis
      by (simp add: decode_struct_def list_json_def agent_list_fields_def decode_member key_chars in_field_def to_nilable_def data
          omit_empty_def seen_list_def agent_list_zero_def del: decode_members.simps(2))
  next
    case (Some c)
    then have "utf8 c" using assms(1) by (simp add: list_readable_def)
    then show ?thesis
      using Some by (simp add: decode_struct_def list_json_def agent_list_fields_def decode_member key_chars in_field_def to_nilable_def
          to_pointer_def json_text_def unquote_escape data omit_empty_def seen_list_def agent_list_zero_def
          del: decode_members.simps(2))
  qed
qed

lemma list_printed:
  assumes "list_readable ok l" "\<And>x. ok x \<Longrightarrow> h (g x) = f x"
  shows "agent_list_json h (seen_list g l) = list_json f l"
proof -
  have "map (h \<circ> g) (lr_data l) = map f (lr_data l)" using assms by (auto simp: list_readable_def list_all_iff)
  then show ?thesis by (simp add: agent_list_json_def seen_list_def list_json_def json_pointer_def)
qed

section \<open>Errors\<close>

lemma envelope_decodes:
  assumes "utf8 code" "utf8 message"
  shows "decode_struct envelope_fields (body_json env (Envelope code message d)) \<lparr>ape_code = [], ape_message = []\<rparr> =
    Some \<lparr>ape_code = code, ape_message = message\<rparr>"
proof -
  have key: "list_all plain ''details''" by (simp add: key_chars)
  let ?fs = "[(''code'', in_field ape_code ape_code_update to_string), (''message'', in_field ape_message ape_message_update to_string)]"
  have details: "decode_members ?fs [(''details'', details_json env d)] z = Some z" for z
  proof -
    have "list_all (\<lambda>n. n \<noteq> ''details'' \<and> fold_key n \<noteq> fold_key ''details'') [''code'', ''message'']" by code_simp
    then show ?thesis
      using decode_unknown [OF key, of ?fs "details_json env d" "[]" z] by (simp del: decode_members.simps(2))
  qed
  have "decode_struct ?fs (JObj [(''code'', json_text code), (''message'', json_text message), (''details'', details_json env d)])
      \<lparr>ape_code = [], ape_message = []\<rparr> = Some \<lparr>ape_code = code, ape_message = message\<rparr>"
    by (simp add: decode_struct_def decode_member key_chars string_field assms details del: decode_members.simps(2))
  then show ?thesis
    unfolding body_json.simps envelope_fields_def
    by (subst decode_struct_def) (simp add: decode_member key_chars del: decode_members.simps(2))
qed

section \<open>Answers\<close>

text \<open>What the agent's tool says of an answer, when its kind is what the tool asked for.\<close>

fun tool_text :: "env \<Rightarrow> string \<Rightarrow> http_response \<Rightarrow> (string \<times> bool) option" where
  "tool_text env name a =
     (case rs_body a of
        EventBody e \<Rightarrow> if rs_status a = 200 \<and> name = ''get_event'' then Some (print_json (event_json env e), False) else None
      | EventListBody l \<Rightarrow>
          if rs_status a = 200 \<and> name = ''list_events'' then Some (print_json (list_json (event_json env) l), False) else None
      | RoomListBody l \<Rightarrow>
          if rs_status a = 200 \<and> name = ''list_rooms'' then Some (print_json (list_json (room_json env) l), False) else None
      | SessionListBody l \<Rightarrow>
          if rs_status a = 200 \<and> name = ''list_sessions''
          then Some (print_json (list_json (\<lambda>s. JObj (session_members env s)) l), False) else None
      | Envelope code message d \<Rightarrow> if 300 \<le> rs_status a then Some (code @ '': '' @ message, True) else None
      | _ \<Rightarrow> None)"

fun readable :: "env \<Rightarrow> body \<Rightarrow> bool" where
  "readable env (EventBody e) = event_readable env e"
| "readable env (EventListBody l) = list_readable (event_readable env) l"
| "readable env (RoomListBody l) = list_readable (room_readable env) l"
| "readable env (SessionListBody l) = list_readable (session_readable env) l"
| "readable env (Envelope code message d) =
     (utf8 code \<and> utf8 message \<and> body_encodes env (Envelope code message d) \<and> json_depth (details_json env d) \<le> 9998)"
| "readable env b = False"

lemma scalar_depth [simp]: "json_depth (json_text s) = 0" "json_depth (json_int n) = 0" "json_depth (json_time loc t) = 0"
  "json_depth (json_local li) = 0"
  by (simp_all add: json_text_def json_int_def json_time_def json_local_def)

lemma pointer_depth [simp]: "(\<And>y. json_depth (f y) = 0) \<Longrightarrow> json_depth (json_pointer f x) = 0"
  by (cases x) (simp_all add: json_pointer_def)

lemma flat_depth: "(\<And>m. m \<in> set ms \<Longrightarrow> json_depth (snd m) = 0) \<Longrightarrow> json_depth (JObj ms) \<le> Suc d"
  by (simp add: json_depth_le del: json_depth.simps)

lemma event_depth: "json_depth (event_json env e) \<le> Suc d"
  unfolding event_json_def by (rule flat_depth) auto

lemma room_depth: "json_depth (room_json env r) \<le> Suc d"
  unfolding room_json_def by (rule flat_depth) auto

lemma session_depth: "json_depth (session_json env s) \<le> Suc d"
  unfolding session_json_def session_members_def by (rule flat_depth) (auto simp: omit_empty_def split: option.splits)

lemma list_depth: "(\<And>x. json_depth (f x) \<le> Suc 0) \<Longrightarrow> json_depth (list_json f l) \<le> 10000"
  unfolding list_json_def json_depth_le
proof (intro conjI ballI)
  fix m assume f: "\<And>x. json_depth (f x) \<le> Suc 0" and m: "m \<in> set ((''data'', JArr (map f (lr_data l))) # omit_empty ''next_cursor'' json_text (lr_next_cursor l))"
  have "json_depth (f x) \<le> 10000 - 1 - 1" for x using f [of x] by simp
  then have "json_depth (JArr (map f (lr_data l))) \<le> 10000 - 1" unfolding json_depth_le by auto
  then show "json_depth (snd m) \<le> 10000 - 1" using m by (auto simp: omit_empty_def simp del: json_depth.simps split: option.splits)
qed simp

lemma readable_parses:
  assumes "readable env b"
  shows "json_whole (body_bytes env b) = Some (body_json env b)"
proof (rule answer_parses)
  show "body_encodes env b"
    using assms by (cases b) (auto simp: list_readable_def event_readable_def room_readable_def session_readable_def list_all_iff)
  show "b \<noteq> NoBody" "\<forall>t. b \<noteq> TextBody t" using assms by auto
  have one: "json_depth (event_json env e) \<le> 10000" "json_depth (list_json (event_json env) l) \<le> 10000"
      "json_depth (list_json (room_json env) k) \<le> 10000" "json_depth (list_json (session_json env) j) \<le> 10000" for e l k j
    using event_depth [of env e 9999] by (simp_all add: list_depth event_depth room_depth session_depth del: json_depth.simps)
  show "json_depth (body_json env b) \<le> 10000"
  proof (cases b)
    case (Envelope code message d)
    then have "json_depth (details_json env d) \<le> 10000 - 1 - 1" using assms by simp
    then show ?thesis using Envelope by (simp add: json_depth_le del: json_depth.simps(1,2))
  qed (use assms one in \<open>simp_all del: json_depth.simps\<close>)
qed

end
