(* ===== verification/Agent_Backend.thy ===== *)
theory Agent_Backend
  imports Agent_Loop Agent_Decode Journeys
begin

text \<open>
  The demo agent talking to this backend: its requests travel as a target text, the server takes the
  target apart, cleans the path and routes it. The agent changes no more than its user's sign-in
  does, and what a tool reports is what the backend answered.
\<close>

section \<open>The backend as a transport\<close>

text \<open>Header values lose the blanks around them on the way, and one with a control character is not sent.\<close>

definition is_blank :: "char \<Rightarrow> bool" where
  "is_blank c = (c = CHR '' '' \<or> c = CHR 0x09)"

definition header_value :: "string \<Rightarrow> string" where
  "header_value s = rev (dropWhile is_blank (rev (dropWhile is_blank s)))"

definition header_ok :: "string \<Rightarrow> bool" where
  "header_ok s = list_all (\<lambda>c. c = CHR 0x09 \<or> 32 \<le> (of_char c :: nat) \<and> of_char c \<noteq> (127 :: nat)) s"

definition backend_request :: "string \<Rightarrow> (string \<times> string) list \<Rightarrow> request" where
  "backend_request authorization q = \<lparr>rq_authorization = authorization, rq_idempotency_key = [], rq_path = [], rq_query = q,
     rq_body = [], rq_user = None, rq_role = None\<rparr>"

text \<open>
  A path that is not clean is redirected to the clean one, and the client follows with the same
  header; the redirect's path is the escaped text, which is escaped once more on the way.
\<close>

definition serve_target :: "env \<Rightarrow> policy \<Rightarrow> (nat \<Rightarrow> txgen) \<Rightarrow> string \<Rightarrow> string \<Rightarrow> string \<Rightarrow> db \<Rightarrow> http_response \<times> db" where
  "serve_target env p gs m authorization target s =
     (let (path, query) = cut (CHR ''?'') target; segs = fields_on (CHR ''/'') (drop 1 path);
          rq = backend_request authorization (parse_query query) in
      case all_some (map (unescape False) segs) of
        None \<Rightarrow> (\<lparr>rs_status = 400, rs_body = TextBody ''400 Bad Request''\<rparr>, s)
      | Some xs \<Rightarrow> ServeHTTP env p gs m (if clean_path segs = segs then xs else clean_path segs) rq s)"

text \<open>
  The state is the number of requests served and the database; request \<open>n\<close> draws what \<open>gss n\<close> gives it.
  The host of the URL is the backend's.
\<close>

definition backend :: "env \<Rightarrow> policy \<Rightarrow> (nat \<Rightarrow> nat \<Rightarrow> txgen) \<Rightarrow> string \<Rightarrow> (nat \<times> db) transport" where
  "backend env p gss host hq ns =
     (let authorization = value_of ''Authorization'' (hq_headers hq) in
      if \<not> header_ok authorization then (Unsent ''invalid header field value for \"Authorization\"'', ns)
      else case serve_target env p (gss (fst ns)) (hq_method hq) (header_value authorization) (drop (length host) (hq_url hq)) (snd ns) of
             (a, s') \<Rightarrow> (Answer (rs_status a) (body_bytes env (rs_body a)), (Suc (fst ns), s')))"

section \<open>Targets\<close>

lemma fields_prefix: "fields_on (CHR ''/'') (drop 1 (''/v1/events/'' @ r)) = ''v1'' # ''events'' # fields_on (CHR ''/'') r"
  by simp

lemma clean_kept: "list_all (\<lambda>x. x \<noteq> [] \<and> x \<noteq> ''.'' \<and> x \<noteq> ''..'') xs \<Longrightarrow> clean_path xs = xs"
proof -
  assume xs: "list_all (\<lambda>x. x \<noteq> [] \<and> x \<noteq> ''.'' \<and> x \<noteq> ''..'') xs"
  then have "clean_onto acc xs = rev acc @ xs" for acc by (induction xs arbitrary: acc) auto
  moreover have "xs = [] \<or> last xs \<noteq> []" using xs by (cases xs rule: rev_cases) auto
  ultimately show ?thesis by (auto simp: clean_path_def)
qed

definition proper_id :: "string \<Rightarrow> bool" where
  "proper_id e = (e \<noteq> [] \<and> e \<noteq> ''.'' \<and> e \<noteq> ''..'')"

lemma escaped_proper: "proper_id e \<Longrightarrow> PathEscape e \<noteq> [] \<and> PathEscape e \<noteq> ''.'' \<and> PathEscape e \<noteq> ''..''"
  using path_unescape_escape [of e] by (auto simp: proper_id_def)

lemma escaped_no_slash: "CHR ''/'' \<notin> set (PathEscape e)" "CHR ''?'' \<notin> set (PathEscape e)"
  using path_escape_chars by blast+

definition cursor_params :: "string \<Rightarrow> (string \<times> string) list" where
  "cursor_params cursor = (if cursor = [] then [] else [(''cursor'', cursor)])"

lemma cursor_read: "parse_query (cursor_query cursor) = cursor_params cursor"
proof (cases "cursor = []")
  case True
  then show ?thesis by (simp add: cursor_query_def cursor_params_def parse_query_def query_pair_def map_filter_simps)
next
  case False
  let ?q = "''cursor='' @ QueryEscape cursor"
  have "CHR ''&'' \<notin> set ?q" "CHR '';'' \<notin> set ?q" using query_escape_chars [of _ cursor] by auto
  moreover have "cut (CHR ''='') ?q = (''cursor'', QueryEscape cursor)"
    using cut_at [of "CHR ''=''" "''cursor''" "QueryEscape cursor"] by simp
  ultimately show ?thesis
    using False by (simp add: cursor_query_def cursor_params_def parse_query_def query_pair_def fields_none map_filter_simps
        query_unescape_escape)
qed

text \<open>The request a tool call stands for: the path the routes see and the query.\<close>

definition tool_request :: "string \<Rightarrow> tool_args \<Rightarrow> string list \<times> (string \<times> string) list" where
  "tool_request name a =
     (if name = ''list_events'' then ([''v1'', ''events''], cursor_params (ta_cursor a))
      else if name = ''get_event'' then ([''v1'', ''events'', ta_event_id a], [])
      else if name = ''list_sessions'' then ([''v1'', ''events'', ta_event_id a, ''sessions''], cursor_params (ta_cursor a))
      else ([''v1'', ''events'', ta_event_id a, ''rooms''], cursor_params (ta_cursor a)))"

lemma events_served:
  "serve_target env p gs m h (events_target cursor) s =
     ServeHTTP env p gs m [''v1'', ''events''] (backend_request h (cursor_params cursor)) s"
proof -
  have "cut (CHR ''?'') (events_target cursor) = (''/v1/events'', cursor_query cursor)"
    using cut_at [of "CHR ''?''" "''/v1/events''" "cursor_query cursor"] by (simp add: events_target_def)
  moreover have "clean_path [''v1'', ''events''] = [''v1'', ''events'']" by (rule clean_kept) simp
  ultimately show ?thesis by (simp add: serve_target_def cursor_read)
qed

lemma event_served:
  assumes "proper_id e"
  shows "serve_target env p gs m h (event_target e) s = ServeHTTP env p gs m [''v1'', ''events'', e] (backend_request h []) s"
proof -
  have "CHR ''?'' \<notin> set (event_target e)" using escaped_no_slash by (simp add: event_target_def)
  then have "cut (CHR ''?'') (event_target e) = (event_target e, [])" by (rule cut_none)
  moreover have "fields_on (CHR ''/'') (drop 1 (event_target e)) = [''v1'', ''events'', PathEscape e]"
    using escaped_no_slash unfolding event_target_def fields_prefix by (simp add: fields_none)
  moreover have "clean_path [''v1'', ''events'', PathEscape e] = [''v1'', ''events'', PathEscape e]"
    using escaped_proper [OF assms] by (intro clean_kept) simp
  ultimately show ?thesis
    by (simp add: serve_target_def path_unescape_escape parse_query_def query_pair_def map_filter_simps)
qed

lemma items_served:
  assumes "proper_id e" "items = ''sessions'' \<or> items = ''rooms''"
  shows "serve_target env p gs m h (items_target e items cursor) s =
    ServeHTTP env p gs m [''v1'', ''events'', e, items] (backend_request h (cursor_params cursor)) s"
proof -
  let ?p = "''/v1/events/'' @ PathEscape e @ ''/'' @ items"
  have i: "CHR ''/'' \<notin> set items" "CHR ''?'' \<notin> set items" "unescape False items = Some items" "items \<notin> {[], ''.'', ''..''}"
    using assms(2) by auto
  have "CHR ''?'' \<notin> set ?p" using escaped_no_slash i by simp
  then have "cut (CHR ''?'') (?p @ CHR ''?'' # cursor_query cursor) = (?p, cursor_query cursor)" by (rule cut_at)
  then have "cut (CHR ''?'') (items_target e items cursor) = (?p, cursor_query cursor)" by (simp add: items_target_def)
  moreover have "fields_on (CHR ''/'') (drop 1 ?p) = [''v1'', ''events'', PathEscape e, items]"
    using escaped_no_slash i fields_at [of "CHR ''/''" "PathEscape e" items] unfolding fields_prefix by (simp add: fields_none)
  moreover have "clean_path [''v1'', ''events'', PathEscape e, items] = [''v1'', ''events'', PathEscape e, items]"
    using escaped_proper [OF assms(1)] i(4) by (intro clean_kept) simp
  ultimately show ?thesis by (simp add: serve_target_def path_unescape_escape i(3) cursor_read)
qed


section \<open>A tool call\<close>

definition tool_known :: "string \<Rightarrow> tool_args \<Rightarrow> bool" where
  "tool_known name a = (name = ''list_events'' \<or> name \<in> {''get_event'', ''list_sessions'', ''list_rooms''} \<and> proper_id (ta_event_id a))"

text \<open>The arguments the tool declares; it does not see another one.\<close>

definition tool_fields :: "string \<Rightarrow> (string \<times> tool_args field) list" where
  "tool_fields name = (if name = ''list_events'' then [cursor_field] else if name = ''get_event'' then [event_id_field]
     else [event_id_field, cursor_field])"

definition bearer_value :: "api_client \<Rightarrow> string" where
  "bearer_value c = ''Bearer '' @ cl_token c"

definition sent :: "'w transport \<Rightarrow> api_client \<Rightarrow> string \<Rightarrow> 'w \<Rightarrow> answer \<times> 'w" where
  "sent send c target w = send (get_request c target) w"

lemma backend_answers:
  assumes "header_ok (bearer_value c)" "cl_base_url c = host"
    and "serve_target env p (gss n) ''GET'' (header_value (bearer_value c)) target s = (a, s')"
  shows "sent (backend env p gss host) c target (n, s) = (Answer (rs_status a) (body_bytes env (rs_body a)), (Suc n, s'))"
  using assms by (simp add: sent_def backend_def get_request_def value_of_def bearer_value_def Let_def)

lemma envelope_text:
  assumes "readable env (Envelope code message d)"
  shows "Unmarshal envelope_fields \<lparr>ape_code = [], ape_message = []\<rparr> (body_bytes env (Envelope code message d)) =
    Some \<lparr>ape_code = code, ape_message = message\<rparr>"
  using assms readable_parses [OF assms] by (simp add: Unmarshal_def envelope_decodes del: body_json.simps)

lemma encoded_answer:
  assumes "sent send c target w = (Answer (rs_status a) (body_bytes env (rs_body a)), w')" "rs_status a = 200"
    and "Unmarshal fs zero (body_bytes env (rs_body a)) = Some v"
  shows "encoded f (client_get tx send c tname fs zero target) w = ((print_json (f v), False), w')"
  using assms by (simp add: sent_def encoded_def client_get_def get_answer_def encodeToolResult_def)

lemma encoded_denial:
  assumes "sent send c target w = (Answer (rs_status a) (body_bytes env (rs_body a)), w')" "300 \<le> rs_status a"
    and "rs_body a = Envelope code message d" "readable env (rs_body a)"
  shows "encoded f (client_get tx send c tname fs zero target) w = ((code @ '': '' @ message, True), w')"
  using assms envelope_text [of env code message d]
  by (simp add: sent_def encoded_def client_get_def get_answer_def error_answer_def encodeToolResult_def del: readable.simps)

lemma list_text:
  assumes "body_json env b = list_json f l" "readable env b" "list_readable ok l"
    and "\<And>x. ok x \<Longrightarrow> decode_struct fs (f x) zero = Some (g x)"
  shows "Unmarshal (agent_list_fields fs zero) agent_list_zero (body_bytes env b) = Some (seen_list g l)"
  using readable_parses [OF assms(2)] list_decodes [OF assms(3,4)] assms(1) by (simp add: Unmarshal_def)

text \<open>The text of a tool, whatever its target, once the answer has arrived.\<close>

lemma denial_tool:
  assumes "sent send c target w = (Answer (rs_status a) (body_bytes env (rs_body a)), w')"
    and "tool_text env name a = Some r" "readable env (rs_body a)" "rs_body a = Envelope code message d"
  shows "encoded f (client_get tx send c tname fs zero target) w = (r, w')"
proof -
  have "300 \<le> rs_status a" "r = (code @ '': '' @ message, True)" using assms(2,4) by (auto split: if_splits)
  then show ?thesis using encoded_denial [OF assms(1) _ assms(4,3)] by simp
qed

lemma event_tool:
  assumes "sent send c target w = (Answer (rs_status a) (body_bytes env (rs_body a)), w')"
    and "tool_text env ''get_event'' a = Some r" "readable env (rs_body a)"
  shows "encoded agent_event_json (client_get tx send c tname agent_event_fields agent_event_zero target) w = (r, w')"
proof (cases "rs_body a")
  case (EventBody e)
  then have r: "rs_status a = 200" "r = (print_json (event_json env e), False)" "event_readable env e"
    using assms(2,3) by (auto split: if_splits)
  have "Unmarshal agent_event_fields agent_event_zero (body_bytes env (rs_body a)) = Some (seen_event env e)"
    using readable_parses [OF assms(3)] event_decodes [OF r(3)] EventBody by (simp add: Unmarshal_def)
  from encoded_answer [OF assms(1) r(1) this] show ?thesis using r(2) event_printed [OF r(3)] by simp
next
  case (Envelope code message d)
  then show ?thesis by (rule denial_tool [OF assms])
qed (use assms in auto)

lemma list_tool:
  assumes "sent send c target w = (Answer (rs_status a) (body_bytes env (rs_body a)), w')"
    and "tool_text env name a = Some r" "readable env (rs_body a)"
    and "\<forall>code message d. rs_body a \<noteq> Envelope code message d \<Longrightarrow>
      rs_status a = 200 \<and> (\<exists>l. body_json env (rs_body a) = list_json f l \<and> list_readable ok l \<and> r = (print_json (list_json h l), False))"
    and "\<And>x. ok x \<Longrightarrow> decode_struct fs (f x) zero = Some (g x)" "\<And>x. ok x \<Longrightarrow> k (g x) = h x"
  shows "encoded (agent_list_json k) (client_get tx send c tname (agent_list_fields fs zero) agent_list_zero target) w = (r, w')"
proof (cases "\<exists>code message d. rs_body a = Envelope code message d")
  case True
  then obtain code message d where "rs_body a = Envelope code message d" by blast
  then show ?thesis by (rule denial_tool [OF assms(1-3)])
next
  case False
  then obtain l where l: "rs_status a = 200" "body_json env (rs_body a) = list_json f l" "list_readable ok l"
    "r = (print_json (list_json h l), False)" using assms(4) by auto
  have v: "Unmarshal (agent_list_fields fs zero) agent_list_zero (body_bytes env (rs_body a)) = Some (seen_list g l)"
    by (rule list_text [OF l(2) assms(3) l(3) assms(5)])
  have "agent_list_json k (seen_list g l) = list_json h l"
    by (rule list_printed [of ok l k g h, OF l(3) assms(6)])
  then show ?thesis using encoded_answer [OF assms(1) l(1) v] l(4) by simp
qed

lemma events_tool:
  assumes "sent send c target w = (Answer (rs_status a) (body_bytes env (rs_body a)), w')"
    and "tool_text env ''list_events'' a = Some r" "readable env (rs_body a)"
  shows "encoded (agent_list_json agent_event_json)
    (client_get tx send c tname (agent_list_fields agent_event_fields agent_event_zero) agent_list_zero target) w = (r, w')"
proof (rule list_tool [OF assms])
  assume "\<forall>code message d. rs_body a \<noteq> Envelope code message d"
  then show "rs_status a = 200 \<and> (\<exists>l. body_json env (rs_body a) = list_json (event_json env) l \<and>
      list_readable (event_readable env) l \<and> r = (print_json (list_json (event_json env) l), False))"
    using assms(2,3) by (cases "rs_body a") (auto split: if_splits)
qed (rule event_decodes event_printed, assumption)+

lemma rooms_tool:
  assumes "sent send c target w = (Answer (rs_status a) (body_bytes env (rs_body a)), w')"
    and "tool_text env ''list_rooms'' a = Some r" "readable env (rs_body a)"
  shows "encoded (agent_list_json agent_room_json)
    (client_get tx send c tname (agent_list_fields agent_room_fields agent_room_zero) agent_list_zero target) w = (r, w')"
proof (rule list_tool [OF assms])
  assume "\<forall>code message d. rs_body a \<noteq> Envelope code message d"
  then show "rs_status a = 200 \<and> (\<exists>l. body_json env (rs_body a) = list_json (room_json env) l \<and>
      list_readable (room_readable env) l \<and> r = (print_json (list_json (room_json env) l), False))"
    using assms(2,3) by (cases "rs_body a") (auto split: if_splits)
qed (rule room_decodes room_printed, assumption)+

lemma sessions_tool:
  assumes "sent send c target w = (Answer (rs_status a) (body_bytes env (rs_body a)), w')"
    and "tool_text env ''list_sessions'' a = Some r" "readable env (rs_body a)"
  shows "encoded (agent_list_json agent_session_json)
    (client_get tx send c tname (agent_list_fields agent_session_fields agent_session_zero) agent_list_zero target) w = (r, w')"
proof (rule list_tool [OF assms])
  assume "\<forall>code message d. rs_body a \<noteq> Envelope code message d"
  then show "rs_status a = 200 \<and> (\<exists>l. body_json env (rs_body a) = list_json (session_json env) l \<and>
      list_readable (session_readable env) l \<and> r = (print_json (list_json (\<lambda>s. JObj (session_members env s)) l), False))"
    using assms(2,3) by (cases "rs_body a") (auto split: if_splits)
qed (rule session_decodes session_printed, assumption)+

section \<open>A call against the backend\<close>

text \<open>
  The call goes out as the request it stands for, and its text is the one of the answer.
\<close>

lemma backend_tool:
  assumes "header_ok (bearer_value c)" "cl_base_url c = host" "tool_known name args"
    and "tool_args_of (tool_fields name) input = Some args"
    and "tool_request name args = (path, q)"
    and "ServeHTTP env p (gss n) ''GET'' path (backend_request (header_value (bearer_value c)) q) s = (a, s')"
    and "tool_text env name a = Some r" "readable env (rs_body a)"
  shows "Dispatch tx (backend env p gss host) c name input (n, s) = (Inr r, (Suc n, s'))"
proof -
  let ?send = "backend env p gss host" and ?h = "header_value (bearer_value c)"
  have sends: "serve_target env p (gss n) ''GET'' ?h target s = (a, s') \<Longrightarrow>
      sent ?send c target (n, s) = (Answer (rs_status a) (body_bytes env (rs_body a)), (Suc n, s'))" for target
    by (rule backend_answers [OF assms(1,2)])
  have named: "ta_event_id args \<noteq> []" if "name \<noteq> ''list_events''" using assms(3) that by (auto simp: tool_known_def proper_id_def)
  consider "name = ''list_events''" | "name = ''get_event''" "proper_id (ta_event_id args)"
    | "name = ''list_sessions''" "proper_id (ta_event_id args)" | "name = ''list_rooms''" "proper_id (ta_event_id args)"
    using assms(3) by (auto simp: tool_known_def)
  then show ?thesis
  proof cases
    case 1
    then have "serve_target env p (gss n) ''GET'' ?h (events_target (ta_cursor args)) s = (a, s')"
      using assms(5,6) by (simp add: events_served tool_request_def)
    from events_tool [OF sends [OF this] assms(7) [unfolded 1] assms(8)] show ?thesis
      using 1 assms(4) by (simp add: Dispatch_def with_args_def tool_fields_def client_ListEvents_def)
  next
    case 2
    then have "serve_target env p (gss n) ''GET'' ?h (event_target (ta_event_id args)) s = (a, s')"
      using assms(5,6) by (simp add: event_served tool_request_def)
    from event_tool [OF sends [OF this] assms(7) [unfolded 2(1)] assms(8)] show ?thesis
      using 2 assms(4) named by (simp add: Dispatch_def with_args_def tool_fields_def client_GetEvent_def)
  next
    case 3
    then have "serve_target env p (gss n) ''GET'' ?h (items_target (ta_event_id args) ''sessions'' (ta_cursor args)) s = (a, s')"
      using assms(5,6) by (simp add: items_served tool_request_def)
    from sessions_tool [OF sends [OF this] assms(7) [unfolded 3(1)] assms(8)] show ?thesis
      using 3 assms(4) named by (simp add: Dispatch_def with_args_def tool_fields_def client_ListSessions_def)
  next
    case 4
    then have "serve_target env p (gss n) ''GET'' ?h (items_target (ta_event_id args) ''rooms'' (ta_cursor args)) s = (a, s')"
      using assms(5,6) by (simp add: items_served tool_request_def)
    from rooms_tool [OF sends [OF this] assms(7) [unfolded 4(1)] assms(8)] show ?thesis
      using 4 assms(4) named by (simp add: Dispatch_def with_args_def tool_fields_def client_ListRooms_def)
  qed
qed

section \<open>Denials\<close>

lemma tool_routes:
  assumes "name \<in> {''get_event'', ''list_sessions'', ''list_rooms''}" "ta_event_id args \<noteq> []"
  shows "\<exists>xs r. fst (tool_request name args) = ''v1'' # ''events'' # ta_event_id args # xs \<and>
    find_route ''GET'' (''v1'' # ''events'' # ta_event_id args # xs) (NewRouter env gs) = Some r"
  using assms by (auto simp: tool_request_def find_route_def takes_method_def route_defs event_path_def events_path_def)

lemma forbidden_readable: "readable env (rs_body writeForbidden)"
proof -
  have "utf8 ''forbidden''" "utf8 ''you do not have permission to perform this action''" by code_simp+
  then show ?thesis by (simp add: writeForbidden_def WriteError_def)
qed

text \<open>A user who is no member of the event is told the same thing by every tool.\<close>

lemma denied_tool:
  assumes "header_ok (bearer_value c)" "cl_base_url c = host"
    and "name \<in> {''get_event'', ''list_sessions'', ''list_rooms''}" "tool_args_of (tool_fields name) input = Some args"
    and "proper_id (ta_event_id args)" "en_uuid env (ta_event_id args) = Some ev"
    and "caller env (gss n 0) (backend_request (header_value (bearer_value c)) (snd (tool_request name args))) s = Some (u, s1)"
    and "member_role (usr_id u) ev s1 = None"
  shows "Dispatch tx (backend env p gss host) c name input (n, s) =
    (Inr (''forbidden: you do not have permission to perform this action'', True), (Suc n, s1))"
proof -
  obtain path q where r: "tool_request name args = (path, q)" by (cases "tool_request name args")
  have "ta_event_id args \<noteq> []" using assms(5) by (simp add: proper_id_def)
  then obtain xs rt where x: "path = ''v1'' # ''events'' # ta_event_id args # xs"
    "find_route ''GET'' (''v1'' # ''events'' # ta_event_id args # xs) (NewRouter env (gss n)) = Some rt"
    using tool_routes [where args = args and env = env and gs = "gss n", OF assms(3)] r by auto
  have serve: "ServeHTTP env p (gss n) ''GET'' path (backend_request (header_value (bearer_value c)) q) s = (writeForbidden, s1)"
    unfolding x(1) by (rule outsider_forbidden [OF _ assms(8,6) x(2)]) (use assms(7) r in simp)
  have said: "tool_text env name writeForbidden = Some (''forbidden: you do not have permission to perform this action'', True)"
    by (simp add: writeForbidden_def WriteError_def)
  have "tool_known name args" using assms(3,5) by (auto simp: tool_known_def)
  then show ?thesis
    by (rule backend_tool [where gss = gss and n = n, OF assms(1,2) _ assms(4) r serve said forbidden_readable])
qed

section \<open>The agent only reads\<close>

lemma backend_reads:
  "hq_method hq = ''GET'' \<Longrightarrow> \<exists>us. snd (snd (backend env p gss host hq (n, s))) = s\<lparr>t_users := us\<rparr>"
proof -
  assume g: "hq_method hq = ''GET''"
  have "\<exists>us. snd (serve_target env p gs ''GET'' h target s) = s\<lparr>t_users := us\<rparr>" for gs h target
    unfolding serve_target_def Let_def
    using get_serves_users [of "''GET''" env p gs] by (auto simp: case_prod_beta intro: exI [of _ "t_users s"] split: option.split)
  then show ?thesis
    using g by (auto simp: backend_def Let_def case_prod_beta intro: exI [of _ "t_users s"])
qed

interpretation read_only: agent_services model "backend env p gss host" c "\<lambda>m ns. \<exists>us. snd ns = s\<lparr>t_users := us\<rparr>"
  for model :: "'m model" and env p gss host c s
proof
  fix m :: 'm and w :: "nat \<times> db" and path
  assume "\<exists>us. snd w = s\<lparr>t_users := us\<rparr>"
  then obtain n us where w: "w = (n, s\<lparr>t_users := us\<rparr>)" by (cases w) auto
  have "hq_method (get_request c path) = ''GET''" by (simp add: get_request_def)
  from backend_reads [OF this] obtain vs where
    "snd (snd (backend env p gss host (get_request c path) w)) = s\<lparr>t_users := us\<rparr>\<lparr>t_users := vs\<rparr>" unfolding w by blast
  then show "\<exists>us. snd (snd (backend env p gss host (get_request c path) w)) = s\<lparr>t_users := us\<rparr>" by auto
qed

text \<open>Whatever the command line and the model say.\<close>

lemma agent_reads:
  "\<exists>us. snd (snd (snd (agent_main tx model_of (backend env p gss host) getenv fl (m :: 'm) (n, s)))) = s\<lparr>t_users := us\<rparr>"
proof -
  have run: "\<exists>us. snd (snd (snd (Run tx model (backend env p gss host) c system prompt m (n, s)))) = s\<lparr>t_users := us\<rparr>"
    for model and c system prompt
  proof -
    have "\<exists>us. snd (n, s) = s\<lparr>t_users := us\<rparr>" by (rule exI [of _ "t_users s"]) simp
    then have "case Run tx model (backend env p gss host) c system prompt m (n, s) of (r, m', w') \<Rightarrow> \<exists>us. snd w' = s\<lparr>t_users := us\<rparr>"
      by (rule read_only.run_keeps)
    then show ?thesis by (simp add: case_prod_beta)
  qed
  show ?thesis
    unfolding agent_main_def Let_def
    using run by (auto simp: case_prod_beta intro: exI [of _ "t_users s"] split: sum.split)
qed

section \<open>Dots\<close>

text \<open>
  \<open>PathEscape\<close> leaves a dot alone, so the event \<open>.\<close> is the list of events: the redirect leads there, the
  list has no member an event has, and the tool reports an event with nothing in it.
\<close>

lemma dot_is_the_list:
  "serve_target env p gs m h (event_target ''.'') s = ServeHTTP env p gs m [''v1'', ''events''] (backend_request h []) s"
proof -
  have t: "event_target ''.'' = ''/v1/events/.''" by code_simp
  have c: "clean_path [''v1'', ''events'', ''.''] = [''v1'', ''events'']" by code_simp
  show ?thesis unfolding serve_target_def t by (simp add: cut_none c parse_query_def query_pair_def map_filter_simps)
qed

lemma list_keys_unknown:
  "list_all (\<lambda>n. n \<noteq> ''data'' \<and> fold_key n \<noteq> fold_key ''data'') (map fst agent_event_fields)"
  "list_all (\<lambda>n. n \<noteq> ''next_cursor'' \<and> fold_key n \<noteq> fold_key ''next_cursor'') (map fst agent_event_fields)"
proof -
  have k: "map fst agent_event_fields = [''id'', ''name'', ''description'', ''timezone'', ''starts_at'',
      ''ends_at'', ''version'', ''created_at'', ''updated_at'']" by (simp add: agent_event_fields_def)
  show "list_all (\<lambda>n. n \<noteq> ''data'' \<and> fold_key n \<noteq> fold_key ''data'') (map fst agent_event_fields)"
    unfolding k by code_simp
  show "list_all (\<lambda>n. n \<noteq> ''next_cursor'' \<and> fold_key n \<noteq> fold_key ''next_cursor'') (map fst agent_event_fields)"
    unfolding k by code_simp
qed

lemma list_is_an_empty_event: "decode_struct agent_event_fields (list_json f l) agent_event_zero = Some agent_event_zero"
proof -
  have "list_all plain ''data''" "list_all plain ''next_cursor''" by (simp_all add: key_chars)
  then show ?thesis
    by (simp add: decode_struct_def list_json_def omit_empty_def decode_unknown [OF _ list_keys_unknown(1)]
        decode_unknown [OF _ list_keys_unknown(2)] del: decode_members.simps(2) split: option.split)
qed

lemma dot_reports_an_empty_event:
  assumes "header_ok (bearer_value c)" "cl_base_url c = host"
    and "ServeHTTP env p (gss n) ''GET'' [''v1'', ''events''] (backend_request (header_value (bearer_value c)) []) s = (a, s')"
    and "rs_status a = 200" "rs_body a = EventListBody l" "readable env (rs_body a)"
  shows "Dispatch tx (backend env p gss host) c ''get_event'' (Some (JObj [(''event_id'', json_text ''.'')])) (n, s) =
    (Inr (print_json (agent_event_json agent_event_zero), False), (Suc n, s'))"
proof -
  have "serve_target env p (gss n) ''GET'' (header_value (bearer_value c)) (event_target ''.'') s = (a, s')"
    using assms(3) by (simp add: dot_is_the_list)
  from backend_answers [where gss = gss and n = n, OF assms(1,2) this]
  have call: "sent (backend env p gss host) c (event_target ''.'') (n, s) = (Answer (rs_status a) (body_bytes env (rs_body a)), (Suc n, s'))" .
  have "Unmarshal agent_event_fields agent_event_zero (body_bytes env (rs_body a)) = Some agent_event_zero"
    using readable_parses [OF assms(6)] list_is_an_empty_event assms(5) by (simp add: Unmarshal_def)
  from encoded_answer [OF call assms(4) this]
  have "encoded agent_event_json (client_GetEvent tx (backend env p gss host) c ''.'') (n, s) =
      ((print_json (agent_event_json agent_event_zero), False), (Suc n, s'))" by (simp add: client_GetEvent_def)
  moreover have "tool_args_of [event_id_field] (Some (JObj [(''event_id'', json_text ''.'')])) = Some \<lparr>ta_event_id = ''.'', ta_cursor = []\<rparr>"
    by code_simp
  ultimately show ?thesis by (simp add: Dispatch_def with_args_def)
qed

end
