(* ===== verification/Anthropic.thy ===== *)
theory Anthropic
  imports Agent_Loop Response_Json Agent_Decode
begin

text \<open>
  cmd/agent/anthropic.go: the model client, which prints the conversation as a request of the
  Messages API and reads the blocks of its answer. The API is reached through a transport.
\<close>

section \<open>The client\<close>

definition anthropicAPIVersion :: string where "anthropicAPIVersion = ''2023-06-01''"

definition defaultAnthropicBaseURL :: string where "defaultAnthropicBaseURL = ''https://api.anthropic.com''"

definition defaultMaxTokens :: int where "defaultMaxTokens = 1024"

record anthropic_client =
  an_api_key :: string
  an_model :: string
  an_base_url :: string

definition NewAnthropicClient :: "string \<Rightarrow> string \<Rightarrow> anthropic_client" where
  "NewAnthropicClient apiKey model = \<lparr>an_api_key = apiKey, an_model = model, an_base_url = defaultAnthropicBaseURL\<rparr>"

section \<open>What is sent\<close>

text \<open>\<open>Marshal\<close> takes a raw message as it is, but escapes the HTML characters and the line separators in it.\<close>

function html_safe :: "string \<Rightarrow> string" where
  "html_safe s = (case s of
       [] \<Rightarrow> []
     | c # r \<Rightarrow>
         if c \<in> {CHR ''<'', CHR ''>'', CHR ''&''} then quote_char c @ html_safe r
         else if line_separator s
         then [CHR 0x5C] @ ''u202'' @ [hex_digit (of_char (hd (drop 2 s)) mod 16)] @ html_safe (drop 3 s)
         else c # html_safe r)"
  by auto
termination by (relation "measure length") auto

declare html_safe.simps [simp del]

fun json_compact :: "json \<Rightarrow> json" where
  "json_compact (JStr raw) = JStr (html_safe raw)"
| "json_compact (JArr vs) = JArr (map json_compact vs)"
| "json_compact (JObj ms) = JObj (map (\<lambda>m. (html_safe (fst m), json_compact (snd m))) ms)"
| "json_compact v = v"

definition omit_blank :: "string \<Rightarrow> string \<Rightarrow> (string \<times> json) list" where
  "omit_blank k s = (if s = [] then [] else [(k, json_text s)])"

definition wire_block_json :: "content_block \<Rightarrow> json" where
  "wire_block_json b = JObj
     ([(''type'', json_text (cb_type b))] @ omit_blank ''text'' (cb_text b) @ omit_blank ''id'' (cb_id b) @
      omit_blank ''name'' (cb_name b) @ omit_empty ''input'' json_compact (cb_input b) @
      omit_blank ''tool_use_id'' (cb_tool_use_id b) @ omit_blank ''content'' (cb_content b) @
      (if cb_is_error b then [(''is_error'', JBool True)] else []))"

definition toWireBlocks :: "content_block list \<Rightarrow> json" where
  "toWireBlocks blocks = JArr (map wire_block_json blocks)"

definition wire_message_json :: "message \<Rightarrow> json" where
  "wire_message_json m = JObj [(''role'', json_text (msg_role m)), (''content'', toWireBlocks (msg_content m))]"

definition toWireMessages :: "message list \<Rightarrow> json" where
  "toWireMessages messages = JArr (map wire_message_json messages)"

definition wire_tool_json :: "tool_def \<Rightarrow> json" where
  "wire_tool_json t = JObj
     [(''name'', json_text (td_name t)), (''description'', json_text (td_description t)), (''input_schema'', td_input_schema t)]"

definition toWireTools :: "tool_def list \<Rightarrow> json" where
  "toWireTools tools = JArr (map wire_tool_json tools)"

definition wire_request_json :: "anthropic_client \<Rightarrow> model_request \<Rightarrow> json" where
  "wire_request_json c rq = JObj
     ([(''model'', json_text (an_model c)), (''max_tokens'', json_int defaultMaxTokens)] @
      omit_blank ''system'' (mrq_system rq) @
      [(''messages'', toWireMessages (mrq_messages rq))] @
      (if mrq_tools rq = [] then [] else [(''tools'', toWireTools (mrq_tools rq))]))"

definition message_request :: "anthropic_client \<Rightarrow> model_request \<Rightarrow> http_request" where
  "message_request c rq = \<lparr>hq_method = ''POST'', hq_url = an_base_url c @ ''/v1/messages'',
     hq_headers = [(''Content-Type'', ''application/json''), (''x-api-key'', an_api_key c), (''anthropic-version'', anthropicAPIVersion)],
     hq_body = print_json (wire_request_json c rq)\<rparr>"

section \<open>What is read\<close>

fun to_bool :: "bool field" where
  "to_bool JNull z = Some z"
| "to_bool (JBool b) z = Some b"
| "to_bool _ z = None"

definition to_raw :: "json option field" where
  "to_raw v z = Some (Some v)"

definition wire_block_fields :: "(string \<times> content_block field) list" where
  "wire_block_fields =
     [(''type'', in_field cb_type cb_type_update to_string),
      (''text'', in_field cb_text cb_text_update to_string),
      (''id'', in_field cb_id cb_id_update to_string),
      (''name'', in_field cb_name cb_name_update to_string),
      (''input'', in_field cb_input cb_input_update to_raw),
      (''tool_use_id'', in_field cb_tool_use_id cb_tool_use_id_update to_string),
      (''content'', in_field cb_content cb_content_update to_string),
      (''is_error'', in_field cb_is_error cb_is_error_update to_bool)]"

text \<open>\<open>fromWireBlocks\<close>: the blocks are decoded straight into the loop's own shape.\<close>

definition fromWireBlocks :: "content_block list field" where
  "fromWireBlocks = to_slice (decode_struct wire_block_fields) content_block_zero"

definition wire_response_fields :: "(string \<times> model_response field) list" where
  "wire_response_fields =
     [(''stop_reason'', in_field mrs_stop_reason mrs_stop_reason_update to_string),
      (''content'', in_field mrs_content mrs_content_update fromWireBlocks)]"

definition message_answer :: "texts \<Rightarrow> answer \<Rightarrow> string + model_response" where
  "message_answer tx a =
     (case a of
        Unbuilt e \<Rightarrow> Inl (''building request: '' @ e)
      | Unsent e \<Rightarrow> Inl (''calling Anthropic API: '' @ e)
      | Unread e \<Rightarrow> Inl (''reading response: '' @ e)
      | Answer status body \<Rightarrow>
          if status < 200 \<or> 300 \<le> status then Inl (''Anthropic API returned '' @ decimal status @ '': '' @ body)
          else case Unmarshal wire_response_fields \<lparr>mrs_stop_reason = [], mrs_content = []\<rparr> body of
                 None \<Rightarrow> Inl (''decoding response: '' @ tx_json_error tx ''wireResponse'' body)
               | Some r \<Rightarrow> Inr r)"

definition CreateMessage :: "texts \<Rightarrow> 'm transport \<Rightarrow> anthropic_client \<Rightarrow> 'm model" where
  "CreateMessage tx send c rq m = (let (a, m') = send (message_request c rq) m in (message_answer tx a, m'))"

section \<open>Blocks survive the wire\<close>

text \<open>
  A block the API can have sent: its texts are UTF-8 and the strings of its input need no escaping
  of HTML characters.
\<close>

definition block_ok :: "content_block \<Rightarrow> bool" where
  "block_ok b = (list_all utf8 [cb_type b, cb_text b, cb_id b, cb_name b, cb_tool_use_id b, cb_content b] \<and>
     (\<forall>v. cb_input b = Some v \<longrightarrow> json_compact v = v))"

lemma blank_member:
  assumes "list_all plain k" "map_of fs k = Some (in_field get upd to_string)" "utf8 s" "s = [] \<Longrightarrow> upd (\<lambda>_. []) z = z"
  shows "decode_members fs (omit_blank k s @ ms) z = decode_members fs ms (upd (\<lambda>_. s) z)"
  using assms by (simp add: omit_blank_def decode_member string_field del: decode_members.simps(2))

lemma block_round_trip:
  assumes "block_ok b"
  shows "decode_struct wire_block_fields (wire_block_json b) content_block_zero = Some b"
proof -
  have u: "utf8 (cb_type b)" "utf8 (cb_text b)" "utf8 (cb_id b)" "utf8 (cb_name b)" "utf8 (cb_tool_use_id b)" "utf8 (cb_content b)"
    using assms by (simp_all add: block_ok_def)
  have input: "decode_members wire_block_fields (omit_empty ''input'' json_compact (cb_input b) @ ms) z =
      decode_members wire_block_fields ms (z\<lparr>cb_input := cb_input b\<rparr>)" if "cb_input z = None" for z ms
  proof (cases "cb_input b")
    case None
    moreover have "z\<lparr>cb_input := None\<rparr> = z" using that by simp
    ultimately show ?thesis by (simp add: omit_empty_def)
  next
    case (Some v)
    then have "json_compact v = v" using assms by (simp add: block_ok_def)
    then show ?thesis
      using Some by (simp add: omit_empty_def decode_member key_chars wire_block_fields_def in_field_def to_raw_def
        del: decode_members.simps(2))
  qed
  have last: "decode_members wire_block_fields (if cb_is_error b then [(''is_error'', JBool True)] else []) z =
      Some (z\<lparr>cb_is_error := cb_is_error b\<rparr>)" if "\<not> cb_is_error z" for z
    using that by (simp add: decode_member key_chars wire_block_fields_def in_field_def del: decode_members.simps(2))
  have get: "map_of wire_block_fields ''text'' = Some (in_field cb_text cb_text_update to_string)"
    "map_of wire_block_fields ''id'' = Some (in_field cb_id cb_id_update to_string)"
    "map_of wire_block_fields ''name'' = Some (in_field cb_name cb_name_update to_string)"
    "map_of wire_block_fields ''tool_use_id'' = Some (in_field cb_tool_use_id cb_tool_use_id_update to_string)"
    "map_of wire_block_fields ''content'' = Some (in_field cb_content cb_content_update to_string)"
    "map_of wire_block_fields ''type'' = Some (in_field cb_type cb_type_update to_string)"
    by (simp_all add: wire_block_fields_def)
  have "decode_members wire_block_fields ([(''type'', json_text (cb_type b))] @ ms) z =
      decode_members wire_block_fields ms (z\<lparr>cb_type := cb_type b\<rparr>)" for z ms
    by (simp add: decode_member key_chars get string_field u del: decode_members.simps(2))
  then show ?thesis
    unfolding wire_block_json_def decode_struct_def json.case
    by (simp only:) (simp add: blank_member [OF _ get(1)] blank_member [OF _ get(2)] blank_member [OF _ get(3)]
      blank_member [OF _ get(4)] blank_member [OF _ get(5)] u key_chars input last content_block_zero_def
      del: decode_members.simps)
qed

text \<open>What the model answered is what it reads of itself in the next request.\<close>

lemma blocks_round_trip: "list_all block_ok bs \<Longrightarrow> fromWireBlocks (toWireBlocks bs) z = Some bs"
proof -
  assume "list_all block_ok bs"
  then have "to_elems (decode_struct wire_block_fields) content_block_zero (map wire_block_json bs) = Some bs"
    by (induction bs) (simp_all add: block_round_trip)
  then show ?thesis by (simp add: fromWireBlocks_def toWireBlocks_def)
qed

end
