(* ===== verification/Demo_Agent.thy ===== *)
theory Demo_Agent
  imports Agent_Backend Anthropic Demo_Http
begin

text \<open>
  The demo agent against the demo database: what its requests are answered with there.
\<close>

definition demo_texts :: texts where
  "demo_texts = \<lparr>tx_json_error = (\<lambda>target text. ''invalid JSON''), tx_quote = (\<lambda>s. s)\<rparr>"

definition demo_client :: "string \<Rightarrow> api_client" where
  "demo_client token = NewClient ''http://localhost:8080'' token"

definition demo_backend :: "(nat \<times> db) transport" where
  "demo_backend = backend demo_env demo_policy (\<lambda>n. demo_gens) ''http://localhost:8080''"

lemma demo_header: "header_ok (bearer_value (demo_client ''a''))" "header_value (bearer_value (demo_client ''a'')) = ''Bearer a''"
  "header_ok (bearer_value (demo_client ''c''))" "header_value (bearer_value (demo_client ''c'')) = ''Bearer c''"
  by code_simp+

text \<open>Alice reads her event.\<close>

definition demo_shown :: event_response where
  "demo_shown = NewEventResponse (toEvent (hd (t_events demo_db)))"

lemma demo_get:
  "ServeHTTP demo_env demo_policy demo_gens ''GET'' [''v1'', ''events'', ''10''] (backend_request ''Bearer a'' []) demo_db =
     (\<lparr>rs_status = 200, rs_body = EventBody demo_shown\<rparr>, demo_db)"
proof -
  have b: "bearerToken (backend_request ''Bearer a'' []) = Some ''a''" by code_simp
  have c: "caller demo_env (demo_gens 0) (backend_request ''Bearer a'' []) demo_db = Some (demo_alice, demo_db)"
    by (rule demo_caller_known [OF b demo_verify_a]) (simp add: demo_alice_known)
  have u: "en_uuid demo_env ''10'' = Some 10" by (simp add: demo_ids)
  have r: "member_role (usr_id demo_alice) 10 demo_db = Some ''admin''" using demo_roles by (simp add: demo_alice_def)
  have p: "perm ''admin'' ''event'' ''read'' \<in> set (po_permissions demo_policy)" by code_simp
  have h: "GetEvent demo_env ((path_request (Handle ''GET'' (event_path []) (Permitted ResourceEvent ActionRead) (GetEvent demo_env))
      [''v1'', ''events'', ''10''] (backend_request ''Bearer a'' []))\<lparr>rq_user := Some demo_alice, rq_role := Some ''admin''\<rparr>) demo_db =
      (\<lparr>rs_status = 200, rs_body = EventBody demo_shown\<rparr>, demo_db)" by code_simp
  show ?thesis
    using serve_permitted [where gs = demo_gens, OF named_routes(2) _ c u r] p h by (simp add: Handle_def)
qed

lemma demo_readable: "readable demo_env (EventBody demo_shown)"
proof -
  have s: "demo_shown = \<lparr>evr_id = 10, evr_name = ''Conf'', evr_description = None, evr_timezone = ''UTC'', evr_starts_at = 1000,
      evr_ends_at = 900000, evr_version = 1, evr_created_at = 10, evr_updated_at = 10\<rparr>" by code_simp
  have "event_encodes demo_env demo_shown"
    "list_all utf8 [en_text demo_env (evr_id demo_shown), evr_name demo_shown, evr_timezone demo_shown]" by code_simp+
  then show ?thesis by (simp add: event_readable_def s int64_def)
qed

lemma demo_denied_args:
  "tool_args_of (tool_fields ''list_sessions'') (Some (JObj [(''event_id'', json_text ''10'')])) = Some \<lparr>ta_event_id = ''10'', ta_cursor = []\<rparr>"
  "tool_args_of (tool_fields ''list_sessions'') (Some (JObj [(''event_id'', json_text ''99'')])) = Some \<lparr>ta_event_id = ''99'', ta_cursor = []\<rparr>"
  by code_simp+

lemma demo_proper: "proper_id ''10''" "proper_id ''99''"
  by code_simp+

text \<open>Carol has not signed in before and is no member of anything.\<close>

lemma demo_stranger:
  "caller demo_env (demo_gens 0) (backend_request ''Bearer c'' q) demo_db =
     Some (demo_carol (demo_gen 50), demo_db\<lparr>t_users := t_users demo_db @ [demo_carol (demo_gen 50)]\<rparr>)"
  "member_role (usr_id (demo_carol (demo_gen 50))) k (demo_db\<lparr>t_users := t_users demo_db @ [demo_carol (demo_gen 50)]\<rparr>) = None"
proof -
  have "bearerToken (backend_request ''Bearer c'' q) = Some ''c''"
    by (simp add: bearerToken_def bearerPrefix_def backend_request_def)
  moreover have "bearerToken (demo_request ''c'' []) = Some ''c''" by (simp add: demo_bearer)
  ultimately show "caller demo_env (demo_gens 0) (backend_request ''Bearer c'' q) demo_db =
     Some (demo_carol (demo_gen 50), demo_db\<lparr>t_users := t_users demo_db @ [demo_carol (demo_gen 50)]\<rparr>)"
    using demo_caller_carol [of "[]"] by (simp add: caller_def demo_gens_def)
  show "member_role (usr_id (demo_carol (demo_gen 50))) k (demo_db\<lparr>t_users := t_users demo_db @ [demo_carol (demo_gen 50)]\<rparr>) = None"
    by (simp add: member_role_None demo_tables demo_admin_row_def demo_member_row_def new_admin_row_def new_member_row_def
        demo_carol_def demo_gen_def)
qed

text \<open>A model that asks for event 10 and is done once it has read it.\<close>

definition demo_call :: content_block where
  "demo_call = content_block_zero\<lparr>cb_type := ''tool_use'', cb_id := ''t1'', cb_name := ''get_event'',
     cb_input := Some (JObj [(''event_id'', json_text ''10'')])\<rparr>"

definition demo_model :: "nat model" where
  "demo_model rq m =
     (Inr (if m = 0 then \<lparr>mrs_stop_reason = ''tool_use'', mrs_content = [demo_call]\<rparr>
           else \<lparr>mrs_stop_reason = ''end_turn'', mrs_content = [text_block ''Done.'']\<rparr>), Suc m)"

lemma demo_asks:
  "tool_known ''get_event'' \<lparr>ta_event_id = ''10'', ta_cursor = []\<rparr>"
  "tool_args_of (tool_fields ''get_event'') (Some (JObj [(''event_id'', json_text ''10'')])) = Some \<lparr>ta_event_id = ''10'', ta_cursor = []\<rparr>"
  "tool_request ''get_event'' \<lparr>ta_event_id = ''10'', ta_cursor = []\<rparr> = ([''v1'', ''events'', ''10''], [])"
  "tool_text demo_env ''get_event'' \<lparr>rs_status = 200, rs_body = EventBody demo_shown\<rparr> =
     Some (print_json (event_json demo_env demo_shown), False)"
proof -
  show "tool_known ''get_event'' \<lparr>ta_event_id = ''10'', ta_cursor = []\<rparr>" by code_simp
  show "tool_args_of (tool_fields ''get_event'') (Some (JObj [(''event_id'', json_text ''10'')])) = Some \<lparr>ta_event_id = ''10'', ta_cursor = []\<rparr>"
    by code_simp
qed (simp_all add: tool_request_def)

lemma demo_base: "cl_base_url (demo_client token) = ''http://localhost:8080''"
  by (simp add: demo_client_def NewClient_def)

lemma demo_served:
  "ServeHTTP demo_env demo_policy demo_gens ''GET'' [''v1'', ''events'', ''10''] (backend_request (header_value (bearer_value (demo_client ''a''))) [])
     demo_db = (\<lparr>rs_status = 200, rs_body = EventBody demo_shown\<rparr>, demo_db)"
  by (simp only: demo_header demo_get)

lemma demo_shown_readable: "readable demo_env (rs_body \<lparr>rs_status = 200, rs_body = EventBody demo_shown\<rparr>)"
  using demo_readable by simp

lemma demo_dispatch:
  "Dispatch demo_texts demo_backend (demo_client ''a'') ''get_event'' (Some (JObj [(''event_id'', json_text ''10'')])) (0, demo_db) =
     (Inr (print_json (event_json demo_env demo_shown), False), (1, demo_db))"
  using backend_tool [where gss = "\<lambda>n. demo_gens" and n = 0,
      OF demo_header(1) demo_base demo_asks(1-3) demo_served demo_asks(4) demo_shown_readable]
  by (simp add: demo_backend_def)

lemma demo_talk:
  "\<exists>l. Run demo_texts (recorded demo_model) demo_backend (demo_client ''a'') systemPrompt ''Which event is 10?'' ([], 0) (0, demo_db) =
     (Inr ''Done.'', (l, 2), (1, demo_db)) \<and> length l = 2"
proof -
  obtain k where turns: "maxAgentTurns = Suc (Suc k)" by (simp add: maxAgentTurns_def numeral_eq_Suc)
  have "is_call demo_call" "cb_name demo_call = ''get_event''" "cb_input demo_call = Some (JObj [(''event_id'', json_text ''10'')])"
    by (simp_all add: is_call_def demo_call_def)
  then show ?thesis
    unfolding Run_def turns
    by (simp add: recorded_def demo_model_def demo_dispatch text_block_def content_block_zero_def)
qed

end
