(* ===== verification/Spec2Isabelle.thy ===== *)
theory Spec2Isabelle
  imports Demo_Http Event_Lock Demo_Seed Uuid_V7 Demo_Agent
begin

text \<open>
  Krane, an event management backend in Go: users sign in with an OpenID token, create events, take on
  members with one of three roles, add rooms, book sessions (single or recurring) and invite guests
  (one by one or in bulk under an idempotency key). Requests pass the mux (internal/http/router.go), the
  authentication and authorization middleware (internal/http/middleware), a handler that decodes,
  validates, calls one service and shapes the answer (internal/http/handler, request, response), and a
  repository that runs SQL in one transaction against Postgres (internal/adapter/postgres). The tables
  and their constraints (migrations/) carry most of the guarantees. This library models that whole path,
  from the segments of a URL and the bytes of a body to the rows of the tables.

  How the theories correspond to the code:

  \<^item> Prelude: lists as tables (rows keyed by an id), error sums and their sequencing.
  \<^item> Paging: the keyset query and trim that the five list endpoints share; the locale \<open>keyset_list\<close> and
    walks over next_cursor.
  \<^item> Entities: internal/domain/*/entity.go and port.go, domain/errors.go, domain/opt. Row types are those
    of the repositories; identifiers are natural numbers, instants are nanoseconds since 0001-01-01T00:00Z.
  \<^item> Schema: each table of migrations/ as a list, each INSERT, UPDATE or DELETE as a function that checks
    the table's keys, CHECKs, foreign keys and the two EXCLUDE constraints and returns the new database or
    the Postgres error. Db_Inv: the constraints as an invariant, \<open>db_ok\<close>, kept by every statement.
  \<^item> Versioned: the locale \<open>versioned_write\<close>, the optimistic lock of updates and deletes.
  \<^item> User_Repo, Event_Repo, Member_Repo, Room_Repo, Session_Repo, Invitation_Repo: the repositories, one
    definition per method, with the services of internal/domain/*/service.go.
  \<^item> System: all writing operations as one state machine, the reachable states, and what a committed
    transaction can have done (\<open>tx_write_effect\<close>). Invariants: the admin of every event and the replay of
    the audit log. Roles: who has which role as an abstract map, its four steps, and the refinement.
  \<^item> Civil, Local_Time: the proleptic calendar, Go's time.Date, ParseInLocation and Format for the layout of
    internal/utils/localtime.go, and ResolveLocalTime. Go_Text: strings.TrimSpace, strconv.Atoi,
    time.LoadLocation, RFC 3339. Json: encoding/json's scanner and the decoding into structs.
    Cursor_Token: internal/utils/cursor.go down to base64.
  \<^item> Requests, Responses: internal/http/request and response. Http: the request and its context, the steps
    all handlers begin with, health.go. Auth: adapter/auth/verifier.go and middleware/auth.go. Authz:
    domain/authz, adapter/authz/policy.go, the seed migration of role_permissions, middleware/authz.go.
  \<^item> Contract: the locale \<open>answer_contract\<close> and its interpretations: a handler reads, a handler does
    nothing but one service operation, a handler shows e-mail addresses to admins only. Event_Handler,
    Member_Handler, Room_Handler, Session_Handler, Invitation_Handler: the handlers and their contracts.
  \<^item> Router: router.go and the dispatch of net/http's ServeMux. Access: one case rule for a served request.
    Journeys: what an answer implies for the next request. Demo, Demo_Http: a concrete run and a concrete
    environment, on which the properties are evaluated.
  \<^item> Event_Lock: calls of AssignRole and Delete that run at the same time, each under the row lock its
    SELECT ... FOR UPDATE takes, as a step relation over a database, the locks and the jobs in flight.
  \<^item> Seed, Seed_Load, Uuid_V7: cmd/seed. The generator is a state monad with the panics of the code as
    errors; Truncate and Load run statement by statement against the tables of Schema; the self-check; the
    bytes and the text of an id. Seed_Steps, Seed_Slots, Seed_Ok, Seed_All: total correctness of the
    generator (\<open>runs\<close>), from one row to the whole data set; Seed_Check: what its steps leave alone
    (\<open>quietly\<close>) and the self-check; Seed_Overlap: the overlap check; Demo_Seed: a concrete environment.
  \<^item> Json_Print: encoding/json's printing, and that its scanner reads every printed value back.
    Response_Json: the bytes of every answer (the struct tags of internal/http/response, \<open>writeJSON\<close>).
  \<^item> Url_Text: net/url's escaping. Agent_Client, Agent_Tools, Agent_Loop, Anthropic: cmd/agent, file by file
    (client.go; tools.go; agent.go, scenarios.go and main.go; anthropic.go), over a \<open>transport\<close> and a \<open>model\<close>
    with states of their own; the locale \<open>agent_services\<close> is what a run needs of the two. Agent_Decode: what
    the client makes of the backend's bodies. Agent_Backend: the backend as a transport, with the interpretation
    of the locale on it. Demo_Agent: runs against the demo database.

  What the properties show: invariants of reachable states (an admin on every event, no double booking, the
  replay of the audit log, the constraints of the schema); the optimistic lock and the pages of the lists,
  which rest on the two repository locales; the behaviour of single operations, errors included; and the
  requests: who is refused and how (401, the same 403 for missing and foreign events), which requests can
  write at all, who sees e-mail addresses, what holds of every database a sequence of requests can produce,
  the refinement of the role map, journeys over two requests, page tokens, and local times around a change
  of offset; concurrent changes of the members of an event; that `make seed` ends with a database that
  satisfies every constraint; that every printed answer is read back; and of the demo agent that it only
  reads, shows what the backend answered, and keeps its conversation with the model in order.

  Parameters, for what is not in the repository: go-oidc's verifier, the time zone database and the zone
  of the process, the case folding of citext, the text form of uuids, SHA-256, the ping of the database
  (record \<open>env\<close>), the random source, the ids and the zones of cmd/seed (record \<open>seed_env\<close>) and the answers
  of the demo issuer's token endpoint, how the agent's requests are sent, what its model answers and the
  texts of encoding/json errors (\<open>transport\<close>, \<open>model\<close>, record \<open>texts\<close>), and what a transaction draws from Postgres, its timestamp and fresh ids (record \<open>txgen\<close>;
  ids are arbitrary, a clash is a key violation). Hypotheses on them are written in the properties that
  need them. A zone is a function to the offset and the bounds of the period that has it; the two
  properties on local times assume one change of offset within two days of the wall clock
  (\<open>one_change\<close>), which holds of the zones in use.

  Fuel: the JSON scanner recurses with fuel \<open>2 * length + 2\<close>; \<open>parse_value_fuel\<close> shows that more never
  changes its result. The rejection sampling of cmd/seed is a \<open>partial_function\<close>, whose return for a source
  that never stops drawing any number is part of \<open>seed_run_succeeds\<close>. The agent's loop recurses on the turns that
  are left, 8 as in the code. Everything else is structural
  recursion or a proved termination.

  Machine integers: Go's int is 64 bits (\<open>int64\<close> bounds \<open>atoi\<close> and the series' steps wrap around as
  time.Duration does), Postgres's integer is 32 bits (\<open>int4\<close>, out of range fails the statement);
  instants are rounded to microseconds when they are sent to Postgres (\<open>pg_time\<close>).

  Not modelled: connection failures, timeouts and cancelled contexts; logging; interleavings inside one transaction, apart from those of AssignRole and
  Delete (elsewhere each transaction is atomic, operations interleave between transactions, and the bulk
  endpoint's race is a property of its own); texts with a
  NUL byte; ServeMux's redirects of unclean paths (but for the agent's requests); the panic of EncodeCursor for years outside 0 to 9999;
  grants, indexes and down migrations; server.go, bootstrap, container and configuration; the generated
  api.gen.go; the OpenAPI validator of the tests.
\<close>

section \<open>Further facts\<close>

text \<open>
  Demoting or removing the only admin of an event is refused with ErrConflict and changes
  nothing, whatever else the event's member list holds.
\<close>

lemma last_admin_cannot_leave:
  assumes "find_member ev k s = Some m" "mr_version m = v" "mr_role m = ''admin''"
    and "\<forall>x \<in> set (t_members s). mr_event_id x = ev \<and> mr_role x = ''admin'' \<longrightarrow> mr_id x = k"
    and "role \<noteq> ''admin''"
  shows "member_assign_role g a ev k v role s = (Inl ErrConflict, s) \<and> member_delete g a ev k v s = (Inl ErrConflict, s)"
proof -
  have "\<not> other_admin ev k s" using assms(4) by (auto simp: other_admin_def)
  then show ?thesis
    using assms by (simp add: member_assign_role_def member_delete_def diagnoseAdminGuardedFailure_def in_tx_def)
qed

text \<open>
  A GET or HEAD request, answered in whatever way, changes nothing but the users table (the
  sign-in of a first-time caller).
\<close>

lemma gets_change_nothing:
  assumes "m = ''GET'' \<or> m = ''HEAD''"
  shows "\<exists>us. snd (ServeHTTP env p gs m path rq s) = s\<lparr>t_users := us\<rparr>"
  using assms by (rule get_serves_users)

text \<open>
  After a successful update or delete of an event or a session, a second write that still names
  the old version is answered with not-found or version-mismatch and changes nothing.
\<close>

lemma second_writer_is_refused:
  assumes "db_ok ci s" "event_write a k v s = (Inr r, s1)" "session_write c j w s = (Inr q, s2)"
  shows "event_write b k v s1 \<in> {(Inl ErrNotFound, s1), (Inl ErrVersionMismatch, s1)} \<and>
    session_write d j w s2 \<in> {(Inl ErrNotFound, s2), (Inl ErrVersionMismatch, s2)}"
  using event_versioned.second_write_refused [OF assms(1,2), of b]
    session_versioned.second_write_refused [OF assms(1,3), of d] by blast

text \<open>
  Signing in again with the same subject returns the user created by the first sign-in and
  writes nothing, whatever e-mail and name the new token carries.
\<close>

lemma sign_in_is_stable:
  assumes "user_get_or_create_by_subject ci g sub email name s = (Inr u, s')"
  shows "user_get_or_create_by_subject ci g2 sub email2 name2 s' = (Inr u, s')"
  using user_get_or_create_existing user_get_or_create_result [OF assms] by blast

text \<open>
  After a session is deleted, only other live sessions can exclude a new booking: the cancelled
  one no longer holds its room or its speaker.
\<close>

lemma cancelling_frees_the_slot:
  assumes "db_ok ci s" "session_delete g a ev k v s = (Inr r, s')"
    and "excluded_by sr_room_id x (t_sessions s') \<or> excluded_by sr_speaker_id x (t_sessions s')"
  shows "\<exists>y \<in> set (t_sessions s). live y \<and> sr_id y \<noteq> k \<and> overlaps y x \<and>
    (sr_room_id y = sr_room_id x \<or> sr_speaker_id y = sr_speaker_id x)"
  using assms(3) session_delete_frees [OF assms(1,2), of sr_room_id x] session_delete_frees [OF assms(1,2), of sr_speaker_id x]
  by blast

text \<open>
  As long as the offset of an occurrence is at most 106751 days (the int64 range of
  time.Duration), occurrence i starts exactly i steps of IntervalCount days or weeks after the
  first.
\<close>

lemma series_is_evenly_spaced:
  assumes "0 \<le> sxi_interval_count inp" "sxi_freq inp = ''weekly'' \<or> sxi_freq inp = ''daily''"
    and "int i * (if sxi_freq inp = ''weekly'' then 7 * sxi_interval_count inp else sxi_interval_count inp) \<le> 106751"
  shows "occurrence_start inp i = sxi_first_starts_at inp +
    int i * (if sxi_freq inp = ''weekly'' then 7 * sxi_interval_count inp else sxi_interval_count inp) * (24 * 60 * 60 * 1000000000)"
  using occurrence_start_even [of inp i] assms by (simp add: step_days_def day_ns_def)

text \<open>
  A PATCH of an event that is valid and permitted but names another version than the stored one
  is answered with 409, carries the event as it is stored now, and writes nothing.
\<close>

lemma stale_patch_shows_current:
  assumes "caller env (gs 0) rq s = Some (u, s1)" "e \<noteq> []" "en_uuid env e = Some ev" "member_role (usr_id u) ev s1 = Some role"
    and "perm role ''event'' ''update'' \<in> set (po_permissions p)"
    and "json_first (rq_body rq) = Some v" "decode_struct patch_event_fields v patch_event_zero = Some req"
    and "patch_event_validate (zone_of env) req = []" "int4 (per_version req)"
    and "find_live_event ev s1 = Some row" "er_version row \<noteq> per_version req"
  shows "ServeHTTP env p gs ''PATCH'' [''v1'', ''events'', e] rq s =
    (\<lparr>rs_status = 409, rs_body = Envelope ''version_conflict'' ''the event was modified by someone else; reload and retry''
       (Current (Some (EventBody (NewEventResponse (toEvent row)))))\<rparr>, s1)"
proof -
  let ?rq = "(path_request (Handle ''PATCH'' (event_path []) (Permitted ResourceEvent ActionUpdate) (PatchEvent env gs))
    [''v1'', ''events'', e] rq)\<lparr>rq_user := Some u, rq_role := Some role\<rparr>"
  have "ServeHTTP env p gs ''PATCH'' [''v1'', ''events'', e] rq s = PatchEvent env gs ?rq s1"
    using serve_permitted [of "''PATCH''" e "[]" env gs, OF named_routes(3) [OF assms(2)] _ assms(1,3,4)] assms(5)
    by (simp add: Handle_def)
  moreover have "event_update (gs 1) (usr_id u) ev (per_version req) (patch_event_to_patch req) s1 = (Inl ErrVersionMismatch, s1)"
    using assms(10,11) by (simp add: event_update_def event_versioned_write_def in_tx_def)
  moreover have "PathValue ?rq ''eventId'' = e" "rq_user ?rq = Some u" "rq_body ?rq = rq_body rq"
    using assms(2) by (simp_all add: path_request_def PathValue_def value_of_def Handle_def event_path_def events_path_def)
  moreover have "event_fetch env e s1 = Inr (toEvent row)"
    using assms(3,10) by (simp add: event_fetch_def bind_uuid_def service_get_event_def event_get_def)
  ultimately show ?thesis
    using assms(2,3,6-9)
    by (simp add: PatchEvent_def handler_steps bind_uuid_def bind_int_def service_update_event_def event_domain_error_def
        event_current_def WriteError_def)
qed

text \<open>
  On a database that satisfies the schema, Truncate empties every table it means to if no
  recurring series was ever created. Otherwise it always fails on a foreign key, and since its
  statements commit one by one the invitations and the whole audit log, of every user, are
  already gone while the users, events and rooms are all still there.
\<close>

lemma truncate_needs_no_series:
  assumes "db_ok ci s"
  shows "if t_series s = [] then Truncate s = (Inr (), empty_db)
    else \<exists>c s'. Truncate s = (Inl (ForeignKeyViolation c), s') \<and> t_invitations s' = [] \<and> t_audit s' = [] \<and>
      t_users s' = t_users s \<and> t_events s' = t_events s \<and> t_rooms s' = t_rooms s"
  using Truncate_plain [OF assms] Truncate_series [OF assms] by simp

text \<open>
  A room cannot be deleted while any session row names it, a cancelled one included: the delete
  is answered with ErrConflict although the room has no live session.
\<close>

lemma cancelled_sessions_pin_their_room:
  assumes "find_room ev k s = Some r" "rr_version r = v"
    and "x \<in> set (t_sessions s)" "sr_room_id x = k" "sr_deleted_at x = Some d"
  shows "room_delete g a ev k v s = (Inl ErrConflict, s)"
  by (rule room_delete_referenced [OF assms(1-4)])

text \<open>
  CreateSeries is not one transaction: once the session_series row is accepted it stays in the
  database, also when the loop then fails (a room of another event, for instance) and the caller
  gets an error.
\<close>

lemma failed_series_leaves_its_row:
  assumes "insert_series (new_series g ev inp) s = Inr s1"
  shows "\<exists>x \<in> set (t_series (snd (session_create_series g gs a ev inp s))). sx_id x = g_id g"
  using session_create_series_keeps_row [OF assms, of gs a] by auto

text \<open>
  Updating a session never reports a booking conflict: moving it into a slot whose room is taken
  comes back as a wrapped database error, unlike creating it there.
\<close>

lemma moving_into_a_taken_slot_is_internal:
  assumes "find_session ev k s = Some old" "sr_version old = v"
    and "sr_starts_at (session_set g patch old) < sr_ends_at (session_set g patch old)"
    and "excluded_by sr_room_id (session_set g patch old) (t_sessions s)"
  shows "\<exists>c. session_update g a ev k v patch s = (Inl (ErrOther (Pg (ExclusionViolation c))), s)"
  using session_update_taken [OF assms] by blast

text \<open>
  Following next_cursor over any of the five list endpoints, each page read from whatever state
  the table is in at that moment, yields rows in strictly increasing (created_at, id) order: no
  row is repeated.
\<close>

lemma pages_are_strictly_ordered:
  assumes "0 < limit" "\<forall>s \<in> set ss. db_ok ci s"
  shows "sorted_wrt (<) (map event_key (fst (walk (event_list_pairs u limit) None ss))) \<and>
    sorted_wrt (<) (map member_key (fst (walk (member_list_pairs ev limit) None ss))) \<and>
    sorted_wrt (<) (map room_key (fst (walk (room_list_pairs ev limit) None ss))) \<and>
    sorted_wrt (<) (map session_key (fst (walk (session_list_pairs ev limit) None ss))) \<and>
    sorted_wrt (<) (map invitation_key (fst (walk (invitation_list_pairs ev limit) None ss)))"
  using event_listing.walk_strict [OF assms] member_listing.walk_strict [OF assms]
    room_listing.walk_strict [OF assms] session_listing.walk_strict [OF assms]
    invitation_listing.walk_strict [OF assms] by blast

section \<open>Properties\<close>

text \<open>
  C1. In every state the backend can reach, each event (soft-deleted ones included) has a member
  whose role is admin: the last-admin guard of AssignRole and Delete is never circumvented by
  any sequence of operations.
\<close>

theorem events_keep_an_admin:
  assumes "reachable ci s" "e \<in> set (t_events s)"
  shows "\<exists>m \<in> set (t_members s). mr_event_id m = er_id e \<and> mr_role m = ''admin''"
  using reachable_admins [OF assms(1)] assms(2) by (simp add: admins_ok_def has_admin_def)

theorem events_keep_an_admin_witness:
  "\<exists>m \<in> set (t_members demo_db). mr_event_id m = er_id demo_event_row \<and> mr_role m = ''admin''"
  by (rule events_keep_an_admin [OF demo_reachable]) (simp add: demo_tables)

text \<open>
  C2. However AssignRole and Delete calls interleave with each other and with the other
  transactions of the backend (each call takes the event's row lock, runs its guarded statement
  against what is committed, and commits or quits later), the database is one that a serial run
  gives, every event still has an admin, and a statement that has run is at every later moment
  still what the serial operation would do there.
\<close>

theorem concurrent_calls_keep_an_admin:
  assumes "reachable ci s" "interleaved ci s c"
  shows "tx_writes ci s (cf_db c) \<and>
    (\<forall>e \<in> set (t_events (cf_db c)). \<exists>m \<in> set (t_members (cf_db c)). mr_event_id m = er_id e \<and> mr_role m = ''admin'') \<and>
    (\<forall>t w ev k v old. cf_jobs c t = Some ((w, ev, k, v), Written old) \<longrightarrow>
      member_write w (ev, k) v (cf_db c) = (Inr (), commit_write w old (cf_db c)))"
proof -
  have ok: "db_ok ci s" "admins_ok s" using assms(1) reachable_db_ok reachable_admins by blast+
  have inv: "lock_inv c" and w: "tx_writes ci s (cf_db c)" using interleaved_serial assms(2) ok(1) by blast+
  have "admins_ok (cf_db c)"
    using tx_writes_keep [of ci s "cf_db c" admins_ok, OF w ok] tx_write_admins by blast
  then show ?thesis
    using w inv unfolding lock_inv_def still_decided_def written_def by (simp add: admins_ok_def has_admin_def)
qed

theorem concurrent_calls_keep_an_admin_witness:
  "tx_writes id two_admins (cf_db first_wrote) \<and>
   (\<exists>m \<in> set (t_members (cf_db first_wrote)). mr_event_id m = er_id demo_event_row \<and> mr_role m = ''admin'') \<and>
   member_write (fst demote_alice) (10, 110) 1 (cf_db first_wrote) =
     (Inr (), commit_write (fst demote_alice) demo_admin_row (cf_db first_wrote))"
proof -
  note c = concurrent_calls_keep_an_admin [OF two_admins_reachable first_wrote_interleaved]
  have "cf_jobs first_wrote 1 = Some ((fst demote_alice, 10, 110, 1), Written demo_admin_row)"
    by (simp add: first_wrote_def demote_alice_def)
  moreover have "demo_event_row \<in> set (t_events (cf_db first_wrote))"
    by (simp add: first_wrote_def two_admins_eq demo_tables)
  ultimately show ?thesis using c by blast
qed

text \<open>
  C3. In every reachable state two different live sessions that share a room or a speaker are
  disjoint in time (half-open intervals), across all events.
\<close>

theorem no_double_booking_reachable:
  assumes "reachable ci s" "x \<in> set (t_sessions s)" "y \<in> set (t_sessions s)" "sr_id x \<noteq> sr_id y"
    and "sr_deleted_at x = None" "sr_deleted_at y = None"
    and "sr_room_id x = sr_room_id y \<or> sr_speaker_id x = sr_speaker_id y"
  shows "sr_ends_at x \<le> sr_starts_at y \<or> sr_ends_at y \<le> sr_starts_at x"
proof -
  have "no_double_booking sr_room_id (t_sessions s)" "no_double_booking sr_speaker_id (t_sessions s)"
    using db_okD(5) [OF reachable_db_ok [OF assms(1)]] by (simp_all add: sessions_ok_def)
  then have "\<not> overlaps x y" using assms(2-) unfolding no_double_booking_def live_def by blast
  then show ?thesis by (auto simp: overlaps_def ranges_overlap_def)
qed

theorem no_double_booking_reachable_witness:
  "sr_ends_at demo_session_row \<le> sr_starts_at demo_session_row2 \<or>
   sr_ends_at demo_session_row2 \<le> sr_starts_at demo_session_row"
  by (rule no_double_booking_reachable [OF demo_reachable])
    (simp_all add: demo_tables, simp_all add: demo_defs new_session_row_def)

text \<open>
  C4. A request that changes more than the users table was sent by a signed-in caller and is
  either POST /v1/events or goes to a route under an event whose role table grants the caller's
  role there an action other than read.
\<close>

theorem writes_need_a_permission:
  assumes "\<forall>us. snd (ServeHTTP env p gs m path rq s) \<noteq> s\<lparr>t_users := us\<rparr>"
  shows "\<exists>u s1. caller env (gs 0) rq s = Some (u, s1) \<and>
    (m = ''POST'' \<and> path = [''v1'', ''events''] \<or>
     (\<exists>e xs ev role res act. path = ''v1'' # ''events'' # e # xs \<and> en_uuid env e = Some ev \<and>
        member_role (usr_id u) ev s1 = Some role \<and> act \<noteq> ActionRead \<and>
        perm role (resource_text res) (action_text act) \<in> set (po_permissions p)))"
proof (cases rule: serve_cases [of m path env gs p rq s])
  case (signed_in r u s1)
  have "m \<noteq> ''GET'' \<and> m \<noteq> ''HEAD''" using get_serves_users [of m] assms by blast
  then have "m = ''POST''" "ro_path r = events_path"
    using find_route_in [OF signed_in(1)] signed_in(2) signed_in_route_methods
    by (auto simp: takes_method_def elim: route_guards)
  then show ?thesis using signed_in(3) find_route_in [OF signed_in(1)] match_events_path by simp
next
  case (handled r u s1 res act ev role)
  from handled(1,2) obtain e xs where e: "path = ''v1'' # ''events'' # e # xs"
    "PathValue (path_request r path rq) ''eventId'' = e" "ro_method r = ''GET'' \<longleftrightarrow> act = ActionRead"
    by (rule permitted_route)
  have "m \<noteq> ''GET'' \<and> m \<noteq> ''HEAD''" using get_serves_users [of m] assms by blast
  then have "act \<noteq> ActionRead" using e(3) find_route_in [OF handled(1)] by (auto simp: takes_method_def)
  moreover have "en_uuid env e = Some ev" using handled(4) e(2) by simp
  ultimately show ?thesis using handled(3,5,6) e(1) by metis
next
  case (open_route r)
  then show ?thesis using assms [rule_format, of "t_users s"] by (simp add: HealthServeHTTP_def split: if_splits)
next
  case (blocked r u s1)
  obtain us where "s1 = s\<lparr>t_users := us\<rparr>" using caller_writes_users [OF blocked(3)] by blast
  then show ?thesis using assms blocked(4) by (metis snd_conv)
qed (use assms [rule_format, of "t_users s"] in simp_all)

theorem writes_need_a_permission_witness:
  "\<exists>u s1 e xs ev role res act. caller demo_env (demo_gens 0) (demo_request ''a'' demo_rename) demo_db = Some (u, s1) \<and>
     [''v1'', ''events'', ''10''] = ''v1'' # ''events'' # e # xs \<and> en_uuid demo_env e = Some ev \<and>
     member_role (usr_id u) ev s1 = Some role \<and> act \<noteq> ActionRead \<and>
     perm role (resource_text res) (action_text act) \<in> set (po_permissions demo_policy)"
proof -
  have "t_events (snd (ServeHTTP demo_env demo_policy demo_gens ''PATCH'' [''v1'', ''events'', ''10'']
      (demo_request ''a'' demo_rename) demo_db)) \<noteq> t_events demo_db"
    by code_simp
  then have "\<forall>us. snd (ServeHTTP demo_env demo_policy demo_gens ''PATCH'' [''v1'', ''events'', ''10'']
      (demo_request ''a'' demo_rename) demo_db) \<noteq> demo_db\<lparr>t_users := us\<rparr>"
    by auto
  from writes_need_a_permission [OF this] show ?thesis by auto
qed

text \<open>
  C5. On every route under an event, a signed-in caller who is not a member gets the same 403,
  and nothing but the sign-in is written, whether or not the event exists: the answer does not
  reveal it.
\<close>

theorem outsiders_are_refused:
  assumes "caller env (gs 0) rq s = Some (u, s1)" "member_role (usr_id u) ev s1 = None" "en_uuid env e = Some ev"
    and "find_route m (''v1'' # ''events'' # e # xs) (NewRouter env gs) = Some r"
  shows "ServeHTTP env p gs m (''v1'' # ''events'' # e # xs) rq s = (writeForbidden, s1)"
  using assms by (rule outsider_forbidden)

theorem outsiders_are_refused_witness:
  "fst (ServeHTTP demo_env demo_policy demo_gens ''GET'' [''v1'', ''events'', ''10''] (demo_request ''c'' []) demo_db) = writeForbidden \<and>
   fst (ServeHTTP demo_env demo_policy demo_gens ''GET'' [''v1'', ''events'', ''99''] (demo_request ''c'' []) demo_db) = writeForbidden"
proof -
  have c: "caller demo_env (demo_gens 0) (demo_request ''c'' []) demo_db =
      Some (demo_carol (demo_gen 50), demo_db\<lparr>t_users := t_users demo_db @ [demo_carol (demo_gen 50)]\<rparr>)"
    using demo_caller_carol by (simp add: demo_gens_def)
  have n: "member_role (usr_id (demo_carol (demo_gen 50))) k (demo_db\<lparr>t_users := t_users demo_db @ [demo_carol (demo_gen 50)]\<rparr>) = None" for k
    by (simp add: member_role_None demo_tables demo_admin_row_def demo_member_row_def new_admin_row_def new_member_row_def
        demo_carol_def demo_gen_def)
  have i: "en_uuid demo_env ''10'' = Some 10" "en_uuid demo_env ''99'' = Some 99" by (simp_all add: demo_ids)
  show ?thesis
    using outsiders_are_refused [of demo_env demo_gens, OF c n i(1) named_routes(2)]
      outsiders_are_refused [of demo_env demo_gens, OF c n i(2) named_routes(2)] by simp
qed







text \<open>
  C9. For events, members, rooms and sessions: in any history of version-gated updates and
  deletes, run one after another, no two writes that name the same row and the same version both
  succeed.
\<close>

theorem no_lost_updates:
  assumes "db_ok ci s"
  shows "distinct (wins ereqs (run_writes event_write ereqs s)) \<and>
    distinct (wins mreqs (run_writes member_write mreqs s)) \<and>
    distinct (wins rreqs (run_writes room_write rreqs s)) \<and>
    distinct (wins sreqs (run_writes session_write sreqs s))"
  using event_versioned.no_lost_update member_versioned.no_lost_update
    room_versioned.no_lost_update session_versioned.no_lost_update assms by blast

theorem no_lost_updates_witness:
  "distinct (wins [(RUpdate (demo_gen 50) 1 demo_room_patch, (10::uuid, 20::uuid), 1), (RDelete (demo_gen 51) 2, (10::uuid, 20::uuid), 1)]
     (run_writes room_write [(RUpdate (demo_gen 50) 1 demo_room_patch, (10::uuid, 20::uuid), 1), (RDelete (demo_gen 51) 2, (10::uuid, 20::uuid), 1)] demo_db))"
  by (rule no_lost_updates [OF demo_ok, of "[]" "[]" _ "[]", THEN conjunct2, THEN conjunct2, THEN conjunct1])





text \<open>
  C12. Under the permissions of the seed migration, whatever an attendee sends to a route under
  the event leaves the database as the sign-in left it.
\<close>

theorem attendees_change_nothing:
  assumes "NewPolicy role_permissions = Inr p" "caller env (gs 0) rq s = Some (u, s1)" "en_uuid env e = Some ev"
    and "member_role (usr_id u) ev s1 = Some ''attendee''"
  shows "snd (ServeHTTP env p gs m (''v1'' # ''events'' # e # xs) rq s) \<in> {s, s1}"
proof (cases rule: serve_cases [of m "''v1'' # ''events'' # e # xs" env gs p rq s])
  case (handled r u' t res act ev' role)
  from handled(1,2) obtain e' xs' where e': "''v1'' # ''events'' # e # xs = ''v1'' # ''events'' # e' # xs'"
    "PathValue (path_request r (''v1'' # ''events'' # e # xs) rq) ''eventId'' = e'"
    and g: "ro_method r = ''GET'' \<longleftrightarrow> act = ActionRead" by (rule permitted_route)
  then have e: "PathValue (path_request r (''v1'' # ''events'' # e # xs) rq) ''eventId'' = e" by simp
  have "t = s1" "role = ''attendee''" using handled(3-5) assms e by simp_all
  then have "ro_method r = ''GET''" using handled(6) g by (simp add: seeded_permissions [OF assms(1)] may_def)
  then have "holds reads (ro_handler r)" using find_route_in [OF handled(1)] by (blast intro: get_route_reads)
  then show ?thesis using handled(7) \<open>t = s1\<close> by (simp add: holds_def reads_def)
next
  case (open_route r)
  then show ?thesis by (simp add: HealthServeHTTP_def)
next
  case (signed_in r u' t)
  from signed_in(1) obtain res act where "ro_guard r = Permitted res act" by (rule event_route)
  then show ?thesis using signed_in(2) by simp
qed (use assms(2) in simp_all)

theorem attendees_change_nothing_witness:
  "snd (ServeHTTP demo_env demo_policy demo_gens ''DELETE'' [''v1'', ''events'', ''10'']
     ((demo_request ''a'' [])\<lparr>rq_query := [(''version'', ''1'')]\<rparr>) demo_left) \<in> {demo_left, demo_left}"
  by (rule attendees_change_nothing [OF demo_new_policy demo_caller_left _ demo_left_role]) (simp add: demo_ids)

text \<open>
  C13. Whatever the command line, the environment and the language model say, a run of the demo
  agent against the backend leaves every table as it was except users, where a sign-in may add
  or refresh the caller's own row: no event, membership, room, session, invitation or audit row
  is written.
\<close>

theorem agent_is_read_only:
  "\<exists>us. snd (snd (snd (agent_main tx model_of (backend env p gss host) getenv fl m (n, s)))) = s\<lparr>t_users := us\<rparr>"
  by (rule agent_reads)







text \<open>
  C17. Outside production, on a database that satisfies the schema and holds no recurring
  series, 'make seed' runs to the end: the old rows are deleted, the generator neither panics
  nor loops, every INSERT of its rows is accepted, the self-check of the three demo identities
  passes, and the result is a database with exactly 5000 users, 50 events and 50000 invitations
  that satisfies every constraint and has an admin on each event. Of the random source only its
  bounds and that it never stops drawing any number are assumed, of the issuer that it answers a
  demo client with a token of that subject.
\<close>

theorem seed_run_succeeds:
  assumes "mode \<noteq> ''production''" "db_ok (en_ci env) s" "t_series s = []"
    and "seed_env_ok sv" "folds_plain (en_ci env)" "issuer_ok env post"
  shows "\<exists>ds s'. seed_run mode env sv post s = (Inr ds, s') \<and> db_ok (en_ci env) s' \<and>
    (\<forall>e \<in> set (t_events s'). \<exists>m \<in> set (t_members s'). mr_event_id m = er_id e \<and> mr_role m = ''admin'') \<and>
    length (t_users s') = 5000 \<and> length (t_events s') = 50 \<and> length (t_invitations s') = 50000"
proof -
  obtain ds s' where s': "seed_run mode env sv post s = (Inr ds, s')" "dataset_loaded DefaultConfig (en_ci env) s'"
    using seed_run_ok [OF assms] by blast
  from s'(2) have "db_ok (en_ci env) s'" "admins_ok s'" "length (t_users s') = 5000" "length (t_events s') = 50"
    "length (t_invitations s') = 50000"
    by (simp_all add: dataset_loaded_def DefaultConfig_def)
  then show ?thesis using s'(1) by (auto simp: admins_ok_def has_admin_def)
qed

theorem seed_run_succeeds_witness:
  "\<exists>ds s'. seed_run ''development'' demo_seed_http demo_seed_env demo_issuer empty_db = (Inr ds, s') \<and>
     length (t_invitations s') = 50000"
proof -
  have "en_ci demo_seed_http = id" by (simp add: demo_seed_http_def)
  moreover have "db_ok id empty_db" by (rule db_ok_empty)
  moreover have "t_series empty_db = []" by (simp add: empty_db_def)
  ultimately show ?thesis
    using seed_run_succeeds [of "''development''" demo_seed_http empty_db demo_seed_env demo_issuer]
      demo_seed_env_ok demo_folds demo_issuer_ok by auto
qed

text \<open>
  C18. Whatever calls of AssignRole and Delete are in flight, their own steps suffice to answer
  all of them: each takes one lock only, so some call can always go on, and none has to be
  aborted.
\<close>

theorem no_call_waits_forever:
  assumes "reachable ci s" "interleaved ci s c"
  shows "\<exists>c'. call_step\<^sup>*\<^sup>* c c' \<and> cf_jobs c' = Map.empty"
proof -
  have ok: "db_ok ci s" using assms(1) by (rule reachable_db_ok)
  show ?thesis
    using calls_drain [of c ci] interleaved_serial [OF assms(2) ok] interleaved_db_ok [OF assms(2) ok]
      interleaved_finite [OF assms(2)] by blast
qed

theorem no_call_waits_forever_witness:
  "\<exists>c'. call_step\<^sup>*\<^sup>* first_wrote c' \<and> cf_jobs c' = Map.empty"
  by (rule no_call_waits_forever [OF two_admins_reachable first_wrote_interleaved])



text \<open>
  C20. A tool call of the agent is the API request it stands for: when the routes answer that
  request with an event, a list or an error envelope, the tool's text is the body's JSON exactly
  as the backend printed it (of sessions without the names of room and speaker, which the client
  does not decode), or the error's code and message marked as an error. The event id passes the
  URL unchanged for every id other than the empty text and the two dot segments, the cursor for
  every text.
\<close>

theorem agent_shows_the_answer:
  assumes "header_ok (bearer_value c)" "cl_base_url c = host" "tool_known name args"
    and "tool_args_of (tool_fields name) input = Some args"
    and "tool_request name args = (path, q)"
    and "ServeHTTP env p (gss n) ''GET'' path (backend_request (header_value (bearer_value c)) q) s = (a, s')"
    and "tool_text env name a = Some r" "readable env (rs_body a)"
  shows "Dispatch tx (backend env p gss host) c name input (n, s) = (Inr r, (Suc n, s'))"
  using assms by (rule backend_tool)

theorem agent_shows_the_answer_witness:
  "Dispatch demo_texts demo_backend (demo_client ''a'') ''get_event'' (Some (JObj [(''event_id'', json_text ''10'')])) (0, demo_db) =
     (Inr (print_json (event_json demo_env demo_shown), False), (1, demo_db))"
  using agent_shows_the_answer [where gss = "\<lambda>n. demo_gens" and n = 0,
      OF demo_header(1) demo_base demo_asks(1-3) demo_served demo_asks(4) demo_shown_readable]
  by (simp add: demo_backend_def)

text \<open>
  C21. Asked about an event its user is no member of, each of the three event tools reports the
  API's own refusal, 'forbidden: you do not have permission to perform this action', as a tool
  error: the same text whether or not the event exists, with no retry and nothing else of the
  event.
\<close>

theorem agent_reports_denials:
  assumes "header_ok (bearer_value c)" "cl_base_url c = host"
    and "name \<in> {''get_event'', ''list_sessions'', ''list_rooms''}" "tool_args_of (tool_fields name) input = Some args"
    and "proper_id (ta_event_id args)" "en_uuid env (ta_event_id args) = Some ev"
    and "caller env (gss n 0) (backend_request (header_value (bearer_value c)) (snd (tool_request name args))) s = Some (u, s1)"
    and "member_role (usr_id u) ev s1 = None"
  shows "Dispatch tx (backend env p gss host) c name input (n, s) =
    (Inr (''forbidden: you do not have permission to perform this action'', True), (Suc n, s1))"
  using assms by (rule denied_tool)

theorem agent_reports_denials_witness:
  "fst (Dispatch demo_texts demo_backend (demo_client ''c'') ''list_sessions'' (Some (JObj [(''event_id'', json_text ''10'')])) (0, demo_db)) =
     Inr (''forbidden: you do not have permission to perform this action'', True) \<and>
   fst (Dispatch demo_texts demo_backend (demo_client ''c'') ''list_sessions'' (Some (JObj [(''event_id'', json_text ''99'')])) (0, demo_db)) =
     Inr (''forbidden: you do not have permission to perform this action'', True)"
proof -
  have n: "''list_sessions'' \<in> {''get_event'', ''list_sessions'', ''list_rooms''}" by simp
  have c: "caller demo_env (demo_gens 0) (backend_request (header_value (bearer_value (demo_client ''c''))) q) demo_db =
      Some (demo_carol (demo_gen 50), demo_db\<lparr>t_users := t_users demo_db @ [demo_carol (demo_gen 50)]\<rparr>)" for q
    by (simp only: demo_header demo_stranger(1))
  note denied = agent_reports_denials [where gss = "\<lambda>n. demo_gens" and n = 0, OF demo_header(3) demo_base n demo_denied_args(1) _ _ c demo_stranger(2)]
    agent_reports_denials [where gss = "\<lambda>n. demo_gens" and n = 0, OF demo_header(3) demo_base n demo_denied_args(2) _ _ c demo_stranger(2)]
  show ?thesis using denied demo_ids by (simp add: demo_backend_def demo_proper)
qed



text \<open>
  C23. If a walk over the pages of the sessions or the members of an event reaches its last
  page, every row that was present during the whole walk has been returned.
\<close>

theorem pages_are_complete:
  assumes "0 < limit"
    and "\<forall>s \<in> set ss. db_ok ci s \<and> j \<in> session_key ` set (session_list_rows ev s) \<and> k \<in> member_key ` set (member_list_rows ev s)"
    and "snd (walk (session_list_pairs ev limit) None ss)" "snd (walk (member_list_pairs ev limit) None ss)"
  shows "j \<in> session_key ` set (fst (walk (session_list_pairs ev limit) None ss)) \<and>
    k \<in> member_key ` set (fst (walk (member_list_pairs ev limit) None ss))"
  using assms by (intro conjI session_listing.walk_complete member_listing.walk_complete) auto

theorem pages_are_complete_witness:
  "(31, 31) \<in> session_key ` set (fst (walk (session_list_pairs 10 1) None [demo_db, demo_db])) \<and>
   (11, 11) \<in> member_key ` set (fst (walk (member_list_pairs 10 1) None [demo_db, demo_db]))"
proof (rule pages_are_complete [of 1 _ id])
  show "(0::nat) < 1" by simp
  have "(31, 31) \<in> session_key ` set (session_list_rows 10 demo_db)" "(11, 11) \<in> member_key ` set (member_list_rows 10 demo_db)"
    by code_simp+
  then show "\<forall>s \<in> set [demo_db, demo_db]. db_ok id s \<and> (31, 31) \<in> session_key ` set (session_list_rows 10 s) \<and>
      (11, 11) \<in> member_key ` set (member_list_rows 10 s)"
    by (simp add: demo_ok)
  show "snd (walk (session_list_pairs 10 1) None [demo_db, demo_db])" "snd (walk (member_list_pairs 10 1) None [demo_db, demo_db])"
    by code_simp+
qed

text \<open>
  C24. In every reachable state the room of a session is a room of the session's own event, also
  after rooms and sessions were changed or deleted.
\<close>

theorem session_room_belongs_to_event:
  assumes "reachable ci s" "x \<in> set (t_sessions s)"
  shows "\<exists>r \<in> set (t_rooms s). rr_id r = sr_room_id x \<and> rr_event_id r = sr_event_id x"
  using reachable_rooms_match [OF assms(1)] assms(2) by (simp add: rooms_match_def)

theorem session_room_belongs_to_event_witness:
  "\<exists>r \<in> set (t_rooms demo_db). rr_id r = sr_room_id demo_session_row \<and> rr_event_id r = sr_event_id demo_session_row"
  by (rule session_room_belongs_to_event [OF demo_reachable]) (simp add: demo_tables)



text \<open>
  C26. The next_cursor of a response, sent back as the cursor query parameter, is decoded to
  exactly the position where the page ended: base64, JSON, RFC 3339 and the identifier lose
  nothing for a microsecond instant in the years 0 to 9999 and a zone offset of whole minutes.
\<close>

theorem page_token_round_trip:
  assumes "next_token (en_host env) (en_text env) (Some c) = Some token" "QueryValue rq ''cursor'' = token"
    and "t = cur_created_at c" "t \<noteq> 0" "pg_time t = t" "year_0_9999 (wall_clock (en_host env) (t div ns_per_s))"
    and "\<bar>offset_at (en_host env) (t div ns_per_s)\<bar> < 86400" "offset_at (en_host env) (t div ns_per_s) mod 60 = 0"
    and "i = en_text env (cur_id c)" "en_uuid env i = Some (cur_id c)" "list_all plain i" "i \<noteq> []"
  shows "\<exists>q. list_cursor rq = Some q \<and> bind_cursor env q = Inr (Some c)"
proof -
  have token: "token = EncodeCursor (en_host env) t i" using assms(1,3,9) by (simp add: next_token_def)
  have d: "DecodeCursor token = Some (t, i)"
    unfolding token by (rule cursor_round_trip [OF assms(6-8,4,11,12)])
  have "token \<noteq> []"
  proof
    assume "token = []"
    then have "DecodeCursor [] = Some (t, i)" using d by simp
    moreover have "DecodeCursor [] = None" by code_simp
    ultimately show False by simp
  qed
  then show ?thesis
    using d assms(2,3,5,10) by (simp add: list_cursor_def bind_cursor_def bind_uuid_def Let_def)
qed

theorem page_token_round_trip_witness:
  "\<exists>q. list_cursor ((demo_request ''a'' [])\<lparr>rq_query := [(''cursor'', EncodeCursor utc 20000 (decimal 20))]\<rparr>) = Some q \<and>
     bind_cursor demo_env q = Inr (Some \<lparr>cur_created_at = 20000, cur_id = 20\<rparr>)"
proof (rule page_token_round_trip [where t = 20000 and i = "decimal 20"])
  show "next_token (en_host demo_env) (en_text demo_env) (Some \<lparr>cur_created_at = 20000, cur_id = 20\<rparr>) =
      Some (EncodeCursor utc 20000 (decimal 20))"
    by (simp add: next_token_def)
  show "en_uuid demo_env (decimal 20) = Some (cur_id \<lparr>cur_created_at = 20000, cur_id = 20\<rparr>)" by code_simp
  show "list_all plain (decimal 20)" by code_simp
qed (simp_all add: QueryValue_def value_of_def pg_time_def year_0_9999_def wall_clock_def offset_at_def utc_def ns_per_s_def decimal.simps)

text \<open>
  C27. Every answer the handlers can give, errors and their details included, is printed as JSON
  text that encoding/json reads back as the same value, as long as its times have four-digit
  years and its details nest at most 10000 deep: names and descriptions cannot break out of
  their quotes, whatever bytes they hold.
\<close>

theorem answers_parse_back:
  assumes "body_encodes env b" "b \<noteq> NoBody" "\<forall>t. b \<noteq> TextBody t" "json_depth (body_json env b) \<le> 10000"
  shows "json_whole (body_bytes env b) = Some (body_json env b)"
  using assms by (rule answer_parses)

theorem answers_parse_back_witness:
  "json_whole (body_bytes demo_env (EventBody demo_shown)) = Some (event_json demo_env demo_shown)"
proof -
  have "body_encodes demo_env (EventBody demo_shown)" by code_simp
  moreover have "json_depth (event_json demo_env demo_shown) \<le> 10000" using event_depth [of demo_env demo_shown 9999] by simp
  ultimately show ?thesis using answers_parse_back [of demo_env "EventBody demo_shown"] by simp
qed



text \<open>
  C29. ErrConflict from CreateSession means a live session of the same room or the same speaker
  overlaps the requested interval; ErrInvalidRoom is reported exactly when the event has no such
  room, whatever else is wrong with the request.
\<close>

theorem taken_slot_is_refused:
  "(fst (session_create g a ev inp s) = Inl ErrConflict \<longrightarrow> slot_taken (new_session_row g ev inp) (t_sessions s)) \<and>
   (fst (session_create g a ev inp s) = Inl ErrInvalidRoom \<longleftrightarrow> find_room ev (sci_room_id inp) s = None)"
  using session_create_conflict_taken session_create_ErrInvalidRoom session_create_invalid_room
  by (metis fst_conv prod.collapse)

theorem taken_slot_is_refused_witness:
  "slot_taken (new_session_row (demo_gen 50) 10 demo_session) (t_sessions demo_db) \<and>
   fst (session_create (demo_gen 50) 1 10 (demo_session\<lparr>sci_room_id := 99, sci_speaker_id := 99\<rparr>) demo_db) = Inl ErrInvalidRoom"
proof -
  have "fst (session_create (demo_gen 50) 1 10 demo_session demo_db) = Inl ErrConflict" by code_simp
  moreover have "find_room 10 (sci_room_id (demo_session\<lparr>sci_room_id := 99, sci_speaker_id := 99\<rparr>)) demo_db = None" by code_simp
  ultimately show ?thesis using taken_slot_is_refused by blast
qed

text \<open>
  C30. Repeating a completed bulk invitation with the same actor, key and request hash returns
  the stored results marked as replayed and writes nothing; the same key with another hash is
  refused with ErrConflict. The event and the items of the retry play no part.
\<close>

theorem bulk_retry_replays:
  assumes "db_ok ci s" "find_key a key s = None" "invitation_bulk_create ci g gs a ev key h items s = (Inr res, s')"
  shows "invitation_bulk_create ci g2 gs2 a ev2 key h items2 s' = (Inr \<lparr>br_items = br_items res, br_replayed = True\<rparr>, s') \<and>
    (h2 \<noteq> h \<longrightarrow> invitation_bulk_create ci g2 gs2 a ev2 key h2 items2 s' = (Inl ErrConflict, s'))"
  using bulk_create_retry [of a key s'] bulk_create_first [OF assms(2,3,1)] by (auto simp: key_row_def)

theorem bulk_retry_replays_witness:
  "\<exists>results s'. invitation_bulk_create id (demo_gen 70) demo_gen 1 99 ''k'' ''h'' [] s' = (Inr \<lparr>br_items = results, br_replayed = True\<rparr>, s') \<and> results \<noteq> []"
proof -
  let ?items = "[\<lparr>ici_email = ''n@x'', ici_role = ''attendee''\<rparr>]"
  let ?r = "invitation_bulk_create id (demo_gen 50) (\<lambda>i. demo_gen (60 + i)) 1 10 ''k'' ''h'' ?items demo_db"
  have f: "find_key 1 ''k'' demo_db = None" by (simp add: find_key_def demo_tables)
  have ne: "\<not> isl (fst ?r)" "case fst ?r of Inl _ \<Rightarrow> False | Inr res \<Rightarrow> br_items res \<noteq> []" by code_simp+
  obtain res s' where r: "?r = (Inr res, s')" by (rule run_ok [OF ne(1)])
  have "br_items res \<noteq> []" using ne(2) unfolding r by simp
  with bulk_retry_replays [OF demo_ok f r, of "demo_gen 70" demo_gen 99 "[]"] show ?thesis by blast
qed



text \<open>
  C32. A series creation that succeeds reports one result per occurrence, in order; exactly the
  occurrences reported as created were appended to the sessions table with the reported ids, and
  a slot reported as conflict is taken by a live session.
\<close>

theorem series_report_is_exact:
  assumes "session_create_series g gs a ev inp s = (Inr (series, results), s')"
  defines "items \<equiv> map (\<lambda>i. (gs i, occurrence_input inp (sx_id series) i)) [0..<nat (sxi_occurrences inp)]"
  shows "series = new_series g ev inp \<and>
    t_sessions s' = t_sessions s @ concat (map (booked ev) (zip items results)) \<and>
    list_all2 (occurrence_reported ev (t_sessions s')) items results"
proof -
  obtain s1 where 1: "insert_series (new_series g ev inp) s = Inr s1" and series: "series = new_series g ev inp"
    and m: "materialize a ev items s1 = (Inr results, s')"
    using assms(1) unfolding items_def
    by (auto simp: session_create_series_def Let_def and_then_Inr_iff split: sum.splits prod.splits)
  have ts: "t_sessions s1 = t_sessions s" using 1 by (simp add: insert_series_Inr)
  show ?thesis using materialize_reports [OF m, unfolded ts] series by blast
qed

theorem series_report_is_exact_witness:
  "\<exists>results (s' :: db). list_all2 (occurrence_reported 10 (t_sessions s'))
     (map (\<lambda>i. (demo_gen (60 + i), occurrence_input demo_series 50 i)) [0..<2]) results"
proof -
  let ?r = "session_create_series (demo_gen 50) (\<lambda>i. demo_gen (60 + i)) 1 10 demo_series demo_db"
  have "\<not> isl (fst ?r)" by code_simp
  then obtain p s' where p: "?r = (Inr p, s')" by (elim run_ok)
  obtain series results where "p = (series, results)" by (cases p)
  note rep = series_report_is_exact [OF p [unfolded this]]
  then have "sx_id series = 50" "nat (sxi_occurrences demo_series) = 2"
    by (simp_all add: new_series_def demo_gen_def demo_series_def)
  from rep [unfolded this] show ?thesis by blast
qed

text \<open>
  C33. With any limit the query parameter admits, following next_cursor over an unchanging
  database ends within n pages as soon as n times the limit exceeds the number of rows, on each
  of the five list endpoints.
\<close>

theorem paging_terminates:
  assumes "list_limit rq = Some limit" "db_ok ci s"
    and "length (event_list_rows u s) < limit * n" "length (member_list_rows ev s) < limit * n"
    and "length (room_list_rows ev s) < limit * n" "length (session_list_rows ev s) < limit * n"
    and "length (invitation_list_rows ev s) < limit * n"
  shows "snd (walk (event_list_pairs u limit) None (replicate n s)) \<and>
    snd (walk (member_list_pairs ev limit) None (replicate n s)) \<and>
    snd (walk (room_list_pairs ev limit) None (replicate n s)) \<and>
    snd (walk (session_list_pairs ev limit) None (replicate n s)) \<and>
    snd (walk (invitation_list_pairs ev limit) None (replicate n s))"
proof -
  have "0 < limit" using list_limit_bounds [OF assms(1)] by simp
  then show ?thesis
    using assms(2-)
    by (intro conjI event_listing.walk_finishes member_listing.walk_finishes room_listing.walk_finishes
        session_listing.walk_finishes invitation_listing.walk_finishes) (simp_all add: keyset_rows_def)
qed

theorem paging_terminates_witness:
  "snd (walk (session_list_pairs 10 1) None (replicate 3 demo_db)) \<and> snd (walk (member_list_pairs 10 1) None (replicate 3 demo_db))"
proof -
  let ?rq = "(demo_request ''a'' [])\<lparr>rq_query := [(''limit'', ''1'')]\<rparr>"
  have l: "list_limit ?rq = Some 1" by code_simp
  have n: "length (event_list_rows 1 demo_db) < 1 * 3" "length (member_list_rows 10 demo_db) < 1 * 3"
    "length (room_list_rows 10 demo_db) < 1 * 3" "length (session_list_rows 10 demo_db) < 1 * 3"
    "length (invitation_list_rows 10 demo_db) < 1 * 3" by code_simp+
  from paging_terminates [OF l demo_ok n] show ?thesis by simp
qed

text \<open>
  C34. Around a single change of offset, ResolveLocalTime agrees with the declarative reading of
  a wall clock: it returns an instant whose wall clock is the requested one, and it reports a
  nonexistent time only if no instant within two days has that wall clock.
\<close>

theorem only_gaps_are_refused:
  assumes "one_change loc w T a b" "year_0_9999 (w - 172800)" "year_0_9999 (w + 172800)"
  shows "case ResolveLocalTime (format_wall w) loc of
      Inl e \<Rightarrow> e = ErrNonexistentLocalTime \<and> (\<forall>u. \<bar>u - w\<bar> \<le> 172800 \<longrightarrow> wall_clock loc u \<noteq> w)
    | Inr t \<Rightarrow> format_local loc t = format_wall w"
proof -
  note o = one_change_offset [OF assms(1)]
  have ab: "\<bar>a\<bar> \<le> 86400" "\<bar>b\<bar> \<le> 86400" using assms(1) by (auto simp: one_change_def)
  show ?thesis
    unfolding one_change_resolve [OF assms]
    using o [of "w - a"] o [of "w - b"] ab o
    by (auto simp: format_local_def wall_clock_def ns_per_s_def)
qed

theorem only_gaps_are_refused_witness:
  "case ResolveLocalTime (format_wall 63928492200) demo_berlin of
      Inl e \<Rightarrow> e = ErrNonexistentLocalTime \<and> (\<forall>u. \<bar>u - 63928492200\<bar> \<le> 172800 \<longrightarrow> wall_clock demo_berlin u \<noteq> 63928492200)
    | Inr t \<Rightarrow> format_local demo_berlin t = format_wall 63928492200"
  by (rule only_gaps_are_refused [OF demo_one_change]) (simp_all add: year_0_9999_def)

text \<open>
  C35. noSpeakerOrRoomOverlap, which sorts each group by start and compares neighbours only,
  accepts a list of sessions exactly if the two EXCLUDE constraints accept their rows: no two of
  them share a room or a speaker at overlapping times. Any sort by start will do, whatever it
  does with equal starts.
\<close>

theorem overlap_check_is_the_constraint:
  assumes "sorts_by_start srt" "proper ss"
  shows "noSpeakerOrRoomOverlap srt ss = None \<longleftrightarrow>
    (\<forall>x \<in> set (map session_to_row ss). \<forall>y \<in> set (map session_to_row ss). sr_id x \<noteq> sr_id y \<longrightarrow> overlaps x y \<longrightarrow>
       sr_room_id x \<noteq> sr_room_id y \<and> sr_speaker_id x \<noteq> sr_speaker_id y)"
  unfolding overlap_check_exact [OF assms] no_double_booking_def by (auto simp: live_def)

theorem overlap_check_is_the_constraint_witness:
  "noSpeakerOrRoomOverlap (sort_key se_starts_at) [demo_slot 1 0 1000, demo_slot 2 1000 3000] = None \<and>
   noSpeakerOrRoomOverlap (sort_key se_starts_at) [demo_slot 1 0 2000, demo_slot 2 1000 3000] \<noteq> None"
proof -
  have "sorts_by_start (sort_key se_starts_at)" by (simp add: sorts_by_start_def)
  moreover have "proper [demo_slot 1 0 1000, demo_slot 2 1000 3000]" "proper [demo_slot 1 0 2000, demo_slot 2 1000 3000]"
    by (simp_all add: proper_def demo_slot_def whole_def)
  ultimately show ?thesis
    by (simp add: overlap_check_is_the_constraint overlaps_def ranges_overlap_def demo_slot_def session_to_row_def pg_time_def)
qed

text \<open>
  C36. A wall clock that occurs twice is resolved to the first occurrence if, read as UTC, it
  lies before the change, and to the second otherwise: east of UTC that is the later offset,
  against the comment that promises the earlier one.
\<close>

theorem overlaps_follow_the_utc_offset:
  assumes "one_change loc w T a b" "year_0_9999 (w - 172800)" "year_0_9999 (w + 172800)"
    and "wall_clock loc u = w" "wall_clock loc v = w" "u < v" "\<bar>u - w\<bar> \<le> 172800" "\<bar>v - w\<bar> \<le> 172800"
  shows "ResolveLocalTime (format_wall w) loc = Inr (ns_per_s * (if w < T then u else v))"
proof -
  note o = one_change_offset [OF assms(1)]
  have "u + (if u < T then a else b) = w" "v + (if v < T then a else b) = w"
    using assms(4,5,7,8) o [of u] o [of v] by (auto simp: wall_clock_def)
  then have "u = w - a" "v = w - b" "u < T" "T \<le> v" using assms(6) by (auto split: if_splits)
  then show ?thesis unfolding one_change_resolve [OF assms(1-3)] by auto
qed

theorem overlaps_follow_the_utc_offset_witness:
  "ResolveLocalTime ''2026-10-25T02:30:00'' demo_berlin = Inr (ns_per_s * 63928488600)"
proof -
  have t: "format_wall 63928492200 = ''2026-10-25T02:30:00''" by code_simp
  have "ResolveLocalTime (format_wall 63928492200) demo_berlin =
      Inr (ns_per_s * (if (63928492200 :: int) < 63928486800 then 63928485000 else 63928488600))"
    by (rule overlaps_follow_the_utc_offset [OF demo_one_change])
      (simp_all add: year_0_9999_def wall_clock_def offset_at_def demo_berlin_def)
  then show ?thesis by (simp add: t)
qed



text \<open>
  C38. Two calls with the same actor, key and hash whose processing overlaps both return: the
  first to record its result returns its own, the other returns the winner's results marked as
  replayed, and only one key row exists.
\<close>

theorem bulk_race_has_one_winner:
  assumes "db_ok ci s1" "find_key a key s1 = None" "bulk_record g a key h res1 s1 = (Inr r1, s1')"
    and "db_ok ci s2" "set (t_idempotency s1') \<subseteq> set (t_idempotency s2)"
  shows "bulk_record g2 a key h res2 s2 = (Inr \<lparr>br_items = res1, br_replayed = True\<rparr>, s2) \<and> br_items r1 = res1 \<and> \<not> br_replayed r1"
proof -
  note won = bulk_record_won [OF assms(2,3)]
  then have "key_row g a key h res1 \<in> set (t_idempotency s2)" using assms(5) by auto
  from find_key_in [OF assms(4) this] have "find_key a key s2 = Some (key_row g a key h res1)" by (simp add: key_row_def)
  from bulk_record_lost [OF this, of g2 h res2] won show ?thesis by (simp add: key_row_def)
qed

theorem bulk_race_has_one_winner_witness:
  "\<exists>s2. bulk_record (demo_gen 51) 1 ''k'' ''h'' [] s2 =
     (Inr \<lparr>br_items = [item_result ''n@x'' ''conflict'' None], br_replayed = True\<rparr>, s2)"
proof -
  let ?r = "bulk_record (demo_gen 50) 1 ''k'' ''h'' [item_result ''n@x'' ''conflict'' None] demo_db"
  have f: "find_key 1 ''k'' demo_db = None" by (simp add: find_key_def demo_tables)
  have "\<not> isl (fst ?r)" by code_simp
  then obtain r1 s1 where r: "?r = (Inr r1, s1)" by (elim run_ok)
  from bulk_race_has_one_winner [OF demo_ok f r bulk_record_ok [OF demo_ok r] subset_refl] show ?thesis by blast
qed




end
